(* ===== verification/Prelude.thy ===== *)
theory Prelude
  imports Main "HOL-Library.Word" "HOL-Library.Sublist"
begin

unbundle bit_operations_syntax

text \<open>
  Shared vocabulary of the development: machine types, the faults a C++ operation can end
  in, byte-order and decimal conversions, the string stream used as a byte queue, and the
  interface of a first-in first-out container. Nothing here is specific to one component.
\<close>

section \<open>Collections of facts\<close>

named_theorems outcome_simps
  \<open>evaluation rules of the fault monad\<close>
named_theorems byte_simps
  \<open>lengths and round trips of byte-level conversions\<close>

section \<open>Machine types\<close>

type_synonym byte = "8 word"
type_synonym u16 = "16 word"
type_synonym u32 = "32 word"

text \<open>
  Platform: the sources are compiled for two targets and select code with the preprocessor.
\<close>

datatype platform = Windows | Unix

text \<open>The status of a Windows call that succeeded.\<close>

definition ERROR_SUCCESS :: u32 where
  "ERROR_SUCCESS = 0"

section \<open>Faults\<close>

text \<open>
  An operation of the code either returns or ends in a fault. \<open>Assert_failed\<close> is the abort
  of a failed \<open>assert\<close> in a build without \<open>NDEBUG\<close>; \<open>Stack_overflow\<close> is a recursion that
  exhausts the call depth it was given; \<open>Undefined\<close> names the rule of the language a step
  breaks; \<open>Uncaught\<close> is an exception that leaves the outermost function of the code;
  \<open>Exit\<close> is a call of \<open>exit\<close>, and \<open>Killed\<close> the end by a signal without handler.
\<close>

datatype ub =
    Null_deref
  | Uninit_pointer
  | Uninit_read
  | Use_after_free
  | Double_free
  | Out_of_bounds
  | Bad_delete
  | Missing_return
  | Int_overflow

datatype exn = Sql_error | Broken_connection | Usage_error | Conversion_error

datatype fault =
    Assert_failed
  | Stack_overflow
  | Undefined ub
  | Uncaught exn
  | Exit int
  | Killed

type_synonym 'a outcome = "fault + 'a"

definition bind_out :: "'a outcome \<Rightarrow> ('a \<Rightarrow> 'b outcome) \<Rightarrow> 'b outcome" where
  "bind_out m k = (case m of Inl f \<Rightarrow> Inl f | Inr x \<Rightarrow> k x)"

lemma bind_out_simps [simp, outcome_simps]:
  "bind_out (Inl f) k = Inl f"
  "bind_out (Inr x) k = k x"
  by (simp_all add: bind_out_def)

lemma bind_out_assoc: "bind_out (bind_out m k) h = bind_out m (\<lambda>x. bind_out (k x) h)"
  by (cases m) simp_all

lemma bind_out_Inr_iff:
  "bind_out m k = Inr y \<longleftrightarrow> (\<exists>x. m = Inr x \<and> k x = Inr y)"
  by (cases m) simp_all

lemma bind_out_Inl_iff:
  "bind_out m k = Inl f \<longleftrightarrow> m = Inl f \<or> (\<exists>x. m = Inr x \<and> k x = Inl f)"
  by (cases m) simp_all

lemma map_out_bind: "map_sum id g (bind_out m k) = bind_out m (\<lambda>x. map_sum id g (k x))"
  by (cases m) simp_all

lemma bind_out_cong [fundef_cong]:
  "m = m' \<Longrightarrow> (\<And>x. m' = Inr x \<Longrightarrow> k x = k' x) \<Longrightarrow> bind_out m k = bind_out m' k'"
  by (cases m') simp_all

text \<open>
  \<open>assert\<close> of \<open>cassert\<close>: with \<open>NDEBUG\<close> defined (the first argument) it does nothing.
\<close>

definition c_assert :: "bool \<Rightarrow> bool \<Rightarrow> unit outcome" where
  "c_assert ndbg c = (if ndbg \<or> c then Inr () else Inl Assert_failed)"

lemma c_assert_simps [simp, outcome_simps]:
  "c_assert True c = Inr ()"
  "c_assert ndbg True = Inr ()"
  "c_assert False c = (if c then Inr () else Inl Assert_failed)"
  by (simp_all add: c_assert_def)

text \<open>Folding a fallible step over a list stops at the first fault.\<close>

primrec fold_out :: "('s \<Rightarrow> 'a \<Rightarrow> 's outcome) \<Rightarrow> 's \<Rightarrow> 'a list \<Rightarrow> 's outcome" where
  "fold_out f s [] = Inr s"
| "fold_out f s (x # xs) = bind_out (f s x) (\<lambda>s'. fold_out f s' xs)"

lemma fold_out_append:
  "fold_out f s (xs @ ys) = bind_out (fold_out f s xs) (\<lambda>s'. fold_out f s' ys)"
  by (induction xs arbitrary: s) (simp_all add: bind_out_assoc)

lemma fold_out_invariant:
  assumes "\<And>s x s'. I s \<Longrightarrow> x \<in> set xs \<Longrightarrow> f s x = Inr s' \<Longrightarrow> I s'"
    and "I s" and "fold_out f s xs = Inr t"
  shows "I t"
  using assms
proof (induction xs arbitrary: s)
  case (Cons x xs)
  from Cons.prems(3) obtain s' where "f s x = Inr s'" and rest: "fold_out f s' xs = Inr t"
    by (auto simp: bind_out_Inr_iff)
  with Cons.prems(1,2) have "I s'" by (meson list.set_intros(1))
  from Cons.IH [OF _ this rest] Cons.prems(1) show ?case by (meson list.set_intros(2))
qed simp

section \<open>Big-endian words\<close>

text \<open>
  \<open>*((uint32_t*)p) = htonl(w)\<close> stores the four bytes of \<open>w\<close> most significant first, and
  \<open>ntohl\<close> (the code calls its inverse twin \<open>htonl\<close>) of a load reads them back.
\<close>

definition store_be32 :: "u32 \<Rightarrow> byte list" where
  "store_be32 w = [ucast (drop_bit 24 w), ucast (drop_bit 16 w), ucast (drop_bit 8 w), ucast w]"

fun load_be32 :: "byte list \<Rightarrow> u32" where
  "load_be32 (a # b # c # d # _) =
     push_bit 24 (ucast a) OR push_bit 16 (ucast b) OR push_bit 8 (ucast c) OR ucast d"
| "load_be32 _ = 0"

lemma length_store_be32 [simp, byte_simps]: "length (store_be32 w) = 4"
  by (simp add: store_be32_def)

lemma load_store_be32 [simp, byte_simps]: "load_be32 (store_be32 w @ xs) = w"
proof (rule bit_word_eqI)
  let ?r = "push_bit 24 (ucast (ucast (drop_bit 24 w) :: byte)) OR
    push_bit 16 (ucast (ucast (drop_bit 16 w) :: byte)) OR
    push_bit 8 (ucast (ucast (drop_bit 8 w) :: byte)) OR ucast (ucast w :: byte) :: u32"
  fix n assume "n < LENGTH(32)"
  then consider "n < 8" | "8 \<le> n" "n < 16" | "16 \<le> n" "n < 24" | "24 \<le> n" "n < 32"
    by fastforce
  then have "bit ?r n = bit w n"
  proof cases
    case 1 then show ?thesis by (simp add: bit_simps)
  next
    case 2 then show ?thesis by (simp add: bit_simps) linarith
  next
    case 3 then show ?thesis by (simp add: bit_simps) linarith
  next
    case 4 then show ?thesis by (simp add: bit_simps) linarith
  qed
  then show "bit (load_be32 (store_be32 w @ xs)) n = bit w n"
    by (simp add: store_be32_def)
qed

lemma load_be32_take: "4 \<le> n \<Longrightarrow> load_be32 (take n xs) = load_be32 xs"
  by (cases xs rule: load_be32.cases) (auto simp: take_Cons')

section \<open>Decimal output\<close>

text \<open>\<open>std::to_string\<close> and the \<open>%d\<close> of \<open>printf\<close>.\<close>

definition digit_char :: "nat \<Rightarrow> char" where
  "digit_char d = ''0123456789'' ! d"

fun dec_nat :: "nat \<Rightarrow> string" where
  "dec_nat n =
     (if n < 10 then [digit_char n] else dec_nat (n div 10) @ [digit_char (n mod 10)])"

declare dec_nat.simps [simp del]

definition dec_int :: "int \<Rightarrow> string" where
  "dec_int i = (if i < 0 then CHR ''-'' # dec_nat (nat (- i)) else dec_nat (nat i))"

text \<open>The number a string of decimal digits stands for.\<close>

fun digits_value :: "string \<Rightarrow> nat" where
  "digits_value s = foldl (\<lambda>v c. 10 * v + (of_char c - 48)) 0 s"

lemma digit_char_value [simp]: "d < 10 \<Longrightarrow> of_char (digit_char d) - (48::nat) = d"
proof -
  assume "d < 10"
  then consider "d = 0" | "d = 1" | "d = 2" | "d = 3" | "d = 4" | "d = 5" | "d = 6" | "d = 7"
    | "d = 8" | "d = 9" by fastforce
  then show ?thesis by cases (simp_all add: digit_char_def of_char_def)
qed

lemma digits_value_dec_nat [simp]: "digits_value (dec_nat n) = n"
proof (induction n rule: dec_nat.induct)
  case (1 n)
  show ?case
  proof (cases "n < 10")
    case True then show ?thesis by (subst dec_nat.simps) simp
  next
    case False
    with 1 show ?thesis by (subst dec_nat.simps) simp
  qed
qed

lemma length_dec_nat: "10 ^ k \<le> n \<Longrightarrow> n < 10 ^ Suc k \<Longrightarrow> length (dec_nat n) = Suc k"
proof (induction k arbitrary: n)
  case 0
  then show ?case by (subst dec_nat.simps) simp
next
  case (Suc k)
  then have "length (dec_nat (n div 10)) = Suc k"
    by (intro Suc.IH) (simp_all add: less_mult_imp_div_less mult.commute)
  moreover have "\<not> n < 10"
    using Suc.prems(1) by (simp add: le_trans [OF _ Suc.prems(1)] not_less)
  ultimately show ?case by (subst dec_nat.simps) simp
qed

lemma length_dec_nat_small:
  "n < 10 \<Longrightarrow> length (dec_nat n) = 1"
  "10 \<le> n \<Longrightarrow> n < 100 \<Longrightarrow> length (dec_nat n) = 2"
  "100 \<le> n \<Longrightarrow> n < 1000 \<Longrightarrow> length (dec_nat n) = 3"
  "1000 \<le> n \<Longrightarrow> n < 10000 \<Longrightarrow> length (dec_nat n) = 4"
  using length_dec_nat [of 1 n] length_dec_nat [of 2 n] length_dec_nat [of 3 n]
  by (simp_all add: dec_nat.simps [of n])

definition is_digit :: "char \<Rightarrow> bool" where
  "is_digit c \<longleftrightarrow> c \<in> set ''0123456789''"

lemma is_digit_digit_char [simp]: "d < 10 \<Longrightarrow> is_digit (digit_char d)"
  unfolding is_digit_def digit_char_def by (rule nth_mem) simp

lemma is_digit_dec_nat: "list_all is_digit (dec_nat n)"
proof (induction n rule: dec_nat.induct)
  case (1 n)
  then show ?case by (subst dec_nat.simps) simp
qed

lemma takeWhile_dec_nat:
  "rest = [] \<or> \<not> is_digit (hd rest) \<Longrightarrow> takeWhile is_digit (dec_nat n @ rest) = dec_nat n"
  using is_digit_dec_nat [of n]
  by (subst takeWhile_append2) (auto simp: list_all_iff takeWhile_eq_Nil_iff)

text \<open>Left padding to a minimal width: \<open>%4d\<close> pads with blanks, \<open>%02d\<close> with zeros.\<close>

definition pad_left :: "char \<Rightarrow> nat \<Rightarrow> string \<Rightarrow> string" where
  "pad_left c w s = replicate (w - length s) c @ s"

text \<open>A C string ends at its first NUL.\<close>

definition c_str :: "string \<Rightarrow> string" where
  "c_str s = takeWhile (\<lambda>c. c \<noteq> CHR 0x00) s"

lemma c_str_idem [simp]: "c_str (c_str s) = c_str s"
  by (simp add: c_str_def takeWhile_idem)

lemma c_str_id: "CHR 0x00 \<notin> set s \<Longrightarrow> c_str s = s"
  by (auto simp: c_str_def takeWhile_eq_all_conv)

section \<open>String streams as byte queues\<close>

text \<open>
  A \<open>std::stringstream\<close> written and read through \<open>write\<close> and \<open>read\<close> is a byte queue with
  a state flag: \<open>ss_data\<close> holds the bytes written and not yet read, \<open>ss_good\<close> is false once
  a read came up short. A read of \<open>n\<close> bytes returns at most \<open>n\<close> (its \<open>gcount\<close> is the length
  of what it returns); on a stream that is not good, reads deliver nothing and writes are
  lost. \<open>clear()\<close> restores the flag and leaves the bytes where they are.
\<close>

record sstream =
  ss_data :: "byte list"
  ss_good :: bool

definition ss_empty :: sstream where
  "ss_empty = \<lparr>ss_data = [], ss_good = True\<rparr>"

definition ss_write :: "byte list \<Rightarrow> sstream \<Rightarrow> sstream" where
  "ss_write bs s = (if ss_good s then s\<lparr>ss_data := ss_data s @ bs\<rparr> else s)"

definition ss_read :: "nat \<Rightarrow> sstream \<Rightarrow> byte list \<times> sstream" where
  "ss_read n s =
     (if \<not> ss_good s then ([], s)
      else if n \<le> length (ss_data s)
      then (take n (ss_data s), s\<lparr>ss_data := drop n (ss_data s)\<rparr>)
      else (ss_data s, s\<lparr>ss_data := [], ss_good := False\<rparr>))"

definition ss_clear :: "sstream \<Rightarrow> sstream" where
  "ss_clear s = s\<lparr>ss_good := True\<rparr>"

section \<open>First-in first-out containers\<close>

text \<open>
  The interface of \<open>std::deque\<close> and \<open>std::queue\<close> as the code uses them: elements go in at
  the back and leave from the front. \<open>contents\<close> is the abstract sequence.
\<close>

primrec pop_n :: "('q \<Rightarrow> 'a) \<Rightarrow> ('q \<Rightarrow> 'q) \<Rightarrow> nat \<Rightarrow> 'q \<Rightarrow> 'a list \<times> 'q" where
  "pop_n front pop 0 q = ([], q)"
| "pop_n front pop (Suc n) q =
     (let (xs, q') = pop_n front pop n (pop q) in (front q # xs, q'))"

locale fifo =
  fixes push :: "'a \<Rightarrow> 'q \<Rightarrow> 'q"
    and front :: "'q \<Rightarrow> 'a"
    and pop :: "'q \<Rightarrow> 'q"
    and contents :: "'q \<Rightarrow> 'a list"
  assumes contents_push: "contents (push x q) = contents q @ [x]"
    and front_hd: "contents q \<noteq> [] \<Longrightarrow> front q = hd (contents q)"
    and contents_pop: "contents q \<noteq> [] \<Longrightarrow> contents (pop q) = tl (contents q)"
begin

lemma contents_fold_push: "contents (fold push xs q) = contents q @ xs"
  by (induction xs arbitrary: q) (simp_all add: contents_push)

lemma pop_n_contents:
  "n \<le> length (contents q) \<Longrightarrow>
     fst (pop_n front pop n q) = take n (contents q)
     \<and> contents (snd (pop_n front pop n q)) = drop n (contents q)"
proof (induction n arbitrary: q)
  case (Suc n)
  from Suc.prems obtain x xs where xs: "contents q = x # xs"
    by (cases "contents q") auto
  with Suc.prems have "n \<le> length (contents (pop q))"
    by (simp add: contents_pop)
  from Suc.IH [OF this] xs show ?case
    by (auto simp: contents_pop front_hd split: prod.splits)
qed simp

text \<open>What is pushed into an empty container comes out in the same order, and empties it.\<close>

lemma push_pop_order:
  assumes "contents q = []"
  shows "fst (pop_n front pop (length xs) (fold push xs q)) = xs
    \<and> contents (snd (pop_n front pop (length xs) (fold push xs q))) = []"
  using assms pop_n_contents [of "length xs" "fold push xs q"]
  by (simp add: contents_fold_push)

end

end
