(* ===== verification/Wire_Types.thy ===== *)
theory Wire_Types
  imports Prelude
begin

text \<open>
  The data carried between client and server: the enumerations and the \<open>Event\<close> structure of
  \<open>WindowsProtobufLib/protobufLib.h\<close>, the messages of \<open>ClientService/clientService.proto\<close> as
  the generated classes hold them, and the \<open>dispatch\<close> overloads of \<open>protobufLib.cpp\<close> that
  translate between the two.
\<close>

section \<open>Enumerations\<close>

datatype operation =
    NONE_OPERATION
  | CHECK_VERSION
  | UPDATE_LOG
  | QUERY_LAST_EVENT
  | RETURN_LAST_EVENT
  | ACCEPT_LAST_EVENT
  | CONNECT
  | REFUSE

datatype logLevel = fatal | error | warning | info | verbose

datatype osType = os_windows | os_linux | os_other

text \<open>
  The generated enumerations are open, as in every proto3 file: besides the declared names, a
  field can hold the two sentinels of the generated type and any other number received.
\<close>

datatype pb_operation =
    PB_CHECK_VERSION
  | PB_UPDATE_LOG
  | PB_QUERY_LAST_EVENT
  | PB_RETURN_LAST_EVENT
  | PB_ACCEPT_LAST_EVENT
  | PB_CONNECT
  | PB_REFUSE
  | PB_OP_MIN_SENTINEL
  | PB_OP_MAX_SENTINEL
  | PB_OP_UNRECOGNISED int

datatype pb_logLevel =
    PB_fatal | PB_error | PB_warning | PB_info | PB_verbose
  | PB_LEVEL_UNRECOGNISED int

datatype pb_osType = PB_windows_os | PB_linux_os | PB_OS_UNRECOGNISED int

text \<open>The number of an enumerator in the proto file, as the conversion to \<open>uint32_t\<close> reads it.\<close>

primrec pb_level_number :: "pb_logLevel \<Rightarrow> u32" where
  "pb_level_number PB_fatal = 0"
| "pb_level_number PB_error = 1"
| "pb_level_number PB_warning = 2"
| "pb_level_number PB_info = 3"
| "pb_level_number PB_verbose = 4"
| "pb_level_number (PB_LEVEL_UNRECOGNISED i) = word_of_int i"

section \<open>Generated message classes\<close>

record pb_logPackage =
  lp_scope :: string
  lp_level :: pb_logLevel
  lp_rawEventMessage :: string
  lp_timeStamp :: string
  lp_xmlEventMessage :: string
  lp_recordID :: u32

record coreMessage =
  pb_id :: u32
  pb_clientName :: string
  pb_op :: pb_operation
  pb_timeStamp :: string
  pb_os :: pb_osType
  pb_osVersion :: string
  pb_description :: string
  pb_log :: "pb_logPackage list"
  pb_lastEvent :: u32
  pb_logNeedAccept :: bool
  pb_machineID :: string
  pb_refuseID :: u32

text \<open>A default-constructed message: every field at its proto3 default.\<close>

definition new_coreMessage :: coreMessage where
  "new_coreMessage = \<lparr>
     pb_id = 0, pb_clientName = [], pb_op = PB_CHECK_VERSION, pb_timeStamp = [],
     pb_os = PB_windows_os, pb_osVersion = [], pb_description = [], pb_log = [],
     pb_lastEvent = 0, pb_logNeedAccept = False, pb_machineID = [], pb_refuseID = 0\<rparr>"

section \<open>The dispatch overloads\<close>

fun dispatch_op_from_pb :: "pb_operation \<Rightarrow> operation" where
  "dispatch_op_from_pb PB_CONNECT = CONNECT"
| "dispatch_op_from_pb PB_CHECK_VERSION = CHECK_VERSION"
| "dispatch_op_from_pb PB_UPDATE_LOG = UPDATE_LOG"
| "dispatch_op_from_pb PB_QUERY_LAST_EVENT = QUERY_LAST_EVENT"
| "dispatch_op_from_pb PB_RETURN_LAST_EVENT = RETURN_LAST_EVENT"
| "dispatch_op_from_pb PB_ACCEPT_LAST_EVENT = ACCEPT_LAST_EVENT"
| "dispatch_op_from_pb _ = NONE_OPERATION"

fun dispatch_op_to_pb :: "operation \<Rightarrow> pb_operation" where
  "dispatch_op_to_pb CONNECT = PB_CONNECT"
| "dispatch_op_to_pb CHECK_VERSION = PB_CHECK_VERSION"
| "dispatch_op_to_pb UPDATE_LOG = PB_UPDATE_LOG"
| "dispatch_op_to_pb QUERY_LAST_EVENT = PB_QUERY_LAST_EVENT"
| "dispatch_op_to_pb RETURN_LAST_EVENT = PB_RETURN_LAST_EVENT"
| "dispatch_op_to_pb ACCEPT_LAST_EVENT = PB_ACCEPT_LAST_EVENT"
| "dispatch_op_to_pb _ = PB_OP_MIN_SENTINEL"

fun dispatch_level_to_pb :: "logLevel \<Rightarrow> pb_logLevel" where
  "dispatch_level_to_pb error = PB_error"
| "dispatch_level_to_pb fatal = PB_fatal"
| "dispatch_level_to_pb warning = PB_warning"
| "dispatch_level_to_pb info = PB_info"
| "dispatch_level_to_pb verbose = PB_verbose"

fun dispatch_level_from_pb :: "pb_logLevel \<Rightarrow> logLevel" where
  "dispatch_level_from_pb PB_fatal = fatal"
| "dispatch_level_from_pb PB_error = error"
| "dispatch_level_from_pb PB_warning = warning"
| "dispatch_level_from_pb PB_info = info"
| "dispatch_level_from_pb PB_verbose = verbose"
| "dispatch_level_from_pb _ = verbose"

definition dispatch_os_to_pb :: "osType \<Rightarrow> pb_osType" where
  "dispatch_os_to_pb ot = (if ot = os_linux then PB_linux_os else PB_windows_os)"

section \<open>Events\<close>

record event =
  ev_xml :: string
  ev_format :: string
  ev_timeStamp :: string
  ev_provider :: string
  ev_llevel :: logLevel
  ev_level :: u32
  ev_rid :: u32

primrec event_dispatch_level :: "logLevel \<Rightarrow> u32" where
  "event_dispatch_level fatal = 1"
| "event_dispatch_level error = 2"
| "event_dispatch_level warning = 3"
| "event_dispatch_level info = 4"
| "event_dispatch_level verbose = 5"

definition event_dispatch_number :: "u32 \<Rightarrow> logLevel" where
  "event_dispatch_number l =
     (if l = 1 then fatal else if l = 2 then error else if l = 3 then warning
      else if l = 4 then info else verbose)"

text \<open>
  The two constructors with arguments. They differ in the type of the severity; a value of the
  generated (unscoped) enumeration \<open>coreMessage_logLevel\<close> converts to \<open>uint32_t\<close> only, so it
  selects the second one.
\<close>

definition Event_level ::
    "string \<Rightarrow> string \<Rightarrow> string \<Rightarrow> string \<Rightarrow> logLevel \<Rightarrow> u32 \<Rightarrow> event" where
  "Event_level x f p t l r =
     \<lparr>ev_xml = x, ev_format = f, ev_timeStamp = t, ev_provider = p, ev_llevel = l,
      ev_level = event_dispatch_level l, ev_rid = r\<rparr>"

definition Event_number ::
    "string \<Rightarrow> string \<Rightarrow> string \<Rightarrow> string \<Rightarrow> u32 \<Rightarrow> u32 \<Rightarrow> event" where
  "Event_number x f p t l r =
     \<lparr>ev_xml = x, ev_format = f, ev_timeStamp = t, ev_provider = p,
      ev_llevel = event_dispatch_number l, ev_level = l, ev_rid = r\<rparr>"

section \<open>Facts about the translations\<close>

lemma level_from_to_pb [simp]: "dispatch_level_from_pb (dispatch_level_to_pb l) = l"
  by (cases l) simp_all

lemma event_dispatch_number_level [simp]: "event_dispatch_number (event_dispatch_level l) = l"
  by (cases l) (simp_all add: event_dispatch_number_def)

text \<open>The number that travels for a severity is one less than the number \<open>Event\<close> uses for it.\<close>

lemma pb_level_number_to_pb: "pb_level_number (dispatch_level_to_pb l) = event_dispatch_level l - 1"
  by (cases l) simp_all

text \<open>An operation survives the translation to the wire and back exactly when it is neither
  \<open>REFUSE\<close> nor \<open>NONE_OPERATION\<close>; those two are replaced by a sentinel that no receiver
  knows and read back as \<open>NONE_OPERATION\<close>.\<close>

theorem operation_roundtrip:
  "dispatch_op_from_pb (dispatch_op_to_pb op) =
     (if op \<in> {REFUSE, NONE_OPERATION} then NONE_OPERATION else op)"
  by (cases op) simp_all

end
