(* ===== verification/Timestamps.thy ===== *)
theory Timestamps
  imports Prelude
begin

text \<open>
  The clock text of \<open>WindowsProtobufLib/utils.cpp\<close>: the module variable \<open>timeBias\<close>, its
  initialisation from the zone of the machine, and the text \<open>getTimeStamp\<close> prints.
\<close>

section \<open>State and inputs\<close>

text \<open>\<open>SYSTEMTIME\<close>, the structure \<open>GetLocalTime\<close> fills in; every field is a 16-bit word.\<close>

record systemtime =
  wYear :: u16
  wMonth :: u16
  wDay :: u16
  wHour :: u16
  wMinute :: u16
  wSecond :: u16
  wMilliseconds :: u16

text \<open>The initialiser of \<open>timeBias\<close>.\<close>

definition initial_timeBias :: string where
  "initial_timeBias = ''+0''"

text \<open>Integer division of C++ rounds towards zero.\<close>

definition c_div :: "int \<Rightarrow> int \<Rightarrow> int" where
  "c_div a b = sgn a * sgn b * (\<bar>a\<bar> div \<bar>b\<bar>)"

section \<open>Operations\<close>

text \<open>
  \<open>initGetTimestamp\<close>; \<open>bias\<close> is \<open>tzInfo.Bias\<close>, minutes to add to local time to get UTC.
  The status of \<open>GetTimeZoneInformation\<close> is an unsigned number, so its test \<open>>= 0\<close> always
  passes; a zero quotient leaves the variable as it was.
\<close>

definition initGetTimestamp :: "platform \<Rightarrow> int \<Rightarrow> string \<Rightarrow> string" where
  "initGetTimestamp pf bias tb0 =
     (case pf of
        Unix \<Rightarrow> tb0
      | Windows \<Rightarrow>
          (let tb = c_div bias (- 60) in
           if tb > 0 then ''+'' @ dec_int tb
           else if tb < 0 then dec_int tb
           else tb0))"

text \<open>
  \<open>getTimeStamp\<close> with the format \<open>%4d-%02d-%02d %02d:%02d:%02d.%d%s\<close>; outside Windows its
  body is empty and the text passed in stays. The buffer of 1024 bytes holds the longest
  result, so \<open>snprintf\<close> cuts nothing off.
\<close>

abbreviation two_digits :: "u16 \<Rightarrow> string" where
  "two_digits w \<equiv> pad_left CHR ''0'' 2 (dec_nat (unat w))"

definition getTimeStamp :: "platform \<Rightarrow> systemtime \<Rightarrow> string \<Rightarrow> string \<Rightarrow> string" where
  "getTimeStamp pf t timeBias ts =
     (case pf of
        Unix \<Rightarrow> ts
      | Windows \<Rightarrow>
          pad_left CHR '' '' 4 (dec_nat (unat (wYear t))) @ ''-'' @ two_digits (wMonth t) @ ''-''
          @ two_digits (wDay t) @ '' '' @ two_digits (wHour t) @ '':'' @ two_digits (wMinute t)
          @ '':'' @ two_digits (wSecond t) @ ''.'' @ dec_nat (unat (wMilliseconds t)) @ timeBias)"

section \<open>Reading the text back\<close>

text \<open>
  The receiver of the text is a \<open>timestamp\<close> column, which reads the digits after the point as
  a decimal fraction of a second. \<open>fraction_ms\<close> is that reading for at most three digits.
\<close>

definition fraction_ms :: "string \<Rightarrow> nat" where
  "fraction_ms s = digits_value s * 10 ^ (3 - length s)"

lemma length_two_digits [simp]: "unat w < 100 \<Longrightarrow> length (two_digits w) = 2"
  by (cases "unat w < 10") (simp_all add: pad_left_def length_dec_nat_small)

text \<open>A clock reading with a four-digit year and fields that print in two digits.\<close>

definition normal_time :: "systemtime \<Rightarrow> bool" where
  "normal_time t \<longleftrightarrow>
     1000 \<le> unat (wYear t) \<and> unat (wYear t) < 10000 \<and> unat (wMonth t) < 100
     \<and> unat (wDay t) < 100 \<and> unat (wHour t) < 100 \<and> unat (wMinute t) < 100
     \<and> unat (wSecond t) < 100 \<and> unat (wMilliseconds t) < 1000"

text \<open>The digits a reader of the text finds after the point that ends the seconds.\<close>

definition fraction_digits :: "string \<Rightarrow> string" where
  "fraction_digits s = takeWhile is_digit (drop 20 s)"

lemma getTimeStamp_split:
  assumes "normal_time t"
  shows "\<exists>date. length date = 19
    \<and> getTimeStamp Windows t tb ts = date @ ''.'' @ dec_nat (unat (wMilliseconds t)) @ tb"
proof -
  let ?date = "pad_left CHR '' '' 4 (dec_nat (unat (wYear t))) @ ''-'' @ two_digits (wMonth t)
    @ ''-'' @ two_digits (wDay t) @ '' '' @ two_digits (wHour t) @ '':''
    @ two_digits (wMinute t) @ '':'' @ two_digits (wSecond t)"
  have "length (pad_left CHR '' '' 4 (dec_nat (unat (wYear t)))) = 4"
    using assms by (simp add: normal_time_def pad_left_def length_dec_nat_small)
  with assms have "length ?date = 19"
    by (simp add: normal_time_def)
  then show ?thesis
    by (intro exI [of _ ?date]) (simp add: getTimeStamp_def)
qed

lemma c_div_60:
  assumes "0 \<le> m" "m < 60"
  shows "c_div (- 60 * int h - m) (- 60) = int h" "c_div (60 * int h + m) (- 60) = - int h"
proof -
  have d: "(60 * int h + m) div 60 = int h" using assms by simp
  show "c_div (- 60 * int h - m) (- 60) = int h"
  proof (cases "60 * int h + m = 0")
    case False
    then have "0 < 60 * int h + m" using assms by simp
    moreover from this have "\<bar>- 60 * int h - m\<bar> = 60 * int h + m" by simp
    ultimately show ?thesis using d by (simp add: c_div_def sgn_if)
  qed (use assms in \<open>simp add: c_div_def\<close>)
  show "c_div (60 * int h + m) (- 60) = - int h"
  proof (cases "60 * int h + m = 0")
    case False
    then have "0 < 60 * int h + m" using assms by simp
    with d show ?thesis by (simp add: c_div_def sgn_if)
  qed (use assms in \<open>simp add: c_div_def\<close>)
qed

lemma dec_int_0: "dec_int 0 = ''0''"
  by (simp add: dec_int_def dec_nat.simps digit_char_def)

section \<open>Properties\<close>

text \<open>On Windows a normal clock reading is printed with the date and time of day in the
  first nineteen characters, a point, and then the bare decimal number of milliseconds followed
  by the zone. Because that number has no leading zeros, the fraction of a second a reader of the
  text sees is the number of milliseconds only when it is zero or at least a hundred: every
  other reading comes out ten or a hundred times too large.\<close>

theorem getTimeStamp_fraction:
  assumes "normal_time t" and "tb \<noteq> []" and "\<not> is_digit (hd tb)"
  shows "fraction_ms (fraction_digits (getTimeStamp Windows t tb ts)) = unat (wMilliseconds t)
    \<longleftrightarrow> unat (wMilliseconds t) = 0 \<or> 100 \<le> unat (wMilliseconds t)"
proof -
  let ?ms = "unat (wMilliseconds t)"
  obtain date where "length date = 19"
      and ts: "getTimeStamp Windows t tb ts = date @ ''.'' @ dec_nat ?ms @ tb"
    using getTimeStamp_split [OF assms(1)] by blast
  then have "drop 20 (getTimeStamp Windows t tb ts) = dec_nat ?ms @ tb"
    by simp
  then have "fraction_digits (getTimeStamp Windows t tb ts) = dec_nat ?ms"
    using assms(2,3) by (simp add: fraction_digits_def takeWhile_dec_nat)
  moreover have "?ms < 1000" using assms(1) by (simp add: normal_time_def)
  ultimately show ?thesis
    by (cases "?ms < 10"; cases "?ms < 100")
      (simp_all add: fraction_ms_def length_dec_nat_small del: digits_value.simps)
qed

theorem getTimeStamp_fraction_witness:
  "fraction_ms (fraction_digits (getTimeStamp Windows
      \<lparr>wYear = 2019, wMonth = 7, wDay = 3, wHour = 9, wMinute = 5, wSecond = 0,
       wMilliseconds = 7\<rparr> ''+8'' [])) \<noteq> 7"
  using getTimeStamp_fraction
    [of "\<lparr>wYear = 2019, wMonth = 7, wDay = 3, wHour = 9, wMinute = 5, wSecond = 0,
          wMilliseconds = 7\<rparr>" "''+8''" "[]"]
  by (simp add: normal_time_def is_digit_def)

text \<open>A zone that is a whole number of hours from UTC is printed as its sign and that
  number; the minutes of any other zone are lost: every bias prints the same text as the next
  whole hour towards UTC.\<close>

theorem initGetTimestamp_zone:
  assumes "0 \<le> m" "m < 60"
  shows "initGetTimestamp Windows (- 60 * int h - m) initial_timeBias = ''+'' @ dec_int (int h)
    \<and> initGetTimestamp Windows (60 * int h + m) initial_timeBias =
        (if h = 0 then ''+0'' else dec_int (- int h))"
  unfolding initGetTimestamp_def platform.case Let_def c_div_60 [OF assms]
  by (simp add: initial_timeBias_def dec_int_0)

theorem initGetTimestamp_zone_witness:
  "initGetTimestamp Windows (- 330) initial_timeBias = ''+5''"
  using initGetTimestamp_zone [of 30 5] by (simp add: dec_int_def dec_nat.simps digit_char_def)

end
