(* ===== verification/Messages.thy ===== *)
theory Messages
  imports Wire_Types Timestamps
begin

text \<open>
  The class hierarchy of \<open>WindowsProtobufLib/protobufLib.h\<close> and its translation to and from the
  generated \<open>coreMessage\<close>: constructors, \<open>buildPBObj\<close> and the first half of
  \<open>CoreMessage::toBytes\<close> on the sending side, \<open>CoreMessage::BuildObj\<close> on the receiving side.
\<close>

section \<open>Environment and static state\<close>

text \<open>
  What the code takes from outside the repository, as a parameter of every operation that uses
  it: the build (\<open>ndebug\<close>, \<open>target\<close>), the clock, OpenSSL's or BCrypt's digest, zlib, and the
  generated serialiser. \<open>zlib_compress cap x\<close> is \<open>compress2\<close> at the best level into a buffer of
  \<open>cap\<close> bytes: its success flag and the bytes written. \<open>zlib_uncompress cap x\<close> is \<open>uncompress\<close>:
  its success flag and the buffer up to the length it reports. \<open>pb_parse\<close> is \<open>ParseFromArray\<close>.
\<close>

record env =
  ndebug :: bool
  target :: platform
  clock :: systemtime
  sha256 :: "byte list \<Rightarrow> byte list"
  zlib_bound :: "nat \<Rightarrow> nat"
  zlib_compress :: "nat \<Rightarrow> byte list \<Rightarrow> bool \<times> byte list"
  zlib_uncompress :: "nat \<Rightarrow> byte list \<Rightarrow> bool \<times> byte list"
  pb_serialize :: "coreMessage \<Rightarrow> bool \<times> byte list"
  pb_parse :: "byte list \<Rightarrow> coreMessage option"

text \<open>
  The static variables of the library: the counter of \<open>nextID\<close>, the identity of this process
  and the zone text. The counter is a signed 32-bit \<open>int\<close>; its bits are kept, wrapping.
\<close>

record statics =
  next_id :: u32
  myClientName :: string
  myOsVersion :: string
  myMachineID :: string
  timeBias :: string

definition nextID :: "statics \<Rightarrow> u32 \<times> statics" where
  "nextID st = (next_id st, st\<lparr>next_id := next_id st + 1\<rparr>)"

definition getOsType :: "platform \<Rightarrow> osType" where
  "getOsType pf = (case pf of Windows \<Rightarrow> os_windows | Unix \<Rightarrow> os_linux)"

section \<open>The message classes\<close>

text \<open>
  One record for the fields of \<open>CoreMessage\<close>, with the members of the derived classes in
  \<open>msg_body\<close>. \<open>None\<close> for \<open>msg_osType\<close> is a member no constructor has initialised.
\<close>

datatype body =
    Connect_body
  | Query_body
  | Accept_body u32
  | Return_body u32
  | Refuse_body u32
  | Log_body "event list" bool

record message =
  msg_id :: u32
  msg_clientName :: string
  msg_osVersion :: string
  msg_osType :: "osType option"
  msg_op :: operation
  msg_timeStamp :: string
  msg_description :: string
  msg_message :: string
  msg_machineID :: string
  msg_body :: body

text \<open>\<open>CoreMessage(Operation)\<close>: every other member keeps its default, the id being \<open>-1\<close>.\<close>

definition CoreMessage_op :: "operation \<Rightarrow> body \<Rightarrow> message" where
  "CoreMessage_op op b = \<lparr>
     msg_id = - 1, msg_clientName = [], msg_osVersion = [], msg_osType = None, msg_op = op,
     msg_timeStamp = [], msg_description = [], msg_message = [], msg_machineID = [],
     msg_body = b\<rparr>"

text \<open>\<open>CoreMessage(const std::string&, Operation)\<close>.\<close>

definition CoreMessage_desc_op ::
    "string \<Rightarrow> operation \<Rightarrow> body \<Rightarrow> statics \<Rightarrow> message \<times> statics" where
  "CoreMessage_desc_op desc op b st =
     (let (i, st') = nextID st
      in ((CoreMessage_op op b)\<lparr>msg_id := i, msg_description := desc\<rparr>, st'))"

text \<open>\<open>CoreMessage(LogLevel)\<close>: the level is not used.\<close>

definition CoreMessage_level :: "body \<Rightarrow> statics \<Rightarrow> message \<times> statics" where
  "CoreMessage_level b st =
     (let (i, st') = nextID st in ((CoreMessage_op UPDATE_LOG b)\<lparr>msg_id := i\<rparr>, st'))"

text \<open>
  The two other constructors that take a level set the operating system. No class derived from
  \<open>CoreMessage\<close> uses them.
\<close>

definition CoreMessage_level_desc :: "platform \<Rightarrow> string \<Rightarrow> body \<Rightarrow> statics \<Rightarrow> message \<times> statics" where
  "CoreMessage_level_desc pf desc b st =
     (let (i, st') = nextID st
      in ((CoreMessage_op UPDATE_LOG b)\<lparr>msg_id := i, msg_osType := Some (getOsType pf),
             msg_description := desc\<rparr>, st'))"

definition CoreMessage_level_desc_time ::
    "platform \<Rightarrow> string \<Rightarrow> string \<Rightarrow> body \<Rightarrow> statics \<Rightarrow> message \<times> statics" where
  "CoreMessage_level_desc_time pf desc ts b st =
     (let (i, st') = nextID st
      in ((CoreMessage_op UPDATE_LOG b)\<lparr>msg_id := i, msg_osType := Some (getOsType pf),
             msg_timeStamp := ts, msg_description := desc\<rparr>, st'))"

text \<open>
  \<open>ConnectPackage\<close> passes through \<open>CoreMessage(int, const std::string&)\<close>, which leaves the
  operation unset, and sets it before anything reads it.
\<close>

definition ConnectPackage :: "statics \<Rightarrow> message \<times> statics" where
  "ConnectPackage st =
     (let (i, st') = nextID st
      in ((CoreMessage_op CONNECT Connect_body)\<lparr>msg_id := i, msg_description := ''Connect''\<rparr>,
          st'))"

definition AcceptLastEventPackage :: "u32 \<Rightarrow> statics \<Rightarrow> message \<times> statics" where
  "AcceptLastEventPackage lastEID =
     CoreMessage_desc_op ''AcceptLastEventPackage'' ACCEPT_LAST_EVENT (Accept_body lastEID)"

definition ReturnLastEventPackage :: "u32 \<Rightarrow> statics \<Rightarrow> message \<times> statics" where
  "ReturnLastEventPackage lastEID =
     CoreMessage_desc_op ''ReturnLastEventPackage'' RETURN_LAST_EVENT (Return_body lastEID)"

definition QueryLastEventPackage :: "statics \<Rightarrow> message \<times> statics" where
  "QueryLastEventPackage = CoreMessage_desc_op ''QueryLastEventPackage'' QUERY_LAST_EVENT Query_body"

definition RefusePackage :: "u32 \<Rightarrow> string \<Rightarrow> message" where
  "RefusePackage r desc =
     (CoreMessage_op REFUSE (Refuse_body r))
       \<lparr>msg_message := ''Refuse package'', msg_description := desc\<rparr>"

definition LogPackage :: "bool \<Rightarrow> statics \<Rightarrow> message \<times> statics" where
  "LogPackage ac = CoreMessage_level (Log_body [] ac)"

text \<open>The list overloads of \<open>AddLogEvent\<close> replace the events; the single ones append.\<close>

definition AddLogEvents :: "event list \<Rightarrow> message \<Rightarrow> message" where
  "AddLogEvents es m =
     (case msg_body m of Log_body _ ac \<Rightarrow> m\<lparr>msg_body := Log_body es ac\<rparr> | _ \<Rightarrow> m)"

definition AddLogEvent :: "event \<Rightarrow> message \<Rightarrow> message" where
  "AddLogEvent e m =
     (case msg_body m of Log_body es ac \<Rightarrow> m\<lparr>msg_body := Log_body (es @ [e]) ac\<rparr> | _ \<Rightarrow> m)"

definition GetEvents :: "message \<Rightarrow> event list" where
  "GetEvents m = (case msg_body m of Log_body es _ \<Rightarrow> es | _ \<Rightarrow> [])"

definition NeedAccept :: "message \<Rightarrow> bool" where
  "NeedAccept m = (case msg_body m of Log_body _ ac \<Rightarrow> ac | _ \<Rightarrow> False)"

section \<open>Sending: filling the generated message\<close>

text \<open>
  \<open>LogPackage::buildPBObj\<close> prints the first record id with \<open>%d\<close>, so as a signed number. The
  text is far shorter than the buffer of 1024 bytes.
\<close>

definition log_description :: "event list \<Rightarrow> string" where
  "log_description es =
     (case es of
        [] \<Rightarrow> ''LogPackage include ZERO Windows Event.''
      | e # _ \<Rightarrow> ''LogPackage. Windows Event RecordID from '' @ dec_int (sint (ev_rid e))
          @ ''. Total size '' @ dec_nat (length es) @ ''.'')"

definition pb_of_event :: "event \<Rightarrow> pb_logPackage" where
  "pb_of_event e = \<lparr>
     lp_scope = ev_provider e, lp_level = dispatch_level_to_pb (ev_llevel e),
     lp_rawEventMessage = ev_format e, lp_timeStamp = ev_timeStamp e,
     lp_xmlEventMessage = ev_xml e, lp_recordID = ev_rid e\<rparr>"

text \<open>The virtual \<open>buildPBObj\<close>. That of \<open>LogPackage\<close> also rewrites the object's description.\<close>

definition buildPBObj :: "message \<Rightarrow> coreMessage \<Rightarrow> message \<times> coreMessage" where
  "buildPBObj m obj =
     (case msg_body m of
        Connect_body \<Rightarrow> (m, obj)
      | Query_body \<Rightarrow> (m, obj)
      | Accept_body lEID \<Rightarrow> (m, obj\<lparr>pb_lastEvent := lEID\<rparr>)
      | Return_body lEID \<Rightarrow> (m, obj\<lparr>pb_lastEvent := lEID\<rparr>)
      | Refuse_body r \<Rightarrow> (m, obj\<lparr>pb_refuseID := r\<rparr>)
      | Log_body es ac \<Rightarrow>
          (m\<lparr>msg_description := log_description es\<rparr>,
           obj\<lparr>pb_log := pb_log obj @ map pb_of_event es, pb_logNeedAccept := ac\<rparr>))"

text \<open>
  The lines of \<open>toBytes\<close> up to \<open>buildPBObj(core)\<close>. The description is copied before
  \<open>buildPBObj\<close> runs; the operating system is never set.
\<close>

definition core_of_message :: "env \<Rightarrow> statics \<Rightarrow> message \<Rightarrow> message \<times> coreMessage" where
  "core_of_message en st m =
     buildPBObj m (new_coreMessage\<lparr>
       pb_id := msg_id m,
       pb_op := dispatch_op_to_pb (msg_op m),
       pb_timeStamp :=
         (if msg_timeStamp m = [] then getTimeStamp (target en) (clock en) (timeBias st) []
          else msg_timeStamp m),
       pb_description := msg_description m,
       pb_clientName := myClientName st,
       pb_osVersion := myOsVersion st,
       pb_machineID := myMachineID st\<rparr>)"

section \<open>Receiving: rebuilding the object\<close>

definition event_of_pb :: "pb_logPackage \<Rightarrow> event" where
  "event_of_pb l =
     Event_number (lp_xmlEventMessage l) (lp_rawEventMessage l) (lp_scope l) (lp_timeStamp l)
       (pb_level_number (lp_level l)) (lp_recordID l)"

text \<open>The loop that adds the events of a received \<open>UPDATE_LOG\<close> message one by one.\<close>

definition add_received_events :: "pb_logPackage list \<Rightarrow> message \<Rightarrow> message" where
  "add_received_events ls m = foldl (\<lambda>m l. AddLogEvent (event_of_pb l) m) m ls"

text \<open>The switch of \<open>BuildObj\<close>: a new object of the class the operation names, or none.\<close>

definition new_from_core ::
    "env \<Rightarrow> coreMessage \<Rightarrow> statics \<Rightarrow> (message option \<times> statics) outcome" where
  "new_from_core en core st =
     (case pb_op core of
        PB_UPDATE_LOG \<Rightarrow>
          (let (m, st') = LogPackage (pb_logNeedAccept core) st
           in Inr (Some (add_received_events (pb_log core) m), st'))
      | PB_QUERY_LAST_EVENT \<Rightarrow>
          (let (m, st') = QueryLastEventPackage st in Inr (Some m, st'))
      | PB_RETURN_LAST_EVENT \<Rightarrow>
          (let (m, st') = ReturnLastEventPackage (pb_lastEvent core) st in Inr (Some m, st'))
      | PB_ACCEPT_LAST_EVENT \<Rightarrow>
          (let (m, st') = AcceptLastEventPackage (pb_lastEvent core) st in Inr (Some m, st'))
      | PB_CONNECT \<Rightarrow> (let (m, st') = ConnectPackage st in Inr (Some m, st'))
      | _ \<Rightarrow> bind_out (c_assert (ndebug en) False) (\<lambda>_. Inr (None, st)))"

text \<open>The members \<open>BuildObj\<close> copies into the object it has created.\<close>

definition copy_core_fields :: "coreMessage \<Rightarrow> message \<Rightarrow> statics \<Rightarrow> message \<times> statics" where
  "copy_core_fields core m st =
     (let (i, st') = (if pb_id core = - 1 then nextID st else (pb_id core, st))
      in (m\<lparr>msg_id := i, msg_description := pb_description core,
            msg_clientName := pb_clientName core, msg_osVersion := pb_osVersion core,
            msg_timeStamp := pb_timeStamp core, msg_machineID := pb_machineID core,
            msg_osType := Some (if pb_os core = PB_windows_os then os_windows else os_linux)\<rparr>,
          st'))"

definition BuildObj :: "env \<Rightarrow> coreMessage \<Rightarrow> statics \<Rightarrow> (message option \<times> statics) outcome" where
  "BuildObj en core st =
     bind_out (new_from_core en core st) (\<lambda>(mo, st').
       case mo of
         None \<Rightarrow> Inr (None, st')
       | Some m \<Rightarrow> (let (m', st'') = copy_core_fields core m st' in Inr (Some m', st'')))"

definition parseFromArray ::
    "env \<Rightarrow> byte list \<Rightarrow> statics \<Rightarrow> (message option \<times> statics) outcome" where
  "parseFromArray en data st =
     (case pb_parse en data of Some core \<Rightarrow> BuildObj en core st | None \<Rightarrow> Inr (None, st))"

section \<open>Facts\<close>

lemmas constructor_defs =
  CoreMessage_op_def CoreMessage_desc_op_def CoreMessage_level_def ConnectPackage_def
  AcceptLastEventPackage_def ReturnLastEventPackage_def QueryLastEventPackage_def
  RefusePackage_def LogPackage_def nextID_def

lemma add_received_events_body:
  "msg_body m = Log_body es ac \<Longrightarrow>
     add_received_events ls m = m\<lparr>msg_body := Log_body (es @ map event_of_pb ls) ac\<rparr>"
proof (induction ls arbitrary: m es)
  case (Cons l ls)
  then show ?case by (simp add: add_received_events_def AddLogEvent_def)
qed (simp add: add_received_events_def)

text \<open>The event a receiver rebuilds from the event a sender put into a package.\<close>

definition received_event :: "event \<Rightarrow> event" where
  "received_event e =
     e\<lparr>ev_level := event_dispatch_level (ev_llevel e) - 1,
       ev_llevel := event_dispatch_number (event_dispatch_level (ev_llevel e) - 1)\<rparr>"

lemma event_of_pb_of_event: "event_of_pb (pb_of_event e) = received_event e"
  by (simp add: event_of_pb_def pb_of_event_def received_event_def Event_number_def
      pb_level_number_to_pb)

text \<open>Operations whose messages a receiver accepts.\<close>

definition receivable :: "operation \<Rightarrow> bool" where
  "receivable op \<longleftrightarrow>
     op \<in> {UPDATE_LOG, QUERY_LAST_EVENT, RETURN_LAST_EVENT, ACCEPT_LAST_EVENT, CONNECT}"

text \<open>A message whose operation is the one its class stands for.\<close>

fun body_op :: "body \<Rightarrow> operation" where
  "body_op Connect_body = CONNECT"
| "body_op Query_body = QUERY_LAST_EVENT"
| "body_op (Accept_body _) = ACCEPT_LAST_EVENT"
| "body_op (Return_body _) = RETURN_LAST_EVENT"
| "body_op (Refuse_body _) = REFUSE"
| "body_op (Log_body _ _) = UPDATE_LOG"

definition wf_message :: "message \<Rightarrow> bool" where
  "wf_message m \<longleftrightarrow> msg_op m = body_op (msg_body m)"

lemma constructors_wf:
  "wf_message (fst (ConnectPackage st))"
  "wf_message (fst (AcceptLastEventPackage n st))"
  "wf_message (fst (ReturnLastEventPackage n st))"
  "wf_message (fst (QueryLastEventPackage st))"
  "wf_message (RefusePackage n d)"
  "wf_message (fst (LogPackage ac st))"
  by (simp_all add: wf_message_def constructor_defs)

lemma AddLogEvents_wf: "wf_message m \<Longrightarrow> wf_message (AddLogEvents es m)"
  by (auto simp: wf_message_def AddLogEvents_def split: body.splits)

text \<open>The members a receiver gets: what the body carries, with each severity shifted.\<close>

fun received_body :: "body \<Rightarrow> body" where
  "received_body (Log_body es ac) = Log_body (map received_event es) ac"
| "received_body b = b"

lemmas transfer_defs =
  core_of_message_def buildPBObj_def new_coreMessage_def BuildObj_def new_from_core_def
  copy_core_fields_def constructor_defs

section \<open>Properties\<close>

lemma buildPBObj_pb_op [simp]: "pb_op (snd (buildPBObj m c)) = pb_op c"
  by (simp add: buildPBObj_def split: body.splits)

text \<open>What the receiver holds of a message that was sent.\<close>

definition delivered :: "statics \<Rightarrow> message \<Rightarrow> message \<Rightarrow> bool" where
  "delivered st m m' \<longleftrightarrow>
     msg_op m' = msg_op m \<and> msg_body m' = received_body (msg_body m)
     \<and> (msg_id m \<noteq> - 1 \<longrightarrow> msg_id m' = msg_id m)
     \<and> msg_description m' = msg_description m \<and> msg_clientName m' = myClientName st
     \<and> msg_osVersion m' = myOsVersion st \<and> msg_machineID m' = myMachineID st"

lemma BuildObj_sent:
  assumes "wf_message m" and "receivable (msg_op m)"
  shows "\<exists>m' st'. BuildObj en (snd (core_of_message en st m)) st2 = Inr (Some m', st')
    \<and> delivered st m m' \<and> msg_osType m' = Some os_windows"
proof (cases "msg_body m")
  case (Log_body es ac)
  with assms show ?thesis
    by (simp add: wf_message_def transfer_defs add_received_events_body event_of_pb_of_event
        delivered_def comp_def split: if_splits)
qed (use assms in \<open>simp_all add: wf_message_def receivable_def transfer_defs delivered_def\<close>)

text \<open>C20. A package whose class matches its operation, of one of the five operations a receiver
  knows, arrives as an object of the same class and operation: the event list keeps its order and
  every event its texts and record id, but not its severity, which \<open>received_event\<close> makes one less
  than the one sent (\<open>severity_shift\<close> below: no event has the severity it was sent with). The id is
  the sender's (a fresh one for the id -1), the names are those of the sending process and the
  description is the one the object had before \<open>buildPBObj\<close> ran. Whatever the sender runs on, the
  receiver is told Windows.\<close>

theorem message_transfer:
  assumes "wf_message m" and "receivable (msg_op m)"
  shows "\<exists>m' st'. BuildObj en (snd (core_of_message en st m)) st2 = Inr (Some m', st')
    \<and> msg_op m' = msg_op m \<and> msg_body m' = received_body (msg_body m)
    \<and> (msg_id m \<noteq> - 1 \<longrightarrow> msg_id m' = msg_id m)
    \<and> msg_description m' = msg_description m \<and> msg_clientName m' = myClientName st
    \<and> msg_osVersion m' = myOsVersion st \<and> msg_machineID m' = myMachineID st
    \<and> msg_osType m' = Some os_windows"
  using BuildObj_sent [OF assms, of en st st2] unfolding delivered_def by simp

text \<open>The level of an event is one lower after the transfer than before, because the receiver
  takes the number of the wire enumeration, which starts at 0, for the number of an event log
  level, which starts at 1: no severity arrives as it was sent, and the most severe one arrives as
  the least severe.\<close>

theorem severity_shift:
  "map (\<lambda>l. ev_llevel (received_event (Event_level x f p t l r)))
       [fatal, error, warning, info, verbose] = [verbose, fatal, error, warning, info]
   \<and> ev_llevel (received_event e) \<noteq> ev_llevel e
   \<and> ev_level (received_event (Event_level x f p t l r)) =
       ev_level (Event_level x f p t l r) - 1"
proof -
  have "ev_llevel (received_event e) \<noteq> ev_llevel e"
    by (cases "ev_llevel e") (simp_all add: received_event_def event_dispatch_number_def)
  then show ?thesis
    by (simp add: received_event_def Event_level_def event_dispatch_number_def)
qed

lemma BuildObj_refuse:
  "BuildObj en (snd (core_of_message en st (RefusePackage r desc))) st2 =
     bind_out (c_assert (ndebug en) False) (\<lambda>_. Inr (None, st2))"
  by (simp add: transfer_defs bind_out_assoc)

text \<open>A refusal can never be received: its operation is written as a sentinel, at which
  \<open>BuildObj\<close> aborts, or returns no object when assertions are compiled out.\<close>

theorem refusal_not_receivable:
  "BuildObj en (snd (core_of_message en st (RefusePackage r desc))) st2 =
     (if ndebug en then Inr (None, st2) else Inl Assert_failed)"
  by (simp add: BuildObj_refuse c_assert_def)

text \<open>The summary a log package computes of its events is not part of what is sent the first
  time: a fresh log package travels with an empty description, and only the object left behind at
  the sender carries the summary.\<close>

theorem log_description_lags:
  "pb_description (snd (core_of_message en st (AddLogEvents es (fst (LogPackage ac st0))))) = []
   \<and> msg_description (fst (core_of_message en st (AddLogEvents es (fst (LogPackage ac st0))))) =
       log_description es
   \<and> pb_description (snd (core_of_message en st
       (fst (core_of_message en st (AddLogEvents es (fst (LogPackage ac st0))))))) = log_description es"
  by (simp add: transfer_defs AddLogEvents_def)

end
