(* ===== verification/Packet_Codec.thy ===== *)
theory Packet_Codec
  imports Messages
begin

text \<open>
  Packets on the wire: the second half of \<open>CoreMessage::toBytes\<close>, the digest and compression
  wrappers of \<open>utils.cpp\<close>, and the class \<open>ProtobufPacketDecoder\<close> of \<open>protobufLib.h\<close> and
  \<open>protobufLib.cpp\<close>. A packet is a header of forty bytes (size of the serialised message, size
  of the body, digest of the serialised message) and a body, compressed when that is shorter.
\<close>

section \<open>Wrappers of the libraries\<close>

definition PACKAGE_HEADER_SIZE :: nat where
  "PACKAGE_HEADER_SIZE = 4 + 4 + 32"

lemma PACKAGE_HEADER_SIZE_eq [simp]: "PACKAGE_HEADER_SIZE = 40"
  by (simp add: PACKAGE_HEADER_SIZE_def)

definition SHA256 :: "env \<Rightarrow> byte list \<Rightarrow> byte list" where
  "SHA256 en data = sha256 en data"

definition CompressSizeBound :: "env \<Rightarrow> nat \<Rightarrow> nat" where
  "CompressSizeBound en s = zlib_bound en s"

definition Compress :: "env \<Rightarrow> byte list \<Rightarrow> bool \<times> byte list" where
  "Compress en inp = zlib_compress en (zlib_bound en (length inp)) inp"

definition DeCompress :: "env \<Rightarrow> nat \<Rightarrow> byte list \<Rightarrow> bool \<times> byte list" where
  "DeCompress en outSize inp = zlib_uncompress en outSize inp"

section \<open>Encoding\<close>

text \<open>
  The two branches that fill \<open>pkgBuffer\<close>. The sizes are \<open>size_t\<close> and are cut to 32 bits by
  \<open>htonl\<close>; 32 bytes of the digest are copied.
\<close>

definition frame_packet :: "byte list \<Rightarrow> byte list \<Rightarrow> byte list \<Rightarrow> byte list" where
  "frame_packet serial dgst packed =
     (if length packed < length serial
      then store_be32 (of_nat (length serial)) @ store_be32 (of_nat (length packed))
           @ take 32 dgst @ packed
      else store_be32 (of_nat (length serial)) @ store_be32 (of_nat (length serial))
           @ take 32 dgst @ serial)"

text \<open>\<open>CoreMessage::toBytes\<close>: its result, the bytes it hands out, and the object afterwards.\<close>

definition toBytes :: "env \<Rightarrow> statics \<Rightarrow> message \<Rightarrow> (bool \<times> byte list \<times> message) outcome" where
  "toBytes en st m =
     (let (m', core) = core_of_message en st m;
          (serialStatus, serial) = pb_serialize en core;
          dgst = SHA256 en serial;
          (compressStatus, packed) = Compress en serial
      in bind_out (c_assert (ndebug en) compressStatus) (\<lambda>_.
           Inr (serialStatus, frame_packet serial dgst packed, m')))"

section \<open>Decoder state\<close>

text \<open>
  The members of \<open>ProtobufPacketDecoder\<close>. \<open>None\<close> in the queue is a null pointer that was
  pushed. The mutex serialises the public operations, each of which is one step here.
\<close>

record decoder =
  compressSize :: u32
  remainSize :: u32
  serialSize :: u32
  headerSize :: u32
  vec :: "message option list"
  header_buffer :: "byte list"
  inbuf :: sstream

definition new_decoder :: decoder where
  "new_decoder = \<lparr>
     compressSize = 0, remainSize = 0, serialSize = 0, headerSize = 0, vec = [],
     header_buffer = replicate 40 0, inbuf = ss_empty\<rparr>"

definition GetSize :: "decoder \<Rightarrow> nat" where
  "GetSize d = length (vec d)"

text \<open>\<open>_vec.push_back\<close>, and the front and removal that \<open>GetProtobufMessage\<close> combines.\<close>

definition vec_push :: "message option \<Rightarrow> decoder \<Rightarrow> decoder" where
  "vec_push m d = d\<lparr>vec := vec d @ [m]\<rparr>"

definition vec_front :: "decoder \<Rightarrow> message option" where
  "vec_front d = hd (vec d)"

definition vec_pop :: "decoder \<Rightarrow> decoder" where
  "vec_pop d = d\<lparr>vec := tl (vec d)\<rparr>"

definition GetProtobufMessage :: "decoder \<Rightarrow> message option \<times> decoder" where
  "GetProtobufMessage d = (if vec d \<noteq> [] then (vec_front d, vec_pop d) else (None, d))"

text \<open>
  \<open>Reset\<close> empties the queue and clears the sizes. On the stream it calls \<open>clear()\<close>, which
  restores the state flags and keeps the bytes.
\<close>

definition Reset :: "decoder \<Rightarrow> decoder" where
  "Reset d = d\<lparr>vec := [], inbuf := ss_clear (inbuf d), compressSize := 0, remainSize := 0,
     headerSize := 0\<rparr>"

section \<open>Decoding\<close>

text \<open>
  The loop at the start of \<open>parseHeader\<close>: bytes go into the header buffer until it is full or
  the data ends. Returns the decoder and the data not consumed.
\<close>

fun fill_header :: "decoder \<Rightarrow> byte list \<Rightarrow> decoder \<times> byte list" where
  "fill_header d [] = (d, [])"
| "fill_header d (x # xs) =
     (if 0 < PACKAGE_HEADER_SIZE - unat (headerSize d)
      then fill_header
             (d\<lparr>header_buffer := (header_buffer d)[unat (headerSize d) := x],
                headerSize := headerSize d + 1\<rparr>) xs
      else (d, x # xs))"

text \<open>
  What \<open>_read\<close> does with a complete body: check the digest against the header and parse the
  message, directly when both sizes agree and after decompression otherwise. The status of
  \<open>DeCompress\<close> is not looked at.
\<close>

definition open_body ::
    "env \<Rightarrow> statics \<Rightarrow> u32 \<Rightarrow> u32 \<Rightarrow> byte list \<Rightarrow> byte list \<Rightarrow> (message option \<times> statics) outcome"
where
  "open_body en st serSize compSize hdr body =
     (if serSize = compSize
      then bind_out (c_assert (ndebug en) (take 32 (drop 8 hdr) = take 32 (SHA256 en body)))
             (\<lambda>_. parseFromArray en body st)
      else (let (_, out) = DeCompress en (unat serSize) body
            in bind_out (c_assert (ndebug en) (take 32 (drop 8 hdr) = take 32 (SHA256 en out)))
                 (\<lambda>_. parseFromArray en out st)))"

text \<open>
  The branch of \<open>_read\<close> taken when the data completes the body, up to the point where the sizes
  are cleared. A read of the buffered part that comes up short fails its assertion, and leaves
  uninitialised bytes in the body when assertions are compiled out.
\<close>

definition complete_body ::
    "env \<Rightarrow> statics \<Rightarrow> decoder \<Rightarrow> byte list \<Rightarrow> (message option \<times> statics \<times> decoder) outcome"
where
  "complete_body en st d data =
     (let need = unat (compressSize d - remainSize d);
          (stored, ss) = ss_read need (inbuf d)
      in bind_out (c_assert (ndebug en) (length stored = need)) (\<lambda>_.
         if length stored \<noteq> need then Inl (Undefined Uninit_read) else
         bind_out (open_body en st (serialSize d) (compressSize d) (header_buffer d)
                    (stored @ take (unat (remainSize d)) data)) (\<lambda>(ret, st').
         bind_out (c_assert (ndebug en) (ret \<noteq> None)) (\<lambda>_.
         Inr (ret, st', (vec_push ret (d\<lparr>inbuf := ss\<rparr>))
                          \<lparr>compressSize := 0, headerSize := 0\<rparr>)))))"

text \<open>
  \<open>_read\<close> and \<open>parseHeader\<close> call each other. The first argument is the depth of calls left;
  at zero the stack is exhausted. \<open>_read\<close> returns its local \<open>ret\<close>: the message its own
  frame completed, never one found by the nested calls.
\<close>

fun read_impl ::
    "nat \<Rightarrow> env \<Rightarrow> statics \<Rightarrow> decoder \<Rightarrow> byte list \<Rightarrow> (message option \<times> statics \<times> decoder) outcome"
and parseHeader ::
    "nat \<Rightarrow> env \<Rightarrow> statics \<Rightarrow> decoder \<Rightarrow> byte list \<Rightarrow> (statics \<times> decoder) outcome"
where
  "read_impl 0 en st d data = Inl Stack_overflow"
| "read_impl (Suc n) en st d data =
     bind_out
       (if compressSize d \<noteq> 0 then
          if unat (remainSize d) \<le> length data then
            bind_out (complete_body en st d data) (\<lambda>(ret, st', d').
            bind_out (parseHeader n en st'
                        (d'\<lparr>headerSize := 0, remainSize := 0, compressSize := 0\<rparr>)
                        (drop (unat (remainSize d)) data)) (\<lambda>(st'', d'').
            Inr (ret, st'', d'')))
          else
            (let d' = d\<lparr>inbuf := ss_write data (inbuf d),
                        remainSize := remainSize d - of_nat (length data)\<rparr>
             in bind_out (c_assert (ndebug en) (remainSize d' \<le> compressSize d')) (\<lambda>_.
                Inr (None, st, d')))
        else bind_out (parseHeader n en st d data) (\<lambda>(st', d'). Inr (None, st', d')))
       (\<lambda>(ret, st', d').
          bind_out (c_assert (ndebug en) (ss_good (inbuf d'))) (\<lambda>_. Inr (ret, st', d')))"
| "parseHeader 0 en st d data = Inl Stack_overflow"
| "parseHeader (Suc n) en st d data =
     (let (d', rest) = (if unat (headerSize d) < PACKAGE_HEADER_SIZE then fill_header d data
                        else (d, data))
      in if unat (headerSize d) < PACKAGE_HEADER_SIZE \<and> rest = [] then Inr (st, d')
         else if unat (headerSize d') = PACKAGE_HEADER_SIZE then
           if compressSize d' = 0 then
             (let size = load_be32 (drop 4 (header_buffer d'))
              in bind_out (read_impl n en st
                     (d'\<lparr>compressSize := size, remainSize := size,
                         serialSize := load_be32 (header_buffer d')\<rparr>) rest)
                   (\<lambda>(_, st', d''). Inr (st', d'')))
           else bind_out (c_assert (ndebug en) False) (\<lambda>_. Inr (st, d'))
         else Inr (st, d'))"

text \<open>
  The public \<open>read\<close>. Twice the number of bytes plus three is a depth at which every run that
  ends at any depth has ended (shown with the refinement).
\<close>

definition decoder_read ::
    "env \<Rightarrow> statics \<Rightarrow> decoder \<Rightarrow> byte list \<Rightarrow> (message option \<times> statics \<times> decoder) outcome"
where
  "decoder_read en st d data = read_impl (2 * length data + 3) en st d data"

section \<open>The queue of decoded messages\<close>

interpretation msgs: fifo vec_push vec_front vec_pop vec
  by unfold_locales (simp_all add: vec_push_def vec_front_def vec_pop_def)

lemma GetProtobufMessage_simps:
  "vec d = [] \<Longrightarrow> GetProtobufMessage d = (None, d)"
  "vec d = m # ms \<Longrightarrow> GetProtobufMessage d = (m, d\<lparr>vec := ms\<rparr>)"
  by (simp_all add: GetProtobufMessage_def vec_front_def vec_pop_def)

end
