(* ===== verification/Containers.thy ===== *)
theory Containers
  imports Prelude "HOL-Library.AList"
begin

text \<open>
  The associative containers of the standard library as the code uses them (\<open>std::map\<close> and
  \<open>std::unordered_map\<close>): an interface with its laws, and association lists with distinct keys
  as the model, which keeps every operation executable.
\<close>

section \<open>The interface\<close>

locale dictionary =
  fixes vacant :: 'm
    and find :: "'k \<Rightarrow> 'm \<Rightarrow> 'v option"
    and assign :: "'k \<Rightarrow> 'v \<Rightarrow> 'm \<Rightarrow> 'm"
    and erase :: "'k \<Rightarrow> 'm \<Rightarrow> 'm"
    and count :: "'m \<Rightarrow> nat"
    and inv :: "'m \<Rightarrow> bool"
  assumes find_vacant: "find k vacant = None"
    and count_vacant: "count vacant = 0"
    and inv_vacant: "inv vacant"
    and inv_assign: "inv m \<Longrightarrow> inv (assign k v m)"
    and inv_erase: "inv m \<Longrightarrow> inv (erase k m)"
    and find_assign: "find k' (assign k v m) = (if k' = k then Some v else find k' m)"
    and find_erase: "inv m \<Longrightarrow> find k' (erase k m) = (if k' = k then None else find k' m)"
    and count_assign: "inv m \<Longrightarrow>
      count (assign k v m) = (if find k m = None then Suc (count m) else count m)"
    and count_erase: "inv m \<Longrightarrow>
      count (erase k m) = (if find k m = None then count m else count m - 1)"
begin

lemma inv_assign_all: "inv m \<Longrightarrow> inv (fold (\<lambda>kv. assign (fst kv) (snd kv)) kvs m)"
  by (induction kvs arbitrary: m) (auto simp: inv_assign)

lemma find_assign_all:
  "find k (fold (\<lambda>kv. assign (fst kv) (snd kv)) kvs m) = (case map_of (rev kvs) k of Some v \<Rightarrow> Some v | None \<Rightarrow> find k m)"
  by (induction kvs arbitrary: m)
    (simp_all add: find_assign map_of_append map_add_def split: option.split)

text \<open>Assigning never makes a key disappear and the count grows by at most one per key.\<close>

lemma count_assign_all:
  assumes "inv m" and "distinct (map fst kvs)" and "\<And>k. k \<in> fst ` set kvs \<Longrightarrow> find k m = None"
  shows "count (fold (\<lambda>kv. assign (fst kv) (snd kv)) kvs m) = count m + length kvs"
  using assms
proof (induction kvs arbitrary: m)
  case (Cons kv kvs)
  let ?m = "assign (fst kv) (snd kv) m"
  have "inv ?m" "distinct (map fst kvs)" "\<And>k. k \<in> fst ` set kvs \<Longrightarrow> find k ?m = None"
    using Cons.prems by (auto simp: inv_assign find_assign rev_image_eqI)
  from Cons.IH [OF this] have
    "count (fold (\<lambda>kv. assign (fst kv) (snd kv)) kvs ?m) = count ?m + length kvs" .
  moreover have "count ?m = Suc (count m)"
    using Cons.prems by (simp add: count_assign)
  ultimately show ?case by simp
qed simp

lemma count_assign_all_ge: "inv m \<Longrightarrow> count m \<le> count (fold (\<lambda>kv. assign (fst kv) (snd kv)) kvs m)"
proof (induction kvs arbitrary: m)
  case (Cons kv kvs)
  have "count m \<le> count (assign (fst kv) (snd kv) m)"
    using Cons.prems by (simp add: count_assign)
  also have "\<dots> \<le> count (fold (\<lambda>kv. assign (fst kv) (snd kv)) kvs (assign (fst kv) (snd kv) m))"
    using Cons by (simp add: inv_assign)
  finally show ?case by simp
qed simp

end

text \<open>\<open>emplace\<close> adds an element only under a new key.\<close>

locale emplacing = dictionary vacant find assign erase count inv
  for vacant :: 'm
    and find :: "'k \<Rightarrow> 'm \<Rightarrow> 'v option"
    and assign :: "'k \<Rightarrow> 'v \<Rightarrow> 'm \<Rightarrow> 'm"
    and erase :: "'k \<Rightarrow> 'm \<Rightarrow> 'm"
    and count :: "'m \<Rightarrow> nat"
    and inv :: "'m \<Rightarrow> bool" +
  fixes emplace :: "'k \<Rightarrow> 'v \<Rightarrow> 'm \<Rightarrow> 'm"
  assumes inv_emplace: "inv m \<Longrightarrow> inv (emplace k v m)"
    and find_emplace:
      "find k' (emplace k v m) = (if k' = k \<and> find k m = None then Some v else find k' m)"
begin

lemma emplace_erase_fresh:
  "inv m \<Longrightarrow> find k m = None \<Longrightarrow> find k' (erase k (emplace k v m)) = find k' m"
  by (simp add: find_erase find_emplace inv_emplace)

end

section \<open>The model\<close>

definition map_find :: "'k \<Rightarrow> ('k \<times> 'v) list \<Rightarrow> 'v option" where
  "map_find k m = map_of m k"

text \<open>\<open>m[k] = v\<close>\<close>

definition map_assign :: "'k \<Rightarrow> 'v \<Rightarrow> ('k \<times> 'v) list \<Rightarrow> ('k \<times> 'v) list" where
  "map_assign k v m = AList.update k v m"

definition map_erase :: "'k \<Rightarrow> ('k \<times> 'v) list \<Rightarrow> ('k \<times> 'v) list" where
  "map_erase k m = AList.delete k m"

definition map_emplace :: "'k \<Rightarrow> 'v \<Rightarrow> ('k \<times> 'v) list \<Rightarrow> ('k \<times> 'v) list" where
  "map_emplace k v m = (if map_find k m = None then AList.update k v m else m)"

definition map_keys_distinct :: "('k \<times> 'v) list \<Rightarrow> bool" where
  "map_keys_distinct m \<longleftrightarrow> distinct (map fst m)"

lemma length_update:
  "distinct (map fst m) \<Longrightarrow>
     length (AList.update k v m) = (if map_of m k = None then Suc (length m) else length m)"
  by (induction m) auto

lemma length_delete:
  "distinct (map fst m) \<Longrightarrow>
     length (AList.delete k m) = (if map_of m k = None then length m else length m - 1)"
proof (induction m)
  case (Cons kv m)
  show ?case
  proof (cases "fst kv = k")
    case True
    with Cons.prems have "AList.delete k m = m"
      by (auto simp: AList.delete_eq filter_id_conv rev_image_eqI)
    with True show ?thesis by simp
  next
    case False
    moreover have "map_of m k \<noteq> None \<Longrightarrow> 0 < length m" by (cases m) auto
    ultimately show ?thesis using Cons by auto
  qed
qed simp

interpretation clients: dictionary "[]" map_find map_assign map_erase length map_keys_distinct
  by unfold_locales
    (auto simp: map_find_def map_assign_def map_erase_def map_keys_distinct_def update_conv'
      delete_conv' length_update length_delete distinct_update distinct_delete)

interpretation sockets:
  emplacing "[]" map_find map_assign map_erase length map_keys_distinct map_emplace
  by unfold_locales
    (auto simp: map_find_def map_emplace_def map_keys_distinct_def update_conv' distinct_update)

end
