(* ===== verification/Database_Layer.thy ===== *)
theory Database_Layer
  imports Messages Containers
begin

text \<open>
  The class \<open>Database\<close> of \<open>ClientServiceServer/clientServer.h\<close> and \<open>database.cpp\<close>: the
  connection and its retries, the cache of known machines, and the statements that register a
  machine, insert a batch of events and look up the last record id. The PostgreSQL client
  library is a parameter that executes statement texts.
\<close>

section \<open>Data\<close>

text \<open>
  \<open>DbClient\<close>. \<open>dc_clientOs = None\<close> is an operating system copied from a message that never had
  one.
\<close>

record dbclient =
  dc_clientID :: int
  dc_clientName :: string
  dc_clientOs :: "osType option"
  dc_clientOsVersion :: string
  dc_clientUniqueID :: string
  dc_clientRegisterTime :: string

text \<open>
  The client library: running a text, running the text of a prepared statement with parameters,
  committing, defining a prepared statement, quoting, reading a server variable, and converting a
  field to an \<open>int\<close> and to a \<open>long\<close>. \<open>'db\<close> is the state of the database as the transaction sees
  it. A field that is null reads as the empty text. Versions of the library that send a prepared
  statement only when it is first used do not fail when it is defined.
\<close>

type_synonym row = "string list"

record 'db pqxx =
  px_exec :: "string \<Rightarrow> 'db \<Rightarrow> exn + (row list \<times> 'db)"
  px_exec_params :: "string \<Rightarrow> string list \<Rightarrow> 'db \<Rightarrow> exn + (row list \<times> 'db)"
  px_commit :: "'db \<Rightarrow> exn option"
  px_prepare :: "string \<Rightarrow> string \<Rightarrow> 'db \<Rightarrow> exn option"
  px_quote :: "string \<Rightarrow> string"
  px_get_variable :: "string \<Rightarrow> 'db \<Rightarrow> exn + string"
  px_as_int :: "string \<Rightarrow> int option"
  px_as_long :: "string \<Rightarrow> int option"

text \<open>
  The pointer \<open>conn\<close>: null, to a connection (open or not), to an open one on which another thread
  has a transaction, or to one that was deleted.
\<close>

datatype connection = Conn_null | Conn_live bool | Conn_busy | Conn_deleted

record 'db database =
  db_conn :: connection
  db_connectionString :: string
  db_prepared :: "(string \<times> string) list"
  db_clients :: "(string \<times> dbclient) list"
  db_data :: 'db

section \<open>The connection and its transactions\<close>

definition deref_conn :: "'db database \<Rightarrow> bool outcome" where
  "deref_conn s =
     (case db_conn s of
        Conn_null \<Rightarrow> Inl (Undefined Null_deref)
      | Conn_deleted \<Rightarrow> Inl (Undefined Use_after_free)
      | Conn_live is_open \<Rightarrow> Inr is_open
      | Conn_busy \<Rightarrow> Inr True)"

text \<open>\<open>delete conn\<close>: nothing happens to a null pointer.\<close>

fun delete_conn :: "connection \<Rightarrow> connection outcome" where
  "delete_conn Conn_null = Inr Conn_null"
| "delete_conn (Conn_live _) = Inr Conn_deleted"
| "delete_conn Conn_busy = Inr Conn_deleted"
| "delete_conn Conn_deleted = Inl (Undefined Double_free)"

text \<open>
  \<open>pqxx::work w(*conn)\<close> starts a transaction on an open connection; its state is a copy of the
  data, which \<open>commit\<close> makes the data and anything else drops. A connection has at most one
  transaction at a time; a second one throws \<open>usage_error\<close>. Here the transactions of one thread
  do not overlap; those of several threads are the subject of theory Server_Threads.
\<close>

definition begin_work :: "'db database \<Rightarrow> 'db outcome" where
  "begin_work s =
     bind_out (deref_conn s) (\<lambda>is_open.
       if db_conn s = Conn_busy then Inl (Uncaught Usage_error)
       else if is_open then Inr (db_data s) else Inl (Uncaught Broken_connection))"

definition commit_work :: "'db pqxx \<Rightarrow> 'db database \<Rightarrow> 'db \<Rightarrow> 'db database outcome" where
  "commit_work px s tx =
     (case px_commit px tx of Some e \<Rightarrow> Inl (Uncaught e) | None \<Rightarrow> Inr (s\<lparr>db_data := tx\<rparr>))"

definition raise_exn :: "exn + 'a \<Rightarrow> 'a outcome" where
  "raise_exn r = (case r of Inl e \<Rightarrow> Inl (Uncaught e) | Inr x \<Rightarrow> Inr x)"

definition exec_sql :: "'db pqxx \<Rightarrow> string \<Rightarrow> 'db \<Rightarrow> (row list \<times> 'db) outcome" where
  "exec_sql px sql tx = raise_exn (px_exec px sql tx)"

definition exec_prepared ::
    "'db pqxx \<Rightarrow> 'db database \<Rightarrow> string \<Rightarrow> string list \<Rightarrow> 'db \<Rightarrow> (row list \<times> 'db) outcome" where
  "exec_prepared px s name ps tx =
     (case map_find name (db_prepared s) of
        None \<Rightarrow> Inl (Uncaught Sql_error)
      | Some sql \<Rightarrow> raise_exn (px_exec_params px sql ps tx))"

text \<open>\<open>r[i][j]\<close>, as text and converted.\<close>

definition field :: "row list \<Rightarrow> nat \<Rightarrow> nat \<Rightarrow> string outcome" where
  "field r i j =
     (if i < length r \<and> j < length (r ! i) then Inr (r ! i ! j)
      else Inl (Undefined Out_of_bounds))"

definition field_int :: "'db pqxx \<Rightarrow> row list \<Rightarrow> nat \<Rightarrow> nat \<Rightarrow> int outcome" where
  "field_int px r i j =
     bind_out (field r i j) (\<lambda>t.
       case px_as_int px t of Some n \<Rightarrow> Inr n | None \<Rightarrow> Inl (Uncaught Conversion_error))"

text \<open>The id of a machine is read as a \<open>long\<close> and kept in an \<open>int\<close>.\<close>

definition int_of_long :: "int \<Rightarrow> int" where
  "int_of_long n = sint (word_of_int n :: 32 word)"

definition field_clientID :: "'db pqxx \<Rightarrow> row list \<Rightarrow> nat \<Rightarrow> nat \<Rightarrow> int outcome" where
  "field_clientID px r i j =
     bind_out (field r i j) (\<lambda>t.
       case px_as_long px t of
         Some n \<Rightarrow> Inr (int_of_long n) | None \<Rightarrow> Inl (Uncaught Conversion_error))"

text \<open>\<open>result::clear()\<close> leaves an empty result.\<close>

definition result_clear :: "row list \<Rightarrow> row list" where
  "result_clear r = []"

section \<open>Machines\<close>

definition dispatch_os_text :: "string \<Rightarrow> osType" where
  "dispatch_os_text os =
     (if os = ''Linux'' then os_linux else if os = ''Windows'' then os_windows else os_other)"

definition update_version_sql :: "string \<Rightarrow> int \<Rightarrow> string" where
  "update_version_sql quoted cid =
     ''UPDATE \"Client\" SET \"ClientLastConnect\" = NOW(), \"ClientOSVersion\" = ''
     @ [CHR 0x27] @ quoted @ [CHR 0x27] @ '' WHERE \"CliendID\" = '' @ dec_int cid"

definition update_last_connect_sql :: "int \<Rightarrow> string" where
  "update_last_connect_sql cid =
     ''UPDATE \"Client\" SET \"ClientLastConnect\" = NOW() WHERE \"ClientID\" = '' @ dec_int cid"

text \<open>
  \<open>GetClient\<close>. The id of the new \<open>DbClient\<close> is not initialised: \<open>raw\<close> is what its memory holds.
  Both statements for a known machine name that id, and the cached entry is returned as it is. A
  machine that is not in the cache is inserted and not entered into the cache.
\<close>

definition GetClient ::
    "'db pqxx \<Rightarrow> bool \<Rightarrow> int \<Rightarrow> message \<Rightarrow> 'db database \<Rightarrow> (dbclient \<times> 'db database) outcome" where
  "GetClient px ndbg raw msg s =
     (let dc = \<lparr>dc_clientID = raw, dc_clientName = msg_clientName msg, dc_clientOs = msg_osType msg,
                dc_clientOsVersion = msg_osVersion msg, dc_clientUniqueID = msg_machineID msg,
                dc_clientRegisterTime = []\<rparr>
      in case map_find (dc_clientUniqueID dc) (db_clients s) of
           Some saved \<Rightarrow>
             bind_out (begin_work s) (\<lambda>tx.
             bind_out
               (exec_sql px
                  (if dc_clientOsVersion dc \<noteq> dc_clientOsVersion saved
                   then update_version_sql (px_quote px (dc_clientOsVersion dc)) (dc_clientID dc)
                   else update_last_connect_sql (dc_clientID dc)) tx) (\<lambda>(r, tx').
             bind_out (commit_work px s tx') (\<lambda>s'. Inr (saved, s'))))
         | None \<Rightarrow>
             bind_out (begin_work s) (\<lambda>tx.
             bind_out
               (exec_prepared px s ''insertClient''
                  [dc_clientName dc,
                   if dc_clientOs dc = Some os_linux then ''Linux'' else ''Windows'',
                   dc_clientOsVersion dc, dc_clientUniqueID dc] tx) (\<lambda>(r, tx').
             bind_out (commit_work px s tx') (\<lambda>s'.
             if length r = 1
             then bind_out (field_clientID px r 0 0) (\<lambda>cid. Inr (dc\<lparr>dc_clientID := cid\<rparr>, s'))
             else bind_out (c_assert ndbg False) (\<lambda>_. Inr (dc, s'))))))"

text \<open>The loop over the rows of \<open>GetAllClients\<close>.\<close>

definition client_of_row :: "'db pqxx \<Rightarrow> row \<Rightarrow> dbclient outcome" where
  "client_of_row px c =
     bind_out (field_clientID px [c] 0 0) (\<lambda>cid.
     bind_out (field [c] 0 1) (\<lambda>name.
     bind_out (field [c] 0 2) (\<lambda>os.
     bind_out (field [c] 0 3) (\<lambda>ver.
     bind_out (field [c] 0 4) (\<lambda>uid.
     bind_out (field [c] 0 5) (\<lambda>reg.
       Inr \<lparr>dc_clientID = cid, dc_clientName = c_str name, dc_clientOs = Some (dispatch_os_text os),
            dc_clientOsVersion = c_str ver, dc_clientUniqueID = c_str uid,
            dc_clientRegisterTime = c_str reg\<rparr>))))))"

definition cache_row ::
    "'db pqxx \<Rightarrow> (string \<times> dbclient) list \<Rightarrow> row \<Rightarrow> (string \<times> dbclient) list outcome" where
  "cache_row px cs c =
     bind_out (client_of_row px c) (\<lambda>dbC. Inr (map_assign (dc_clientUniqueID dbC) dbC cs))"

definition GetAllClients :: "'db pqxx \<Rightarrow> bool \<Rightarrow> 'db database \<Rightarrow> 'db database outcome" where
  "GetAllClients px ndbg s =
     bind_out (begin_work s) (\<lambda>tx.
     bind_out (exec_sql px ''SELECT * from \"Client\"'' tx) (\<lambda>(rows, tx').
     bind_out (commit_work px s tx') (\<lambda>s'.
     bind_out (fold_out (cache_row px) (db_clients s') rows) (\<lambda>cs.
     bind_out (c_assert ndbg (length cs = length rows)) (\<lambda>_.
       Inr (s'\<lparr>db_clients := cs\<rparr>))))))"

section \<open>Events\<close>

text \<open>The severity arrives as an \<open>int\<close> made from an unsigned 32-bit number.\<close>

definition dispatchEventSeverity :: "int \<Rightarrow> string" where
  "dispatchEventSeverity s0 =
     (let s = (if s0 > 5 \<or> s0 \<le> 0 then 0 else s0)
      in [''others'', ''fatal'', ''error'', ''warning'', ''info'', ''verbose''] ! nat s)"

text \<open>
  The loop of \<open>InsertWindowsEvents\<close>: the number counted so far, and how the loop ended. The
  number of rows is read from the result after it has been cleared.
\<close>

fun insert_loop ::
    "'db pqxx \<Rightarrow> 'db database \<Rightarrow> int \<Rightarrow> event list \<Rightarrow> 'db \<Rightarrow> int \<Rightarrow> int \<times> 'db outcome" where
  "insert_loop px s cid [] tx inserted = (inserted, Inr tx)"
| "insert_loop px s cid (evt # evts) tx inserted =
     (case exec_prepared px s ''insertEvent''
             [dec_int cid, dispatchEventSeverity (sint (ev_level evt)), ev_timeStamp evt,
              ev_provider evt, ev_format evt, dec_nat (unat (ev_rid evt))] tx of
        Inl f \<Rightarrow> (inserted, Inl f)
      | Inr (rows, tx1) \<Rightarrow>
          (let insE = result_clear rows
           in if length insE = 1 then
                (case bind_out (field_int px insE 0 0) (\<lambda>eid.
                        exec_prepared px s ''insertEventXML'' [dec_int eid, ev_xml evt] tx1) of
                   Inl f \<Rightarrow> (inserted, Inl f)
                 | Inr (r, tx2) \<Rightarrow> insert_loop px s cid evts tx2 (inserted + 1))
              else insert_loop px s cid evts tx1 inserted))"

text \<open>
  \<open>InsertWindowsEvents\<close>: a \<open>sql_error\<close> of the loop or of the commit is caught and aborts the
  transaction; the count is returned either way.
\<close>

definition DB_InsertWindowsEvents ::
    "'db pqxx \<Rightarrow> dbclient \<Rightarrow> event list \<Rightarrow> 'db database \<Rightarrow> (int \<times> 'db database) outcome" where
  "DB_InsertWindowsEvents px c evts s =
     bind_out (begin_work s) (\<lambda>tx0.
       let (inserted, r) = insert_loop px s (dc_clientID c) evts tx0 0
       in case bind_out r (commit_work px s) of
            Inr s' \<Rightarrow> Inr (inserted, s')
          | Inl f \<Rightarrow> (if f = Uncaught Sql_error then Inr (inserted, s) else Inl f))"

definition last_event_sql :: "int \<Rightarrow> string" where
  "last_event_sql cid =
     ''select \"EventRecordID\" from \"WindowsEvents\" WHERE \"ClientID\" = '' @ dec_int cid"

definition GetLastEventRecordID :: "'db pqxx \<Rightarrow> dbclient \<Rightarrow> 'db database \<Rightarrow> int outcome" where
  "GetLastEventRecordID px dbc s =
     bind_out (begin_work s) (\<lambda>tx.
     bind_out (exec_sql px (last_event_sql (dc_clientID dbc)) tx) (\<lambda>(r, _).
       if length r = 0 then Inr 0
       else fold_out (\<lambda>ret c. bind_out (field_int px [c] 0 0) (\<lambda>t.
              Inr (if t > ret then t else ret))) 0 r))"

section \<open>Connecting\<close>

text \<open>What \<open>new pqxx::connection(...)\<close> does: it throws, or gives a connection, open or not.\<close>

datatype attempt = Throws | Opens bool

text \<open>
  The loop of \<open>Connect\<close> from round \<open>time\<close> on, with the seconds slept so far. When the
  constructor throws, the pointer still has its old value and that is what is deleted.
\<close>

function connect_loop ::
    "(nat \<Rightarrow> attempt) \<Rightarrow> nat \<Rightarrow> nat \<Rightarrow> connection \<Rightarrow> (connection \<times> nat) outcome" where
  "connect_loop attempt time slept conn =
     (if time < 5 then
        (case attempt time of
           Opens True \<Rightarrow> Inr (Conn_live True, slept)
         | Opens False \<Rightarrow> connect_loop attempt (time + 1) slept (Conn_live False)
         | Throws \<Rightarrow>
             bind_out (delete_conn conn) (\<lambda>conn'.
               connect_loop attempt (time + 1) (slept + 2 ^ time) conn'))
      else Inr (conn, slept))"
  by pat_completeness auto
termination
  by (relation "measure (\<lambda>(_, time, _, _). 5 - time)") auto

declare connect_loop.simps [simp del]

definition insertClient_sql :: string where
  "insertClient_sql =
     ''INSERT INTO public.\"Client\"(\"ClientName\", \"ClientOS\", \"ClientOSVersion\", \"ClientUniqueID\",''
     @ ''\"ClientRegisterTime\", \"ClientLastConnect\") VALUES ($1, $2, $3, $4,  NOW(), NOW()) RETURNING *''"

definition insertEvent_sql :: string where
  "insertEvent_sql =
     ''INSERT INTO public.\"WindowsEvents\"(\"ClientID\", \"EventSeverity\", \"EventTimestamp\", ''
     @ ''\"EventScope\", \"EventMessage\", \"EventRecordID\")VALUES ($1, $2, $3, $4, $5, $6) RETURNING \"EventID\"''"

definition insertEventXML_sql :: string where
  "insertEventXML_sql =
     ''INSERT INTO public.\"WindowsEventXML\"(\"EventID\", \"EventXML\") VALUES ($1, $2)''"

definition prepare ::
    "'db pqxx \<Rightarrow> string \<Rightarrow> string \<Rightarrow> 'db database \<Rightarrow> 'db database outcome" where
  "prepare px name sql s =
     (case px_prepare px name sql (db_data s) of
        Some e \<Rightarrow> Inl (Uncaught e)
      | None \<Rightarrow> Inr (s\<lparr>db_prepared := map_assign name sql (db_prepared s)\<rparr>))"

definition prepare_statements :: "'db pqxx \<Rightarrow> 'db database \<Rightarrow> 'db database outcome" where
  "prepare_statements px s =
     bind_out (prepare px ''insertEvent'' insertEvent_sql s) (\<lambda>s1.
     bind_out (prepare px ''insertEventXML'' insertEventXML_sql s1) (\<lambda>s2.
       prepare px ''insertClient'' insertClient_sql s2))"

text \<open>
  \<open>Connect\<close>: its result, the seconds slept, and the state. A new connection has no prepared
  statements.
\<close>

definition DB_Connect ::
    "'db pqxx \<Rightarrow> bool \<Rightarrow> (nat \<Rightarrow> attempt) \<Rightarrow> 'db database \<Rightarrow> (bool \<times> nat \<times> 'db database) outcome" where
  "DB_Connect px ndbg attempt s =
     bind_out (connect_loop attempt 0 0 (db_conn s)) (\<lambda>(conn, slept).
     let s1 = s\<lparr>db_conn := conn, db_prepared := []\<rparr> in
     bind_out (deref_conn s1) (\<lambda>is_open.
     if \<not> is_open then Inr (False, slept, s1)
     else bind_out (raise_exn (px_get_variable px ''server_version'' (db_data s1))) (\<lambda>_.
          bind_out (GetAllClients px ndbg s1) (\<lambda>s2.
          bind_out (prepare_statements px s2) (\<lambda>s3.
            Inr (True, slept, s3))))))"

definition InitDatabase :: "string \<Rightarrow> 'db \<Rightarrow> 'db database" where
  "InitDatabase cstr d = \<lparr>db_conn = Conn_null, db_connectionString = cstr, db_prepared = [],
     db_clients = [], db_data = d\<rparr>"

definition CheckConnectStatus :: "'db database \<Rightarrow> bool outcome" where
  "CheckConnectStatus s = deref_conn s"

definition DestroyDatabase :: "'db database \<Rightarrow> unit outcome" where
  "DestroyDatabase s = bind_out (delete_conn (db_conn s)) (\<lambda>_. Inr ())"

end
