(* ===== verification/Uv_Server.thy ===== *)
theory Uv_Server
  imports Packet_Codec Database_Layer
begin

text \<open>
  The server process: the structure \<open>Client\<close> and the class \<open>UvHandler\<close> of
  \<open>ClientServiceServer/clientServer.h\<close>, the handling of messages in \<open>client.cpp\<close>, the libuv
  callbacks in \<open>uv.cpp\<close>, and the signal handlers of \<open>ClientServiceServer.cpp\<close>. A callback is one
  step on the state of the process; libuv decides in which order they run.
\<close>

section \<open>State\<close>

text \<open>
  What the process depends on: the library environment, the database library, and what memory
  holds where the code reads it without having written it. \<open>h_raw_client\<close> is what an
  uninitialised \<open>_client\<close> pointer leads to and \<open>h_past_end\<close> the record id found behind the last
  element of a vector; \<open>None\<close> means that the access itself fails.
\<close>

record 'db host =
  h_env :: env
  h_px :: "'db pqxx"
  h_raw_clientID :: int
  h_raw_client :: "dbclient option"
  h_past_end :: "u32 option"

text \<open>\<open>Client\<close>: \<open>cl_client = None\<close> is a pointer that was never set.\<close>

record client =
  cl_client :: "dbclient option"
  cl_lid :: u32
  cl_decoder :: decoder

record send_object =
  so_buf :: "byte list"
  so_sock :: nat

text \<open>
  A client and its socket have the same number. \<open>sv_heap\<close> holds the clients that exist,
  \<open>sv_map\<close> is \<open>_clientMap\<close>, \<open>sv_closing\<close> the handles being closed with whether a callback was
  given, \<open>sv_work\<close> the queued work items, \<open>sv_net\<close> what was handed to \<open>uv_write\<close>, and the last
  two fields are the pending wake-ups.
\<close>

record 'db server =
  sv_heap :: "(nat \<times> client) list"
  sv_next :: nat
  sv_map :: "(nat \<times> nat) list"
  sv_sending :: "send_object list"
  sv_dbConnected :: bool
  sv_closing :: "(nat \<times> bool) list"
  sv_work :: "(nat \<times> message) list"
  sv_net :: "(nat \<times> byte list) list"
  sv_statics :: statics
  sv_db :: "'db database"
  sv_writeAsync :: bool
  sv_stopAsync :: bool

text \<open>A new \<open>UvHandler\<close>; \<open>raw\<close> is what the memory of \<open>dbConnected\<close> holds.\<close>

definition new_server :: "bool \<Rightarrow> statics \<Rightarrow> 'db database \<Rightarrow> 'db server" where
  "new_server raw st db = \<lparr>
     sv_heap = [], sv_next = 0, sv_map = [], sv_sending = [], sv_dbConnected = raw,
     sv_closing = [], sv_work = [], sv_net = [], sv_statics = st, sv_db = db,
     sv_writeAsync = False, sv_stopAsync = False\<rparr>"

definition new_client :: client where
  "new_client = \<lparr>cl_client = None, cl_lid = 1, cl_decoder = new_decoder\<rparr>"

text \<open>Reading and writing an object through a pointer.\<close>

definition deref_client :: "nat \<Rightarrow> 'db server \<Rightarrow> client outcome" where
  "deref_client c s =
     (case map_find c (sv_heap s) of
        None \<Rightarrow> Inl (Undefined Use_after_free) | Some cl \<Rightarrow> Inr cl)"

definition set_client :: "nat \<Rightarrow> client \<Rightarrow> 'db server \<Rightarrow> 'db server" where
  "set_client c cl s = s\<lparr>sv_heap := map_assign c cl (sv_heap s)\<rparr>"

definition deref_dbclient :: "'db host \<Rightarrow> client \<Rightarrow> dbclient outcome" where
  "deref_dbclient h cl =
     (case cl_client cl of
        Some d \<Rightarrow> Inr d
      | None \<Rightarrow> (case h_raw_client h of Some d \<Rightarrow> Inr d | None \<Rightarrow> Inl (Undefined Uninit_pointer)))"

section \<open>The registry of connections\<close>

text \<open>
  \<open>AddClient\<close>: the assertion asks that the socket is in the map already, before it is added.
\<close>

definition AddClient :: "bool \<Rightarrow> nat \<Rightarrow> 'db server \<Rightarrow> 'db server outcome" where
  "AddClient ndbg c s =
     bind_out (c_assert ndbg (map_find c (sv_map s) \<noteq> None)) (\<lambda>_.
       Inr (s\<lparr>sv_map := map_emplace c c (sv_map s)\<rparr>))"

text \<open>\<open>RemoveClient\<close> erases the element and then reads it through the same iterator.\<close>

definition RemoveClient :: "nat \<Rightarrow> 'db server \<Rightarrow> (nat option \<times> 'db server) outcome" where
  "RemoveClient t s =
     (case map_find t (sv_map s) of
        None \<Rightarrow> Inr (None, s)
      | Some _ \<Rightarrow> Inl (Undefined Use_after_free))"

text \<open>
  \<open>ClientDisconnect\<close>; with assertions compiled out, erasing at the end of the map is undefined.
\<close>

definition ClientDisconnect :: "bool \<Rightarrow> nat \<Rightarrow> 'db server \<Rightarrow> 'db server outcome" where
  "ClientDisconnect ndbg c s =
     bind_out (deref_client c s) (\<lambda>_.
     bind_out (c_assert ndbg (map_find c (sv_map s) \<noteq> None)) (\<lambda>_.
     if map_find c (sv_map s) = None then Inl (Undefined Out_of_bounds)
     else Inr (s\<lparr>sv_map := map_erase c (sv_map s)\<rparr>)))"

section \<open>Sending\<close>

definition sendq_push :: "send_object \<Rightarrow> 'db server \<Rightarrow> 'db server" where
  "sendq_push o1 s = s\<lparr>sv_sending := sv_sending s @ [o1]\<rparr>"

definition sendq_front :: "'db server \<Rightarrow> send_object" where
  "sendq_front s = hd (sv_sending s)"

definition sendq_pop :: "'db server \<Rightarrow> 'db server" where
  "sendq_pop s = s\<lparr>sv_sending := tl (sv_sending s)\<rparr>"

text \<open>
  \<open>WriteToNetwork\<close> serialises, queues and wakes the loop. The status of \<open>toBytes\<close> is dropped, and
  so is the message afterwards: callers pass a local object.
\<close>

definition WriteToNetwork :: "'db host \<Rightarrow> message \<Rightarrow> nat \<Rightarrow> 'db server \<Rightarrow> 'db server outcome" where
  "WriteToNetwork h msg sock s =
     bind_out (toBytes (h_env h) (sv_statics s) msg) (\<lambda>(_, buf, _).
       Inr ((sendq_push \<lparr>so_buf = buf, so_sock = sock\<rparr> s)\<lparr>sv_writeAsync := True\<rparr>))"

text \<open>
  \<open>uv_write\<close> on the socket of a client: a freed socket is a fault; one that is being closed
  refuses the request, whose return value the code does not look at.
\<close>

definition uv_write :: "send_object \<Rightarrow> 'db server \<Rightarrow> 'db server outcome" where
  "uv_write o1 s =
     (if map_find (so_sock o1) (sv_heap s) = None then Inl (Undefined Use_after_free)
      else if map_find (so_sock o1) (sv_closing s) \<noteq> None then Inr s
      else Inr (s\<lparr>sv_net := sv_net s @ [(so_sock o1, so_buf o1)]\<rparr>))"

function write_loop :: "'db server \<Rightarrow> 'db server outcome" where
  "write_loop s =
     (if length (sv_sending s) > 0 then
        (case uv_write (sendq_front s) s of
           Inl f \<Rightarrow> Inl f
         | Inr s' \<Rightarrow> write_loop (sendq_pop s\<lparr>sv_net := sv_net s'\<rparr>))
      else Inr s)"
  by pat_completeness auto
termination
  by (relation "measure (\<lambda>s. length (sv_sending s))") (auto simp: sendq_pop_def)

declare write_loop.simps [simp del]

text \<open>The handler of \<open>writeAsync\<close>.\<close>

definition async_WriteToNetwork :: "'db server \<Rightarrow> 'db server outcome" where
  "async_WriteToNetwork s = write_loop (s\<lparr>sv_writeAsync := False\<rparr>)"

section \<open>Messages from clients\<close>

text \<open>
  \<open>Client::readFromNetwork\<close>. Of the messages the bytes complete, one is taken from the decoder.
\<close>

definition answer ::
    "'db host \<Rightarrow> nat \<Rightarrow> message \<times> statics \<Rightarrow> 'db server \<Rightarrow> 'db server outcome" where
  "answer h c mst s = WriteToNetwork h (fst mst) c (s\<lparr>sv_statics := snd mst\<rparr>)"

definition handle_message :: "'db host \<Rightarrow> nat \<Rightarrow> client \<Rightarrow> message \<Rightarrow> 'db server \<Rightarrow> 'db server outcome" where
  "handle_message h c cl ret s =
     (case msg_op ret of
        UPDATE_LOG \<Rightarrow>
          (if GetEvents ret = [] then Inl (Undefined Null_deref)
           else case h_past_end h of
                  None \<Rightarrow> Inl (Undefined Out_of_bounds)
                | Some rid \<Rightarrow>
                    Inr (set_client c (cl\<lparr>cl_lid := rid\<rparr>) (s\<lparr>sv_work := sv_work s @ [(c, ret)]\<rparr>)))
      | CONNECT \<Rightarrow>
          bind_out (GetClient (h_px h) (ndebug (h_env h)) (h_raw_clientID h) ret (sv_db s)) (\<lambda>(d, db).
            answer h c (ConnectPackage (sv_statics s))
              (set_client c (cl\<lparr>cl_client := Some d\<rparr>) (s\<lparr>sv_db := db\<rparr>)))
      | QUERY_LAST_EVENT \<Rightarrow>
          bind_out (deref_dbclient h cl) (\<lambda>d.
          bind_out (GetLastEventRecordID (h_px h) d (sv_db s)) (\<lambda>last.
            let lid = word_of_int last :: u32 in
            answer h c (ReturnLastEventPackage (lid + 1) (sv_statics s))
              (set_client c (cl\<lparr>cl_lid := lid\<rparr>) s)))
      | _ \<Rightarrow> Inr s)"

definition readFromNetwork :: "'db host \<Rightarrow> nat \<Rightarrow> byte list \<Rightarrow> 'db server \<Rightarrow> 'db server outcome" where
  "readFromNetwork h c buf s =
     bind_out (deref_client c s) (\<lambda>cl.
     bind_out (decoder_read (h_env h) (sv_statics s) (cl_decoder cl) buf) (\<lambda>(_, st, d).
     let (mo, d') = GetProtobufMessage d;
         cl' = cl\<lparr>cl_decoder := d'\<rparr>;
         s' = set_client c cl' (s\<lparr>sv_statics := st\<rparr>)
     in case mo of
          None \<Rightarrow> Inr s'
        | Some ret \<Rightarrow>
            if sv_dbConnected s' then
              answer h c (RefusePackage (msg_id ret) ''Refuse Package: database disconnected.'',
                          sv_statics s') s'
            else handle_message h c cl' ret s'))"

section \<open>Work items\<close>

text \<open>
  The function that a thread of the pool runs for a batch. What the database answered is not
  used; the number acknowledged is the client's current \<open>lid\<close> plus one.
\<close>

definition run_work :: "'db host \<Rightarrow> nat \<times> message \<Rightarrow> 'db server \<Rightarrow> 'db server outcome" where
  "run_work h w s =
     (case w of (c, p) \<Rightarrow>
        bind_out (deref_client c s) (\<lambda>cl.
        bind_out (deref_dbclient h cl) (\<lambda>d.
        case DB_InsertWindowsEvents (h_px h) d (GetEvents p) (sv_db s) of
          Inl f \<Rightarrow>
            (if f = Uncaught Sql_error
             then answer h c (RefusePackage (msg_id p) ''Refuse: database exception'', sv_statics s) s
             else Inl f)
        | Inr (_, db) \<Rightarrow>
            (let s' = s\<lparr>sv_db := db\<rparr> in
             if NeedAccept p
             then answer h c (AcceptLastEventPackage (cl_lid cl + 1) (sv_statics s')) s'
             else Inr s'))))"

section \<open>The libuv callbacks\<close>

text \<open>\<open>uvConnectCB\<close> with the status of the listener and the success of \<open>uv_accept\<close>.\<close>

definition uvConnectCB :: "bool \<Rightarrow> int \<Rightarrow> bool \<Rightarrow> 'db server \<Rightarrow> 'db server outcome" where
  "uvConnectCB ndbg status accepted s =
     (if status < 0 then Inr s
      else
        let c = sv_next s;
            s1 = set_client c new_client (s\<lparr>sv_next := sv_next s + 1\<rparr>)
        in bind_out (AddClient ndbg c s1) (\<lambda>s2.
             if accepted then Inr s2
             else Inr (s2\<lparr>sv_closing := map_assign c False (sv_closing s2)\<rparr>)))"

text \<open>
  \<open>uvReadCB\<close>: the result of a read is a number of bytes or an error; \<open>has_base\<close> tells whether a
  buffer was allocated. The error branch deletes the descriptor of the buffer, which belongs to
  libuv, instead of the buffer.
\<close>

datatype read_result = Read_bytes "byte list" | Read_eof | Read_reset | Read_error

definition uvReadCB ::
    "'db host \<Rightarrow> nat \<Rightarrow> read_result \<Rightarrow> bool \<Rightarrow> 'db server \<Rightarrow> 'db server outcome" where
  "uvReadCB h c r has_base s =
     bind_out (deref_client c s) (\<lambda>cl.
     bind_out (deref_dbclient h cl) (\<lambda>_.
     case r of
       Read_bytes bs \<Rightarrow> if bs = [] then Inr s else readFromNetwork h c bs s
     | _ \<Rightarrow>
         (let s' = (if r = Read_error then s
                    else s\<lparr>sv_closing := map_assign c True (sv_closing s)\<rparr>)
          in if has_base then Inl (Undefined Bad_delete) else Inr s')))"

text \<open>\<open>uvCloseCB\<close>: the client leaves the map and is deleted with its socket.\<close>

definition uvCloseCB :: "bool \<Rightarrow> nat \<Rightarrow> 'db server \<Rightarrow> 'db server outcome" where
  "uvCloseCB ndbg c s =
     bind_out (deref_client c s) (\<lambda>_.
     bind_out (ClientDisconnect ndbg c s) (\<lambda>s'.
       Inr (s'\<lparr>sv_heap := map_erase c (sv_heap s'), sv_closing := map_erase c (sv_closing s')\<rparr>)))"

text \<open>
  The handler of \<open>stopAsync\<close> visits every handle of the loop: the three of the server itself and
  the sockets. \<open>None\<close> stands for a handle of the server.
\<close>

definition stop_handle :: "nat option \<Rightarrow> 'db server \<Rightarrow> 'db server outcome" where
  "stop_handle ho s =
     (case ho of
        None \<Rightarrow> Inr s
      | Some c \<Rightarrow>
          bind_out (deref_client c s) (\<lambda>_.
          bind_out (RemoveClient c s) (\<lambda>(co, s').
          case co of
            None \<Rightarrow> Inr (s'\<lparr>sv_closing := map_assign c False (sv_closing s')\<rparr>)
          | Some c' \<Rightarrow> Inl (Undefined Use_after_free))))"

definition async_Stop :: "'db server \<Rightarrow> 'db server outcome" where
  "async_Stop s =
     fold_out (\<lambda>s h. stop_handle h s) (s\<lparr>sv_stopAsync := False\<rparr>)
       ([None, None, None] @ map (Some \<circ> fst) (sv_heap s))"

text \<open>\<open>~UvHandler\<close>: each buffer is reached through a reference to an element already popped.\<close>

definition DestroyUvHandler :: "'db server \<Rightarrow> unit outcome" where
  "DestroyUvHandler s = (if sv_sending s \<noteq> [] then Inl (Undefined Use_after_free) else Inr ())"

text \<open>\<open>SetupNetwork\<close> with the statuses of bind and listen; only the latter is acted upon.\<close>

definition SetupNetwork :: "int \<Rightarrow> int \<Rightarrow> int \<Rightarrow> 'db server \<Rightarrow> 'db server outcome" where
  "SetupNetwork addr_status bind_status listen_status s =
     (if listen_status \<noteq> 0 then Inl (Exit 1) else Inr s)"

section \<open>Signals\<close>

definition StopLoop :: "'db server \<Rightarrow> 'db server" where
  "StopLoop s = s\<lparr>sv_stopAsync := True\<rparr>"

definition SIGPIPEHandler ::
    "'db host \<Rightarrow> (nat \<Rightarrow> attempt) \<Rightarrow> 'db server \<Rightarrow> 'db server outcome" where
  "SIGPIPEHandler h attempt s =
     bind_out (CheckConnectStatus (sv_db s)) (\<lambda>status.
     let s1 = s\<lparr>sv_dbConnected := status\<rparr> in
     if status then Inr s1
     else bind_out (DB_Connect (h_px h) (ndebug (h_env h)) attempt (sv_db s1)) (\<lambda>(ok, _, db).
       let s2 = s1\<lparr>sv_db := db\<rparr> in Inr (if ok then s2 else StopLoop s2)))"

definition SIGTERMHandler :: "'db server \<Rightarrow> 'db server" where
  "SIGTERMHandler s = StopLoop s"

end
