(* ===== verification/Database_Properties.thy ===== *)
theory Database_Properties
  imports Database_Layer
begin

text \<open>
  What the database layer guarantees and where it fails: batches are all or nothing and their
  XML is never stored, the cache after a connect, repeated registrations, the last record id,
  and the outcomes of a connect that finds no server.
\<close>

section \<open>A sample database\<close>

text \<open>
  For the witnesses: rows of the two tables, the unique constraint on machines and the severities
  of the enumeration type in \<open>postgres.sql\<close>.
\<close>

record sample_tables =
  tab_clients :: "row list"
  tab_events :: "row list"

definition log_severities :: "string list" where
  "log_severities = [''fatal'', ''error'', ''warning'', ''info'', ''verbose'', ''debug'',
     ''aduitSuccess'', ''aduitFailure'']"

fun sample_insert ::
    "string \<Rightarrow> string list \<Rightarrow> sample_tables \<Rightarrow> exn + (row list \<times> sample_tables)" where
  "sample_insert sql [n, os, v, u] d =
     (if sql \<noteq> insertClient_sql \<or> (\<exists>r \<in> set (tab_clients d). r ! 4 = u) then Inl Sql_error
      else let r = [dec_nat (length (tab_clients d) + 1), n, os, v, u, ''now'']
           in Inr ([r], d\<lparr>tab_clients := tab_clients d @ [r]\<rparr>))"
| "sample_insert sql [cid, sev, ts, scope, msg, rid] d =
     (if sql \<noteq> insertEvent_sql \<or> sev \<notin> set log_severities then Inl Sql_error
      else let r = [dec_nat (length (tab_events d) + 1), cid, sev, ts, scope, msg, rid]
           in Inr ([[hd r]], d\<lparr>tab_events := tab_events d @ [r]\<rparr>))"
| "sample_insert sql _ d = Inl Sql_error"

definition sample_exec :: "string \<Rightarrow> sample_tables \<Rightarrow> exn + (row list \<times> sample_tables)" where
  "sample_exec sql d =
     (if sql = ''SELECT * from \"Client\"'' then Inr (tab_clients d, d)
      else if take 6 sql = ''select''
      then Inr (map (\<lambda>r. [r ! 6]) (filter (\<lambda>r. sql = last_event_sql (int (digits_value (r ! 1))))
                  (tab_events d)), d)
      else Inr ([], d))"

definition sample_px :: "sample_tables pqxx" where
  "sample_px = \<lparr>px_exec = sample_exec, px_exec_params = sample_insert, px_commit = (\<lambda>_. None),
     px_prepare = (\<lambda>_ _ _. None),
     px_quote = (\<lambda>s. [CHR 0x27] @ s @ [CHR 0x27]), px_get_variable = (\<lambda>_ _. Inr ''11''),
     px_as_int = (\<lambda>s. if s \<noteq> [] \<and> list_all is_digit s then Some (int (digits_value s)) else None),
     px_as_long = (\<lambda>s. if s \<noteq> [] \<and> list_all is_digit s then Some (int (digits_value s)) else None)\<rparr>"

definition with_statements :: "'db database \<Rightarrow> 'db database" where
  "with_statements s = s\<lparr>db_prepared :=
     map_assign ''insertClient'' insertClient_sql
       (map_assign ''insertEventXML'' insertEventXML_sql
       (map_assign ''insertEvent'' insertEvent_sql (db_prepared s)))\<rparr>"

definition sample_database :: "sample_tables database" where
  "sample_database = with_statements
     (InitDatabase ''postgresql://'' \<lparr>tab_clients = [], tab_events = []\<rparr>)\<lparr>db_conn := Conn_live True\<rparr>"

section \<open>Lemmas\<close>

lemma begin_work_live: "db_conn s = Conn_live True \<Longrightarrow> begin_work s = Inr (db_data s)"
  by (simp add: begin_work_def deref_conn_def)

lemma begin_work_no_sql_error: "begin_work s \<noteq> Inl (Uncaught Sql_error)"
  by (auto simp: begin_work_def deref_conn_def split: connection.splits)

lemma raise_exn_simps [simp]: "raise_exn (Inl e) = Inl (Uncaught e)" "raise_exn (Inr x) = Inr x"
  by (simp_all add: raise_exn_def)

lemma exec_prepared_insertEvent:
  "map_find name (db_prepared s) = Some sql \<Longrightarrow>
     exec_prepared px s name ps tx = raise_exn (px_exec_params px sql ps tx)"
  by (simp add: exec_prepared_def)

lemma prepared_statements:
  "map_find ''insertClient'' (db_prepared (with_statements s)) = Some insertClient_sql"
  "map_find ''insertEvent'' (db_prepared (with_statements s)) = Some insertEvent_sql"
  "map_find ''insertEventXML'' (db_prepared (with_statements s)) = Some insertEventXML_sql"
  by (simp_all add: with_statements_def clients.find_assign)

text \<open>The one statement that runs for an event.\<close>

definition insert_event ::
    "'db pqxx \<Rightarrow> 'db database \<Rightarrow> int \<Rightarrow> 'db \<Rightarrow> event \<Rightarrow> 'db outcome" where
  "insert_event px s cid tx evt =
     bind_out (exec_prepared px s ''insertEvent''
       [dec_int cid, dispatchEventSeverity (sint (ev_level evt)), ev_timeStamp evt,
        ev_provider evt, ev_format evt, dec_nat (unat (ev_rid evt))] tx) (\<lambda>(_, tx'). Inr tx')"

lemma insert_loop_eq:
  "insert_loop px s cid evts tx n = (n, fold_out (insert_event px s cid) tx evts)"
  by (induction evts arbitrary: tx)
    (auto simp: insert_event_def result_clear_def split: sum.split)

lemma InsertWindowsEvents_eq:
  "begin_work s = Inr tx \<Longrightarrow>
     DB_InsertWindowsEvents px c evts s =
       (case bind_out (fold_out (insert_event px s (dc_clientID c)) tx evts) (commit_work px s) of
          Inr s' \<Rightarrow> Inr (0, s')
        | Inl f \<Rightarrow> if f = Uncaught Sql_error then Inr (0, s) else Inl f)"
  by (auto simp: DB_InsertWindowsEvents_def insert_loop_eq Let_def split: sum.split)

lemma GetClient_cache:
  "GetClient px ndbg raw msg s = Inr (dc, s') \<Longrightarrow>
     db_clients s' = db_clients s \<and> db_conn s' = db_conn s \<and> db_prepared s' = db_prepared s"
  by (auto simp: GetClient_def Let_def bind_out_Inr_iff commit_work_def split: option.splits if_splits)

section \<open>Inserting events\<close>

text \<open>C17. A batch is stored completely or not at all: the result is that of running one insert
  statement per event and committing, or, after an SQL error anywhere, the unchanged database. No
  statement for the XML of an event is ever run, because the number of returned rows is read after
  the result has been cleared, and the number of inserted events is reported as 0 in every case.\<close>

theorem InsertWindowsEvents_all_or_nothing:
  "DB_InsertWindowsEvents px c evts s =
     (case bind_out (begin_work s) (\<lambda>tx.
             bind_out (fold_out (insert_event px s (dc_clientID c)) tx evts) (commit_work px s)) of
        Inr s' \<Rightarrow> Inr (0, s')
      | Inl f \<Rightarrow> if f = Uncaught Sql_error then Inr (0, s) else Inl f)"
proof (cases "begin_work s")
  case (Inl f)
  with begin_work_no_sql_error [of s] show ?thesis by (auto simp: DB_InsertWindowsEvents_def)
next
  case (Inr tx)
  then show ?thesis by (simp add: InsertWindowsEvents_eq)
qed

text \<open>A fault in the middle of a fold, when nothing before it can fail in another way.\<close>

lemma fold_out_fails:
  assumes "x \<in> set xs" and "\<And>t. f t x = Inl e"
    and "\<And>y t g. y \<in> set xs \<Longrightarrow> f t y = Inl g \<Longrightarrow> g = e"
  shows "fold_out f t xs = Inl e"
  using assms
proof (induction xs arbitrary: t)
  case (Cons y ys)
  show ?case
  proof (cases "f t y")
    case (Inl g)
    then show ?thesis using Cons.prems(3) [of y t g] by simp
  next
    case (Inr t')
    with Cons.prems(1) Cons.prems(2) [of t] have "x \<in> set ys" by auto
    from Cons.IH [OF this Cons.prems(2)] Cons.prems(3) have "fold_out f t' ys = Inl e"
      by (meson list.set_intros(2))
    then show ?thesis by (simp add: Inr)
  qed
qed simp

lemma dispatchEventSeverity_others: "i \<le> 0 \<or> 5 < i \<Longrightarrow> dispatchEventSeverity i = ''others''"
  by (auto simp: dispatchEventSeverity_def)

text \<open>C33. One event whose level is not between 1 and 5 costs the whole batch: its severity is
  written as \<open>others\<close>, and on a database whose severity type has no such value, as that of
  \<open>postgres.sql\<close>, nothing of the batch is stored, while the caller is told the same as after a
  success.\<close>

theorem unknown_severity_loses_batch:
  assumes "evt \<in> set evts" and "sint (ev_level evt) \<le> 0 \<or> 5 < sint (ev_level evt)"
    and "db_conn s = Conn_live True"
    and "map_find ''insertEvent'' (db_prepared s) = Some insertEvent_sql"
    and "\<And>cid ts p m r d. px_exec_params px insertEvent_sql [cid, ''others'', ts, p, m, r] d = Inl Sql_error"
    and "\<And>ps d e. px_exec_params px insertEvent_sql ps d = Inl e \<Longrightarrow> e = Sql_error"
  shows "DB_InsertWindowsEvents px c evts s = Inr (0, s)"
proof -
  let ?ins = "insert_event px s (dc_clientID c)"
  have "fold_out ?ins (db_data s) evts = Inl (Uncaught Sql_error)"
  proof (rule fold_out_fails [OF assms(1)])
    show "?ins t evt = Inl (Uncaught Sql_error)" for t
      using assms(2,4,5) by (simp add: insert_event_def exec_prepared_def dispatchEventSeverity_others)
    show "g = Uncaught Sql_error" if "?ins t y = Inl g" for y t g
      using that assms(4,6) by (auto simp: insert_event_def exec_prepared_def raise_exn_def bind_out_Inl_iff
          split: sum.splits)
  qed
  then show ?thesis
    using assms(3) by (simp add: InsertWindowsEvents_eq begin_work_live)
qed

theorem unknown_severity_loses_batch_witness:
  "DB_InsertWindowsEvents sample_px
     \<lparr>dc_clientID = 1, dc_clientName = ''h'', dc_clientOs = None, dc_clientOsVersion = ''10'',
      dc_clientUniqueID = ''m1'', dc_clientRegisterTime = []\<rparr>
     [Event_number ''<e/>'' ''f'' ''p'' ''t'' 4 8, Event_number ''<e/>'' ''f'' ''p'' ''t'' 0 9]
     sample_database = Inr (0, sample_database)"
proof (rule unknown_severity_loses_batch
    [where evt = "Event_number ''<e/>'' ''f'' ''p'' ''t'' 0 9"])
  show "map_find ''insertEvent'' (db_prepared sample_database) = Some insertEvent_sql"
    by (simp add: sample_database_def prepared_statements)
  show "e = Sql_error" if "px_exec_params sample_px insertEvent_sql ps d = Inl e" for ps d e
    using that by (cases "(insertEvent_sql, ps, d)" rule: sample_insert.cases)
      (auto simp: sample_px_def Let_def split: if_splits)
qed (simp_all add: Event_number_def sample_database_def sample_px_def log_severities_def)

text \<open>What is stored as the severity of an event is one step more severe than what was sent,
  after the shift of the transfer, and every number has a name: no level reads past the table.\<close>

theorem stored_severity:
  "map (\<lambda>l. dispatchEventSeverity (sint (ev_level (received_event (Event_level x f p t l r)))))
       [fatal, error, warning, info, verbose] =
     [''others'', ''fatal'', ''error'', ''warning'', ''info'']
   \<and> dispatchEventSeverity i \<in> {''others'', ''fatal'', ''error'', ''warning'', ''info'', ''verbose''}"
proof -
  have "dispatchEventSeverity i \<in> {''others'', ''fatal'', ''error'', ''warning'', ''info'', ''verbose''}"
  proof (cases "i \<le> 0 \<or> 5 < i")
    case False
    then consider "i = 1" | "i = 2" | "i = 3" | "i = 4" | "i = 5" by linarith
    then show ?thesis by cases (simp_all add: dispatchEventSeverity_def)
  qed (simp add: dispatchEventSeverity_others)
  then show ?thesis
    by (simp add: received_event_def Event_level_def dispatchEventSeverity_def)
qed

section \<open>The last record\<close>

lemma fold_max_ids:
  assumes "map (px_as_int px) ts = map Some ids"
  shows "fold_out (\<lambda>ret c. bind_out (field_int px [c] 0 0) (\<lambda>t. Inr (if t > ret then t else ret)))
           m (map (\<lambda>t. [t]) ts) = Inr (Max (insert m (set ids)))"
  using assms
proof (induction ts arbitrary: m ids)
  case (Cons t ts)
  then obtain i js where ids: "ids = i # js" "px_as_int px t = Some i"
      "map (px_as_int px) ts = map Some js" by auto
  have "Max (insert (if m < i then i else m) (set js)) = Max (insert m (insert i (set js)))"
    by (cases "set js = {}") (auto simp: max_def)
  with Cons.IH [OF ids(3)] ids show ?case by (simp add: field_int_def field_def)
qed simp

lemma GetLastEventRecordID_rows:
  assumes "db_conn s = Conn_live True"
    and "px_exec px (last_event_sql (dc_clientID c)) (db_data s) = Inr (map (\<lambda>t. [t]) ts, d)"
    and "map (px_as_int px) ts = map Some ids"
  shows "GetLastEventRecordID px c s = Inr (Max (insert 0 (set ids)))"
  using assms fold_max_ids [OF assms(3), of 0]
  by (cases "ts = []") (simp_all add: GetLastEventRecordID_def begin_work_live exec_sql_def)

text \<open>The last record id of a machine is the largest id stored for it, 0 when there is none;
  the order of the rows does not matter.\<close>

theorem GetLastEventRecordID_max:
  assumes "db_conn s = Conn_live True"
    and "px_exec px (last_event_sql (dc_clientID c)) (db_data s) = Inr (map (\<lambda>t. [t]) ts, d)"
    and "map (px_as_int px) ts = map Some ids"
  shows "GetLastEventRecordID px c s = Inr (Max (insert 0 (set ids)))"
  by (rule GetLastEventRecordID_rows [OF assms])

theorem GetLastEventRecordID_max_witness:
  "GetLastEventRecordID sample_px
     \<lparr>dc_clientID = 1, dc_clientName = ''h'', dc_clientOs = None, dc_clientOsVersion = ''10'',
      dc_clientUniqueID = ''m1'', dc_clientRegisterTime = []\<rparr>
     (sample_database\<lparr>db_data := \<lparr>tab_clients = [], tab_events =
        [[''1'', ''1'', ''info'', ''t'', ''s'', ''m'', ''31''], [''2'', ''1'', ''info'', ''t'', ''s'', ''m'', ''7'']]\<rparr>\<rparr>) =
   Inr 31"
proof -
  have "GetLastEventRecordID sample_px
     \<lparr>dc_clientID = 1, dc_clientName = ''h'', dc_clientOs = None, dc_clientOsVersion = ''10'',
      dc_clientUniqueID = ''m1'', dc_clientRegisterTime = []\<rparr>
     (sample_database\<lparr>db_data := \<lparr>tab_clients = [], tab_events =
        [[''1'', ''1'', ''info'', ''t'', ''s'', ''m'', ''31''], [''2'', ''1'', ''info'', ''t'', ''s'', ''m'', ''7'']]\<rparr>\<rparr>) =
   Inr (Max (insert 0 (set [31, 7])))"
    by (rule GetLastEventRecordID_max [where ts = "[''31'', ''7'']"])
      (simp_all add: sample_database_def sample_px_def sample_exec_def last_event_sql_def is_digit_def)
  then show ?thesis by simp
qed

section \<open>Machines\<close>

lemma GetClient_unknown:
  assumes "map_find (msg_machineID msg) (db_clients s) = None"
    and "map_find ''insertClient'' (db_prepared s) = Some insertClient_sql"
  shows "GetClient px ndbg raw msg s =
    bind_out (begin_work s) (\<lambda>tx.
    bind_out (raise_exn (px_exec_params px insertClient_sql
        [msg_clientName msg, if msg_osType msg = Some os_linux then ''Linux'' else ''Windows'',
         msg_osVersion msg, msg_machineID msg] tx)) (\<lambda>(r, tx').
    bind_out (commit_work px s tx') (\<lambda>s'.
      let dc = \<lparr>dc_clientID = raw, dc_clientName = msg_clientName msg, dc_clientOs = msg_osType msg,
                dc_clientOsVersion = msg_osVersion msg, dc_clientUniqueID = msg_machineID msg,
                dc_clientRegisterTime = []\<rparr> in
      if length r = 1
      then bind_out (field_clientID px r 0 0) (\<lambda>cid. Inr (dc\<lparr>dc_clientID := cid\<rparr>, s'))
      else bind_out (c_assert ndbg False) (\<lambda>_. Inr (dc, s')))))"
  using assms by (simp add: GetClient_def Let_def exec_prepared_def)

text \<open>What other clients do between two messages of a machine: \<open>CONNECT\<close> messages one after the other.\<close>

abbreviation connects :: "'db pqxx \<Rightarrow> bool \<Rightarrow> 'db database \<Rightarrow> (int \<times> message) list \<Rightarrow> 'db database outcome" where
  "connects px ndbg \<equiv> fold_out (\<lambda>s (raw, m). bind_out (GetClient px ndbg raw m s) (\<lambda>(_, s'). Inr s'))"

lemma GetClient_data:
  assumes "GetClient px ndbg raw msg s = Inr (dc, s')"
    and "map_find ''insertClient'' (db_prepared s) = Some insertClient_sql"
  obtains ps r where "map_find (msg_machineID msg) (db_clients s) = None"
      and "begin_work s = Inr (db_data s)" and "ps ! 3 = msg_machineID msg" and "length ps = 4"
      and "px_exec_params px insertClient_sql ps (db_data s) = Inr (r, db_data s')"
  | q i r where "map_find (msg_machineID msg) (db_clients s) \<noteq> None"
      and "px_exec px (update_version_sql q i) (db_data s) = Inr (r, db_data s')"
  | i r where "map_find (msg_machineID msg) (db_clients s) \<noteq> None"
      and "px_exec px (update_last_connect_sql i) (db_data s) = Inr (r, db_data s')"
proof -
  have exn: "raise_exn x = Inr y \<longleftrightarrow> x = Inr y" for x :: "exn + 'c" and y by (cases x) simp_all
  obtain tx where "begin_work s = Inr tx"
    using assms(1) by (cases "begin_work s") (auto simp: GetClient_def Let_def split: option.splits)
  moreover from this have "tx = db_data s"
    by (auto simp: begin_work_def deref_conn_def bind_out_Inr_iff split: connection.splits if_splits)
  ultimately have bw: "begin_work s = Inr (db_data s)" by simp
  show thesis
  proof (cases "map_find (msg_machineID msg) (db_clients s)")
    case None
    let ?ps = "[msg_clientName msg, if msg_osType msg = Some os_linux then ''Linux'' else ''Windows'',
      msg_osVersion msg, msg_machineID msg]"
    from assms(1) obtain r tx' where "px_exec_params px insertClient_sql ?ps (db_data s) = Inr (r, tx')"
        "db_data s' = tx'"
      by (auto simp: GetClient_unknown [OF None assms(2)] bind_out_Inr_iff bw exn commit_work_def Let_def
          split: option.splits if_splits)
    with None bw that(1) [of ?ps r] show thesis by simp
  next
    case (Some saved)
    with assms(1) that(2,3) show thesis
      by (auto simp: GetClient_def Let_def bind_out_Inr_iff bw exec_sql_def exn commit_work_def
          split: option.splits if_splits)
  qed
qed

text \<open>C35. A machine that is not in the cache can register once. It is inserted but not cached, so
  until the cache is loaded again its next \<open>CONNECT\<close>, whatever clients connect in between, inserts it
  again. On a database that keeps machine ids unique and whose other statements of \<open>GetClient\<close> do not
  remove the machine, that statement fails with an exception nobody catches.\<close>

theorem second_registration_fails:
  fixes taken :: "'db \<Rightarrow> bool"
  assumes "map_find (msg_machineID msg) (db_clients s) = None"
    and "GetClient px ndbg raw msg s = Inr (dc, s1)" and "connects px ndbg s1 others = Inr s2"
    and "msg_machineID msg2 = msg_machineID msg"
    and "map_find ''insertClient'' (db_prepared s) = Some insertClient_sql"
    and inserted: "\<And>n os v d r d'. px_exec_params px insertClient_sql [n, os, v, msg_machineID msg] d = Inr (r, d') \<Longrightarrow> taken d'"
    and unique: "\<And>n os v d. taken d \<Longrightarrow> px_exec_params px insertClient_sql [n, os, v, msg_machineID msg] d = Inl Sql_error"
    and kept: "\<And>ps d r d'. taken d \<Longrightarrow> px_exec_params px insertClient_sql ps d = Inr (r, d') \<Longrightarrow> taken d'"
      "\<And>q i d r d'. taken d \<Longrightarrow> px_exec px (update_version_sql q i) d = Inr (r, d') \<Longrightarrow> taken d'"
      "\<And>i d r d'. taken d \<Longrightarrow> px_exec px (update_last_connect_sql i) d = Inr (r, d') \<Longrightarrow> taken d'"
  shows "GetClient px ndbg raw2 msg2 s2 = Inl (Uncaught Sql_error)"
proof -
  have list4: "length ps = 4 \<Longrightarrow> ps = [ps ! 0, ps ! 1, ps ! 2, ps ! 3]" for ps :: "string list"
    by (auto simp: numeral_eq_Suc length_Suc_conv)
  let ?ok = "\<lambda>u. taken (db_data u) \<and> db_clients u = db_clients s \<and> db_prepared u = db_prepared s
    \<and> begin_work u = Inr (db_data u)"
  have work: "begin_work u' = Inr (db_data u')" if "begin_work u = Inr (db_data u)" "db_conn u' = db_conn u" for u u'
    using that by (auto simp: begin_work_def deref_conn_def bind_out_Inr_iff split: connection.splits if_splits)
  from assms(2,5) have "taken (db_data s1) \<and> begin_work s = Inr (db_data s)"
  proof (rule GetClient_data)
    fix ps r
    assume "begin_work s = Inr (db_data s)" "ps ! 3 = msg_machineID msg" "length ps = 4"
      "px_exec_params px insertClient_sql ps (db_data s) = Inr (r, db_data s1)"
    then show ?thesis using list4 [of ps] inserted by metis
  qed (use assms(1) in simp_all)
  then have "?ok s1" using GetClient_cache [OF assms(2)] work by blast
  have "?ok s2"
  proof (rule fold_out_invariant [where I = ?ok, OF _ _ assms(3)])
    show "?ok s1" by (rule \<open>?ok s1\<close>)
    fix u u' rm
    assume u: "?ok u"
      and "(case rm of (raw, m) \<Rightarrow> bind_out (GetClient px ndbg raw m u) (\<lambda>(_, s'). Inr s')) = Inr u'"
    then obtain raw' m dc' where g: "GetClient px ndbg raw' m u = Inr (dc', u')"
      by (cases rm) (auto simp: bind_out_Inr_iff)
    have "map_find ''insertClient'' (db_prepared u) = Some insertClient_sql" using u assms(5) by simp
    with g have "taken (db_data u')" by (rule GetClient_data) (use u kept in blast)+
    with u GetClient_cache [OF g] work show "?ok u'" by metis
  qed
  then show ?thesis
    using assms(1,4,5) unique by (simp add: GetClient_unknown)
qed

definition sample_connect :: message where
  "sample_connect = (fst (ConnectPackage \<lparr>next_id = 0, myClientName = [], myOsVersion = [],
     myMachineID = [], timeBias = []\<rparr>))\<lparr>msg_machineID := ''m1'', msg_osType := Some os_windows\<rparr>"

theorem second_registration_fails_witness:
  "\<exists>dc s1 s2. GetClient sample_px False 0 sample_connect sample_database = Inr (dc, s1)
    \<and> connects sample_px False s1 [(0, sample_connect\<lparr>msg_machineID := ''m2''\<rparr>)] = Inr s2
    \<and> GetClient sample_px False 0 sample_connect s2 = Inl (Uncaught Sql_error)"
proof -
  let ?others = "[(0, sample_connect\<lparr>msg_machineID := ''m2''\<rparr>)]"
  have "\<exists>dc s1 s2. GetClient sample_px False 0 sample_connect sample_database = Inr (dc, s1)
      \<and> connects sample_px False s1 ?others = Inr s2"
    by (simp add: GetClient_def sample_database_def InitDatabase_def begin_work_def deref_conn_def
        with_statements_def sample_connect_def constructor_defs exec_prepared_def
        clients.find_assign clients.find_vacant sample_px_def commit_work_def field_clientID_def int_of_long_def
        field_def raise_exn_def dec_nat.simps is_digit_def digit_char_def Let_def)
  then obtain dc s1 s2 where r: "GetClient sample_px False 0 sample_connect sample_database = Inr (dc, s1)"
      "connects sample_px False s1 ?others = Inr s2" by blast
  let ?u = "msg_machineID sample_connect"
  have "GetClient sample_px False 0 sample_connect s2 = Inl (Uncaught Sql_error)"
  proof (rule second_registration_fails [OF _ r refl, where taken = "\<lambda>d. \<exists>r \<in> set (tab_clients d). r ! 4 = ?u"])
    show "\<exists>r \<in> set (tab_clients d'). r ! 4 = ?u"
      if "\<exists>r \<in> set (tab_clients d). r ! 4 = ?u" "px_exec_params sample_px insertClient_sql ps d = Inr (x, d')" for ps d x d'
      using that by (cases "(insertClient_sql, ps, d)" rule: sample_insert.cases)
        (auto simp: sample_px_def Let_def split: if_splits)
  qed (auto simp: sample_database_def with_statements_def InitDatabase_def clients.find_vacant clients.find_assign
      sample_px_def sample_exec_def Let_def split: if_splits)
  with r show ?thesis by blast
qed

lemma fold_cache_rows:
  assumes "map (client_of_row px) rows = map Inr dcs"
  shows "fold_out (cache_row px) cs rows =
    Inr (fold (\<lambda>kv. map_assign (fst kv) (snd kv)) (map (\<lambda>d. (dc_clientUniqueID d, d)) dcs) cs)"
  using assms
proof (induction rows arbitrary: cs dcs)
  case (Cons c rows)
  then obtain d ds where "dcs = d # ds" "client_of_row px c = Inr d"
      "map (client_of_row px) rows = map Inr ds" by auto
  with Cons.IH [of ds] show ?case by (simp add: cache_row_def)
qed simp

lemma GetAllClients_eq:
  assumes "db_conn s = Conn_live True"
    and "px_exec px ''SELECT * from \"Client\"'' (db_data s) = Inr (rows, d)" and "px_commit px d = None"
    and "map (client_of_row px) rows = map Inr dcs"
  shows "GetAllClients px ndbg s =
    (let cs = fold (\<lambda>kv. map_assign (fst kv) (snd kv)) (map (\<lambda>d. (dc_clientUniqueID d, d)) dcs)
                (db_clients s)
     in bind_out (c_assert ndbg (length cs = length rows)) (\<lambda>_.
          Inr (s\<lparr>db_data := d, db_clients := cs\<rparr>)))"
  using assms
  by (simp add: GetAllClients_def begin_work_live exec_sql_def commit_work_def fold_cache_rows Let_def)

text \<open>C34. The first connect fills the cache with exactly the machines of the table: every machine
  id leads to its row and no other id to anything, and the size check passes.\<close>

theorem first_connect_cache:
  assumes "db_conn s = Conn_live True" and "db_clients s = []"
    and "px_exec px ''SELECT * from \"Client\"'' (db_data s) = Inr (rows, d)" and "px_commit px d = None"
    and "map (client_of_row px) rows = map Inr dcs" and "distinct (map dc_clientUniqueID dcs)"
  shows "\<exists>s'. GetAllClients px ndbg s = Inr s' \<and> db_data s' = d
    \<and> (\<forall>u. map_find u (db_clients s') = find (\<lambda>dc. dc_clientUniqueID dc = u) dcs)"
proof -
  let ?kvs = "map (\<lambda>d. (dc_clientUniqueID d, d)) dcs"
  let ?cs = "fold (\<lambda>kv. map_assign (fst kv) (snd kv)) ?kvs []"
  have dist: "distinct (map fst ?kvs)" using assms(6) by (simp add: comp_def)
  have "length dcs = length rows" using assms(5) by (metis length_map)
  then have len: "length ?cs = length rows"
    using clients.count_assign_all [OF clients.inv_vacant dist] by (simp add: clients.find_vacant)
  have "map_find u ?cs = find (\<lambda>dc. dc_clientUniqueID dc = u) dcs" for u
  proof -
    have "map_find u ?cs = map_of (rev ?kvs) u"
      by (simp add: clients.find_assign_all clients.find_vacant split: option.split)
    also have "\<dots> = map_of ?kvs u"
      using dist by (subst map_of_inject_set [of "rev ?kvs" ?kvs, THEN iffD2]) (simp_all add: rev_map [symmetric])
    also have "\<dots> = find (\<lambda>dc. dc_clientUniqueID dc = u) dcs"
      by (induction dcs) auto
    finally show ?thesis .
  qed
  then show ?thesis
    using GetAllClients_eq [OF assms(1,3,4,5), of ndbg] assms(2) len by (simp add: Let_def)
qed

text \<open>A reconnect keeps the machines it had cached. When the table has become smaller than the
  cache, the size check fails and a build with assertions aborts.\<close>

theorem reconnect_after_deletion:
  assumes "db_conn s = Conn_live True" and "map_keys_distinct (db_clients s)"
    and "px_exec px ''SELECT * from \"Client\"'' (db_data s) = Inr (rows, d)" and "px_commit px d = None"
    and "map (client_of_row px) rows = map Inr dcs" and "length rows < length (db_clients s)"
  shows "GetAllClients px False s = Inl Assert_failed"
proof -
  have "length (db_clients s) \<le>
      length (fold (\<lambda>kv. map_assign (fst kv) (snd kv)) (map (\<lambda>d. (dc_clientUniqueID d, d)) dcs) (db_clients s))"
    by (rule clients.count_assign_all_ge [OF assms(2)])
  with assms(6) show ?thesis
    using GetAllClients_eq [OF assms(1,3,4,5), of False] by (simp add: Let_def)
qed

theorem first_connect_cache_witness:
  "\<exists>s'. GetAllClients sample_px False (sample_database\<lparr>db_data := \<lparr>tab_clients =
        [[''1'', ''h'', ''Linux'', ''5'', ''m1'', ''t''], [''2'', ''k'', ''Windows'', ''10'', ''m2'', ''t'']],
        tab_events = []\<rparr>\<rparr>) = Inr s'
    \<and> map_option dc_clientID (map_find ''m2'' (db_clients s')) = Some 2
    \<and> map_find ''m3'' (db_clients s') = None"
  using first_connect_cache [of "sample_database\<lparr>db_data := \<lparr>tab_clients =
        [[''1'', ''h'', ''Linux'', ''5'', ''m1'', ''t''], [''2'', ''k'', ''Windows'', ''10'', ''m2'', ''t'']],
        tab_events = []\<rparr>\<rparr>" sample_px
      "[[''1'', ''h'', ''Linux'', ''5'', ''m1'', ''t''], [''2'', ''k'', ''Windows'', ''10'', ''m2'', ''t'']]" _
      "[\<lparr>dc_clientID = 1, dc_clientName = ''h'', dc_clientOs = Some os_linux, dc_clientOsVersion = ''5'',
         dc_clientUniqueID = ''m1'', dc_clientRegisterTime = ''t''\<rparr>,
        \<lparr>dc_clientID = 2, dc_clientName = ''k'', dc_clientOs = Some os_windows, dc_clientOsVersion = ''10'',
         dc_clientUniqueID = ''m2'', dc_clientRegisterTime = ''t''\<rparr>]" False]
  by (auto simp: sample_database_def with_statements_def InitDatabase_def sample_px_def sample_exec_def
      client_of_row_def field_clientID_def int_of_long_def field_def is_digit_def c_str_def dispatch_os_text_def)

theorem reconnect_after_deletion_witness:
  "GetAllClients sample_px False (sample_database\<lparr>db_clients :=
      [(''m1'', \<lparr>dc_clientID = 1, dc_clientName = ''h'', dc_clientOs = None, dc_clientOsVersion = ''5'',
         dc_clientUniqueID = ''m1'', dc_clientRegisterTime = ''t''\<rparr>)]\<rparr>) = Inl Assert_failed"
  by (rule reconnect_after_deletion [where rows = "[]" and dcs = "[]"])
    (simp_all add: sample_database_def with_statements_def InitDatabase_def sample_px_def
      sample_exec_def map_keys_distinct_def)

section \<open>Connecting\<close>

text \<open>
  The connection before attempt \<open>t\<close>, as long as no attempt has given an open one: the one there was,
  or the closed one of the attempt before, or one that was deleted when that attempt threw; only if
  there never was one, the pointer is still null. An attempt that throws deletes it.
\<close>

definition conn_before :: "(nat \<Rightarrow> attempt) \<Rightarrow> connection \<Rightarrow> nat \<Rightarrow> connection" where
  "conn_before attempt conn t =
     (if t = 0 then conn
      else case attempt (t - 1) of
             Opens b \<Rightarrow> Conn_live b
           | Throws \<Rightarrow> if conn = Conn_null \<and> (\<forall>u<t. attempt u = Throws) then Conn_null else Conn_deleted)"

definition deletes_twice :: "(nat \<Rightarrow> attempt) \<Rightarrow> connection \<Rightarrow> nat \<Rightarrow> bool" where
  "deletes_twice attempt conn n \<longleftrightarrow> (\<exists>t<n. attempt t = Throws \<and> conn_before attempt conn t = Conn_deleted)"

definition seconds_slept :: "(nat \<Rightarrow> attempt) \<Rightarrow> nat \<Rightarrow> nat" where
  "seconds_slept attempt n = (\<Sum>t<n. if attempt t = Throws then 2 ^ t else 0)"

lemma connect_loop_upto:
  assumes "n \<le> 5" and "\<And>t. t < n \<Longrightarrow> attempt t \<noteq> Opens True"
  shows "connect_loop attempt 0 0 conn =
    (if deletes_twice attempt conn n then Inl (Undefined Double_free)
     else connect_loop attempt n (seconds_slept attempt n) (conn_before attempt conn n))"
  using assms
proof (induction n)
  case 0
  show ?case by (simp add: deletes_twice_def seconds_slept_def conn_before_def)
next
  case (Suc n)
  let ?c = "conn_before attempt conn n"
  have twice: "deletes_twice attempt conn (Suc n)
      \<longleftrightarrow> deletes_twice attempt conn n \<or> attempt n = Throws \<and> ?c = Conn_deleted"
    by (auto simp: deletes_twice_def less_Suc_eq)
  have step: "connect_loop attempt n (seconds_slept attempt n) ?c =
      (if attempt n = Throws \<and> ?c = Conn_deleted then Inl (Undefined Double_free)
       else connect_loop attempt (Suc n) (seconds_slept attempt (Suc n)) (conn_before attempt conn (Suc n)))"
  proof (cases "attempt n")
    case (Opens b)
    with Suc.prems show ?thesis
      by (cases b) (simp_all add: connect_loop.simps [of _ n] conn_before_def seconds_slept_def)
  next
    case Throws
    have "?c = Conn_null \<longleftrightarrow> conn = Conn_null \<and> (\<forall>u<n. attempt u = Throws)"
      by (auto simp: conn_before_def split: attempt.splits dest: spec [of _ "n - 1"])
    then have next_conn: "conn_before attempt conn (Suc n) = (if ?c = Conn_null then Conn_null else Conn_deleted)"
      using Throws by (auto simp: conn_before_def less_Suc_eq)
    show ?thesis
      using Suc.prems Throws next_conn
      by (cases ?c) (simp_all add: connect_loop.simps [of _ n] seconds_slept_def)
  qed
  have prev: "connect_loop attempt 0 0 conn =
    (if deletes_twice attempt conn n then Inl (Undefined Double_free)
     else connect_loop attempt n (seconds_slept attempt n) ?c)" using Suc.IH Suc.prems by simp
  show ?case unfolding prev step twice by auto
qed

lemma all_throw:
  assumes "\<And>t. t < n \<Longrightarrow> attempt t = Throws"
  shows "\<not> deletes_twice attempt Conn_null n" and "seconds_slept attempt n = 2 ^ n - 1"
    and "conn_before attempt Conn_null n = Conn_null"
proof -
  show "\<not> deletes_twice attempt Conn_null n" "conn_before attempt Conn_null n = Conn_null"
    using assms by (auto simp: deletes_twice_def conn_before_def)
  from assms show "seconds_slept attempt n = 2 ^ n - 1"
    by (induction n) (simp_all add: seconds_slept_def)
qed

text \<open>C36. When attempt number \<open>k\<close> of the five, counted from 0, is the first to give an open connection,
  the loop ends with it, having slept \<open>2 ^ t\<close> seconds after every attempt \<open>t\<close> that threw, at most
  fifteen, unless an attempt threw before it that found the connection already deleted: then it is
  deleted twice. At startup, where there is no connection yet, nothing is deleted as long as every
  attempt throws, and the sleep is \<open>2 ^ k - 1\<close> seconds.\<close>

theorem connect_backoff:
  assumes "k < 5" and "\<And>t. t < k \<Longrightarrow> attempt t \<noteq> Opens True" and "attempt k = Opens True"
  shows "connect_loop attempt 0 0 conn =
      (if deletes_twice attempt conn k then Inl (Undefined Double_free)
       else Inr (Conn_live True, seconds_slept attempt k))
    \<and> seconds_slept attempt k \<le> 15
    \<and> ((\<forall>t<k. attempt t = Throws) \<longrightarrow> connect_loop attempt 0 0 Conn_null = Inr (Conn_live True, 2 ^ k - 1))"
proof -
  have loop: "connect_loop attempt 0 0 c = (if deletes_twice attempt c k then Inl (Undefined Double_free)
       else Inr (Conn_live True, seconds_slept attempt k))" for c
    using connect_loop_upto [of k attempt c] assms by (simp add: connect_loop.simps [of _ k])
  have "seconds_slept attempt k \<le> (\<Sum>t<k. 2 ^ t)"
    unfolding seconds_slept_def by (rule sum_mono) simp
  also have "\<dots> \<le> (\<Sum>t<4. 2 ^ t)"
    using assms(1) by (intro sum_mono2) auto
  finally have "seconds_slept attempt k \<le> 15" by (simp add: eval_nat_numeral)
  with loop [of conn] loop [of Conn_null] all_throw [of k attempt] show ?thesis by auto
qed

theorem connect_backoff_witness:
  "connect_loop (\<lambda>t. if t < 4 then Throws else Opens True) 0 0 Conn_null = Inr (Conn_live True, 15)
   \<and> connect_loop (\<lambda>t. if t < 2 then Throws else Opens True) 0 0 (Conn_live False) = Inl (Undefined Double_free)"
proof -
  have "deletes_twice (\<lambda>t. if t < 2 then Throws else Opens True) (Conn_live False) 2"
    unfolding deletes_twice_def by (rule exI [of _ 1]) (simp add: conn_before_def)
  with connect_backoff [of 4 "\<lambda>t. if t < 4 then Throws else Opens True" "Conn_live True"]
    connect_backoff [of 2 "\<lambda>t. if t < 2 then Throws else Opens True" "Conn_live False"]
  show ?thesis by simp
qed

text \<open>
  Once the server is reached, the first connect loads the cache and defines the three statements. A
  version of the library that sends a statement when it is defined fails on the first of them when
  the table lacks a column that it names.
\<close>

lemma prepare_statements_ok:
  assumes "\<And>n q. px_prepare px n q (db_data s) = None"
  shows "prepare_statements px s = Inr (with_statements s)"
  using assms by (simp add: prepare_statements_def prepare_def with_statements_def)

lemma prepare_statements_fails:
  assumes "px_prepare px ''insertEvent'' insertEvent_sql (db_data s) = Some e"
  shows "prepare_statements px s = Inl (Uncaught e)"
  using assms by (simp add: prepare_statements_def prepare_def)

text \<open>When no attempt reaches the server, \<open>Connect\<close> does not report failure. At startup it
  reads the status of a connection that was never created; on a reconnect it deletes the old
  connection a second time.\<close>

theorem connect_unreachable:
  assumes "\<And>t. t < 5 \<Longrightarrow> attempt t = Throws"
  shows "DB_Connect px ndbg attempt s =
    Inl (Undefined (if db_conn s = Conn_null then Null_deref else Double_free))"
proof (cases "db_conn s = Conn_null")
  case True
  have "connect_loop attempt 0 0 Conn_null = Inr (Conn_null, 31)"
    using connect_loop_upto [of 5 attempt Conn_null] all_throw [of 5 attempt] assms
    by (simp add: connect_loop.simps [of _ 5])
  with True show ?thesis by (simp add: DB_Connect_def deref_conn_def Let_def)
next
  case False
  then have "conn_before attempt (db_conn s) 1 = Conn_deleted"
    using assms [of 0] by (simp add: conn_before_def)
  then have "deletes_twice attempt (db_conn s) 5"
    unfolding deletes_twice_def using assms [of 1] by (intro exI [of _ 1]) simp
  with False assms show ?thesis
    using connect_loop_upto [of 5 attempt "db_conn s"] by (simp add: DB_Connect_def)
qed

theorem connect_unreachable_witness:
  "DB_Connect sample_px False (\<lambda>_. Throws) (InitDatabase ''x'' \<lparr>tab_clients = [], tab_events = []\<rparr>) =
   Inl (Undefined Null_deref)"
  using connect_unreachable [of "\<lambda>_. Throws" sample_px False "InitDatabase ''x'' \<lparr>tab_clients = [], tab_events = []\<rparr>"]
  by (simp add: InitDatabase_def)

end
