(* ===== verification/Decoder_Refinement.thy ===== *)
theory Decoder_Refinement
  imports Packet_Codec
begin

text \<open>
  What \<open>ProtobufPacketDecoder\<close> promises, as a function on the bytes received so far, and the
  proof that the incremental decoder computes it: the abstract stream, the invariant of the
  decoder, the simulation, and the interface of a decoder that is fed in chunks.
\<close>

section \<open>The abstract stream\<close>

text \<open>
  Static state, queue, and the bytes not yet turned into a message. A frame is taken off as soon
  as a byte beyond the header has arrived and the body is complete; a header that announces an
  empty body sends the code into an endless recursion.
\<close>

type_synonym stream = "statics \<times> message option list \<times> byte list"

function consume :: "env \<Rightarrow> statics \<Rightarrow> message option list \<Rightarrow> byte list \<Rightarrow> stream outcome" where
  "consume en st q bs =
     (if length bs \<le> 40 then Inr (st, q, bs)
      else let size = load_be32 (drop 4 bs)
           in if size = 0 then Inl Stack_overflow
              else if length bs < 40 + unat size then Inr (st, q, bs)
              else bind_out (open_body en st (load_be32 bs) size (take 40 bs)
                               (take (unat size) (drop 40 bs))) (\<lambda>(ret, st').
                   bind_out (c_assert (ndebug en) (ret \<noteq> None)) (\<lambda>_.
                     consume en st' (q @ [ret]) (drop (40 + unat size) bs))))"
  by pat_completeness auto
termination
  by (relation "measure (\<lambda>(en, st, q, bs). length bs)") auto

declare consume.simps [simp del]

definition stream_feed :: "env \<Rightarrow> stream \<Rightarrow> byte list \<Rightarrow> stream outcome" where
  "stream_feed en s data = (case s of (st, q, bs) \<Rightarrow> consume en st q (bs @ data))"

lemma load_be32_append: "4 \<le> length xs \<Longrightarrow> load_be32 (xs @ ys) = load_be32 xs"
  using load_be32_take [of "length xs" "xs @ ys"] by simp

lemma consume_wait:
  "length bs \<le> 40 \<Longrightarrow> consume en st q bs = Inr (st, q, bs)"
  "load_be32 (drop 4 bs) \<noteq> 0 \<Longrightarrow> length bs < 40 + unat (load_be32 (drop 4 bs)) \<Longrightarrow>
     consume en st q bs = Inr (st, q, bs)"
  by (simp_all add: consume.simps Let_def)

lemma consume_zero:
  "40 < length bs \<Longrightarrow> load_be32 (drop 4 bs) = 0 \<Longrightarrow> consume en st q bs = Inl Stack_overflow"
  by (simp add: consume.simps)

lemma consume_frame:
  "40 < length bs \<Longrightarrow> load_be32 (drop 4 bs) \<noteq> 0 \<Longrightarrow>
     40 + unat (load_be32 (drop 4 bs)) \<le> length bs \<Longrightarrow>
     consume en st q bs =
       bind_out (open_body en st (load_be32 bs) (load_be32 (drop 4 bs)) (take 40 bs)
                  (take (unat (load_be32 (drop 4 bs))) (drop 40 bs))) (\<lambda>(ret, st').
       bind_out (c_assert (ndebug en) (ret \<noteq> None)) (\<lambda>_.
         consume en st' (q @ [ret]) (drop (40 + unat (load_be32 (drop 4 bs))) bs)))"
  by (subst consume.simps) (simp add: Let_def)

text \<open>Consuming in two steps: what the first leaves is completed by the second.\<close>

lemma consume_append:
  "consume en st q (xs @ ys) =
     bind_out (consume en st q xs) (\<lambda>(st', q', bs). consume en st' q' (bs @ ys))"
proof (induction xs arbitrary: st q rule: length_induct)
  case (1 xs)
  let ?size = "load_be32 (drop 4 xs)"
  have size: "40 < length xs \<Longrightarrow> load_be32 (drop 4 (xs @ ys)) = ?size"
    "40 < length xs \<Longrightarrow> load_be32 (xs @ ys) = load_be32 xs"
    by (simp_all add: load_be32_append)
  consider "length xs \<le> 40" | "40 < length xs" "?size = 0"
    | "40 < length xs" "?size \<noteq> 0" "length xs < 40 + unat ?size"
    | "40 < length xs" "?size \<noteq> 0" "40 + unat ?size \<le> length xs"
    by linarith
  then show ?case
  proof cases
    case 1 then show ?thesis by (simp add: consume_wait)
  next
    case 2 with size show ?thesis by (simp add: consume_zero)
  next
    case 3 then show ?thesis by (simp add: consume_wait)
  next
    case 4
    let ?rest = "drop (40 + unat ?size) xs"
    have "length ?rest < length xs" using 4 by simp
    with "1.IH" have IH: "\<And>st q. consume en st q (?rest @ ys) =
        bind_out (consume en st q ?rest) (\<lambda>(st', q', bs). consume en st' q' (bs @ ys))"
      by blast
    have parts: "take 40 (xs @ ys) = take 40 xs"
      "take (unat ?size) (drop 40 (xs @ ys)) = take (unat ?size) (drop 40 xs)"
      "drop (40 + unat ?size) (xs @ ys) = ?rest @ ys"
      using 4 by auto
    have l: "40 < length (xs @ ys)" "load_be32 (drop 4 (xs @ ys)) \<noteq> 0"
      "40 + unat (load_be32 (drop 4 (xs @ ys))) \<le> length (xs @ ys)"
      using 4 size(1) by auto
    have "consume en st q (xs @ ys) =
      bind_out (open_body en st (load_be32 xs) ?size (take 40 xs)
                 (take (unat ?size) (drop 40 xs))) (\<lambda>(ret, st').
       bind_out (c_assert (ndebug en) (ret \<noteq> None)) (\<lambda>_.
         consume en st' (q @ [ret]) (?rest @ ys)))"
      by (simp only: consume_frame [OF l] size [OF 4(1)] parts)
    then show ?thesis
      by (simp add: consume_frame [OF 4] IH bind_out_assoc split_def)
  qed
qed

text \<open>The contract of a stream that is fed in chunks.\<close>

lemma stream_feed_append:
  "stream_feed en s (xs @ ys) = bind_out (stream_feed en s xs) (\<lambda>s'. stream_feed en s' ys)"
proof (cases s)
  case (fields st q bs)
  then show ?thesis
    using consume_append [of en st q "bs @ xs" ys] by (simp add: stream_feed_def split_def)
qed

section \<open>The invariant of the decoder\<close>

text \<open>
  Between two operations the stream is good and the header buffer has its length. With no frame
  open, the stream is empty and \<open>headerSize\<close> bytes of the next header are there. With a frame
  open, the header is complete, the sizes are those it announces, the stream holds what has come
  of the body, and something is still missing.
\<close>

definition decoder_inv :: "decoder \<Rightarrow> bool" where
  "decoder_inv d \<longleftrightarrow>
     ss_good (inbuf d) \<and> length (header_buffer d) = 40 \<and> unat (headerSize d) \<le> 40
     \<and> (if compressSize d = 0 then ss_data (inbuf d) = []
        else unat (headerSize d) = 40
          \<and> compressSize d = load_be32 (drop 4 (header_buffer d))
          \<and> serialSize d = load_be32 (header_buffer d)
          \<and> 0 < remainSize d \<and> remainSize d \<le> compressSize d
          \<and> length (ss_data (inbuf d)) = unat (compressSize d) - unat (remainSize d))"

text \<open>The bytes the decoder has taken in and not yet turned into a message.\<close>

definition pending :: "decoder \<Rightarrow> byte list" where
  "pending d =
     (if compressSize d = 0 then take (unat (headerSize d)) (header_buffer d)
      else header_buffer d @ ss_data (inbuf d))"

definition stream_of :: "statics \<times> decoder \<Rightarrow> stream" where
  "stream_of s = (case s of (st, d) \<Rightarrow> (st, vec d, pending d))"

lemma decoder_inv_new: "decoder_inv new_decoder" "pending new_decoder = []"
  by (simp_all add: decoder_inv_def new_decoder_def ss_empty_def pending_def)

text \<open>A result of the code against a result of the abstract stream.\<close>

definition simulates :: "(statics \<times> decoder) outcome \<Rightarrow> stream outcome \<Rightarrow> bool" where
  "simulates r s \<longleftrightarrow>
     (case r of Inl f \<Rightarrow> s = Inl f
      | Inr (st, d) \<Rightarrow> decoder_inv d \<and> s = Inr (st, vec d, pending d))"

lemma simulates_simps [simp]:
  "simulates (Inl f) s \<longleftrightarrow> s = Inl f"
  "simulates (Inr (st, d)) s \<longleftrightarrow> decoder_inv d \<and> s = Inr (st, vec d, pending d)"
  by (simp_all add: simulates_def)

section \<open>The pieces of a read\<close>

lemma fill_header_spec:
  assumes "length (header_buffer d) = 40" and "unat (headerSize d) \<le> 40"
    and "fill_header d data = (d', rest)"
  shows "rest = drop (40 - unat (headerSize d)) data
    \<and> unat (headerSize d') = min 40 (unat (headerSize d) + length data)
    \<and> length (header_buffer d') = 40
    \<and> take (unat (headerSize d')) (header_buffer d') =
        take (unat (headerSize d)) (header_buffer d) @ take (40 - unat (headerSize d)) data
    \<and> vec d' = vec d \<and> inbuf d' = inbuf d \<and> compressSize d' = compressSize d"
  using assms
proof (induction d data rule: fill_header.induct)
  case (2 d x xs)
  show ?case
  proof (cases "unat (headerSize d) < 40")
    case True
    let ?d = "d\<lparr>header_buffer := (header_buffer d)[unat (headerSize d) := x],
                headerSize := headerSize d + 1\<rparr>"
    have suc: "unat (headerSize d + 1) = Suc (unat (headerSize d))"
      using True by (simp add: unat_word_ariths)
    have "fill_header ?d xs = (d', rest)" using 2 True by simp
    from "2.IH" [OF _ _ _ this] 2 True suc show ?thesis
      by (auto simp: take_Suc_conv_app_nth Suc_diff_Suc take_Cons' drop_Cons')
  next
    case False
    with 2 show ?thesis by auto
  qed
qed auto

text \<open>A header that announces an empty body: the two functions call each other for ever.\<close>

lemma zero_size_diverges:
  assumes "unat (headerSize d) = 40" and "compressSize d = 0"
    and "load_be32 (drop 4 (header_buffer d)) = 0"
  shows "read_impl n en st d data = Inl Stack_overflow"
    and "parseHeader n en st d data = Inl Stack_overflow"
  using assms
proof (induction n arbitrary: d)
  case (Suc n)
  {
    case 1
    with Suc.IH(2) [of d] show ?case by simp
  next
    case 2
    with Suc.IH(1) [of "d\<lparr>compressSize := 0, remainSize := 0,
      serialSize := load_be32 (header_buffer d)\<rparr>"] show ?case by simp
  }
qed simp_all

lemma decoder_inv_open:
  assumes "decoder_inv d" and "compressSize d \<noteq> 0"
  shows "ss_good (inbuf d)" and "length (header_buffer d) = 40" and "unat (headerSize d) = 40"
    and "compressSize d = load_be32 (drop 4 (header_buffer d))"
    and "serialSize d = load_be32 (header_buffer d)"
    and "0 < remainSize d" and "remainSize d \<le> compressSize d"
    and "length (ss_data (inbuf d)) = unat (compressSize d) - unat (remainSize d)"
  using assms unfolding decoder_inv_def by metis+

lemma decoder_inv_closed:
  assumes "decoder_inv d" and "compressSize d = 0"
  shows "ss_good (inbuf d)" and "length (header_buffer d) = 40" and "unat (headerSize d) \<le> 40"
    and "ss_data (inbuf d) = []"
  using assms unfolding decoder_inv_def by metis+

text \<open>Completing the open frame is opening the body the abstract stream cuts off.\<close>

lemma complete_body_spec:
  assumes inv: "decoder_inv d" and open_frame: "compressSize d \<noteq> 0"
    and enough: "unat (remainSize d) \<le> length data"
  shows "complete_body en st d data =
    bind_out (open_body en st (serialSize d) (compressSize d) (header_buffer d)
               (take (unat (compressSize d)) (ss_data (inbuf d) @ data))) (\<lambda>(ret, st').
    bind_out (c_assert (ndebug en) (ret \<noteq> None)) (\<lambda>_.
      Inr (ret, st', (vec_push ret (d\<lparr>inbuf := (inbuf d)\<lparr>ss_data := []\<rparr>\<rparr>))
                       \<lparr>compressSize := 0, headerSize := 0\<rparr>)))"
proof -
  note le = decoder_inv_open(7) [OF inv open_frame]
    and stored = decoder_inv_open(8) [OF inv open_frame]
    and good = decoder_inv_open(1) [OF inv open_frame]
  have need: "unat (compressSize d - remainSize d) = length (ss_data (inbuf d))"
    using le stored by (simp add: unat_sub)
  have "take (unat (compressSize d)) (ss_data (inbuf d) @ data) =
      ss_data (inbuf d) @ take (unat (remainSize d)) data"
    using le stored by (simp add: word_le_nat_alt)
  then show ?thesis
    using good by (simp add: complete_body_def ss_read_def need split_def)
qed

text \<open>Data that does not complete the open frame is stored.\<close>

lemma store_body_spec:
  assumes inv: "decoder_inv d" and open_frame: "compressSize d \<noteq> 0"
    and short: "length data < unat (remainSize d)"
  defines "d' \<equiv> d\<lparr>inbuf := ss_write data (inbuf d), remainSize := remainSize d - of_nat (length data)\<rparr>"
  shows "decoder_inv d'" and "pending d' = pending d @ data" and "vec d' = vec d"
    and "remainSize d' \<le> compressSize d'" and "ss_good (inbuf d')"
    and "consume en st q (pending d @ data) = Inr (st, q, pending d @ data)"
proof -
  note le = decoder_inv_open(7) [OF inv open_frame]
    and hdr = decoder_inv_open(2,4) [OF inv open_frame]
    and stored = decoder_inv_open(8) [OF inv open_frame]
    and good = decoder_inv_open(1) [OF inv open_frame]
  have "unat (remainSize d) < 2 ^ LENGTH(32)"
    by (rule unsigned_less)
  with short have len: "unat (of_nat (length data) :: u32) = length data"
    by (simp add: unat_of_nat)
  then have rem: "unat (remainSize d - of_nat (length data)) = unat (remainSize d) - length data"
    using short by (subst unat_sub) (simp_all add: word_le_nat_alt)
  with short have pos: "0 < remainSize d - of_nat (length data)"
    by (simp add: word_less_nat_alt)
  show le': "remainSize d' \<le> compressSize d'"
    using le rem by (simp add: d'_def word_le_nat_alt)
  show "decoder_inv d'"
    using inv open_frame le' rem pos short stored le
    by (simp add: decoder_inv_def d'_def ss_write_def word_le_nat_alt)
  show "pending d' = pending d @ data" "vec d' = vec d" "ss_good (inbuf d')"
    using open_frame good by (simp_all add: pending_def d'_def ss_write_def)
  have "load_be32 (drop 4 (pending d @ data)) = compressSize d"
    using open_frame hdr by (simp add: pending_def load_be32_append)
  moreover have "length (pending d @ data) < 40 + unat (compressSize d)"
    using open_frame hdr stored short le by (simp add: pending_def word_le_nat_alt)
  ultimately show "consume en st q (pending d @ data) = Inr (st, q, pending d @ data)"
    using open_frame by (intro consume_wait(2)) simp_all
qed

text \<open>A decoder that has just read a complete, non-empty header.\<close>

lemma opened_header_inv:
  assumes "unat (headerSize d) = 40" and "compressSize d = 0" and "length (header_buffer d) = 40"
    and "ss_good (inbuf d)" and "ss_data (inbuf d) = []"
    and "sz = load_be32 (drop 4 (header_buffer d))" and "sz \<noteq> 0"
  defines "d' \<equiv> d\<lparr>compressSize := sz, remainSize := sz, serialSize := load_be32 (header_buffer d)\<rparr>"
  shows "decoder_inv d'" and "pending d' = header_buffer d" and "vec d' = vec d"
  using assms by (simp_all add: decoder_inv_def pending_def word_neq_0_conv)

section \<open>The simulation\<close>

text \<open>
  What the two functions owe at depth \<open>n\<close>. The header of an empty body is acted on only when
  another call comes, so a call without data on a complete header is left out.
\<close>

definition read_sim :: "env \<Rightarrow> nat \<Rightarrow> bool" where
  "read_sim en n \<longleftrightarrow> (\<forall>st d data.
     decoder_inv d \<longrightarrow> data \<noteq> [] \<or> compressSize d \<noteq> 0 \<or> unat (headerSize d) < 40 \<longrightarrow>
     2 * length data + (if compressSize d = 0 then 3 else 1) \<le> n \<longrightarrow>
     simulates (map_sum id snd (read_impl n en st d data))
       (consume en st (vec d) (pending d @ data)))"

definition parse_sim :: "env \<Rightarrow> nat \<Rightarrow> bool" where
  "parse_sim en n \<longleftrightarrow> (\<forall>st d data.
     decoder_inv d \<longrightarrow> compressSize d = 0 \<longrightarrow> data \<noteq> [] \<or> unat (headerSize d) < 40 \<longrightarrow>
     2 * length data + 2 \<le> n \<longrightarrow>
     simulates (parseHeader n en st d data) (consume en st (vec d) (pending d @ data)))"

text \<open>The final assertion of \<open>_read\<close> holds whenever the invariant does.\<close>

lemma simulates_final_assert:
  assumes "simulates (map_sum id snd r) s"
  shows "simulates (map_sum id snd (bind_out r (\<lambda>(ret, st, d).
    bind_out (c_assert nd (ss_good (inbuf d))) (\<lambda>_. Inr (ret, st, d))))) s"
  using assms by (cases r) (auto simp: decoder_inv_def)

lemma simulates_ret:
  "simulates (map_sum id snd (bind_out r (\<lambda>p. Inr (ret, p)))) s \<longleftrightarrow> simulates r s"
  by (cases r) auto

lemma simulates_drop_ret:
  "simulates (bind_out r (\<lambda>(_, y). Inr y)) s \<longleftrightarrow> simulates (map_sum id snd r) s"
  by (cases r) auto

text \<open>A fresh header after a completed frame.\<close>

lemma completed_inv:
  fixes ret :: "message option"
  assumes "decoder_inv d" and "compressSize d \<noteq> 0"
  defines "d' \<equiv> (vec_push ret (d\<lparr>inbuf := (inbuf d)\<lparr>ss_data := []\<rparr>\<rparr>))
    \<lparr>headerSize := 0, remainSize := 0, compressSize := 0\<rparr>"
  shows "decoder_inv d'" and "pending d' = []" and "vec d' = vec d @ [ret]"
    and "compressSize d' = 0" and "unat (headerSize d') < 40"
  using decoder_inv_open [OF assms(1,2)]
  by (simp_all add: decoder_inv_def d'_def vec_push_def pending_def)

lemma read_sim_open:
  assumes sim: "parse_sim en n" and inv: "decoder_inv d" and frame: "compressSize d \<noteq> 0"
    and enough: "unat (remainSize d) \<le> length data" and depth: "2 * length data \<le> n"
  shows "simulates (map_sum id snd (bind_out (complete_body en st d data) (\<lambda>(ret, st', d').
      bind_out (parseHeader n en st' (d'\<lparr>headerSize := 0, remainSize := 0, compressSize := 0\<rparr>)
                  (drop (unat (remainSize d)) data)) (\<lambda>(st'', d''). Inr (ret, st'', d'')))))
    (consume en st (vec d) (pending d @ data))"
proof -
  note hdr = decoder_inv_open [OF inv frame]
  have pos: "0 < unat (remainSize d)" and le: "unat (remainSize d) \<le> unat (compressSize d)"
    using hdr(6,7) by (simp_all add: word_less_nat_alt word_le_nat_alt)
  let ?bs = "pending d @ data" and ?rest = "drop (unat (remainSize d)) data"
  have bs: "?bs = header_buffer d @ ss_data (inbuf d) @ data"
    using frame by (simp add: pending_def)
  have sz: "load_be32 (drop 4 ?bs) = compressSize d" "load_be32 ?bs = serialSize d"
    using hdr(2,4,5) by (simp_all add: bs load_be32_append)
  have cut: "take 40 ?bs = header_buffer d"
    "take (unat (compressSize d)) (drop 40 ?bs) =
       take (unat (compressSize d)) (ss_data (inbuf d) @ data)"
    "drop (40 + unat (compressSize d)) ?bs = ?rest"
    using hdr(2,8) le by (simp_all add: bs)
  have "40 < length ?bs" "40 + unat (compressSize d) \<le> length ?bs"
    using hdr(2,8) enough le pos by (simp_all add: bs)
  then have spec: "consume en st (vec d) ?bs =
      bind_out (open_body en st (serialSize d) (compressSize d) (header_buffer d)
                 (take (unat (compressSize d)) (ss_data (inbuf d) @ data))) (\<lambda>(ret, st').
      bind_out (c_assert (ndebug en) (ret \<noteq> None)) (\<lambda>_. consume en st' (vec d @ [ret]) ?rest))"
    using consume_frame [of ?bs en st "vec d"] frame by (simp only: sz cut) simp
  have rest: "simulates (parseHeader n en st'
        ((vec_push ret (d\<lparr>inbuf := (inbuf d)\<lparr>ss_data := []\<rparr>\<rparr>))
          \<lparr>headerSize := 0, remainSize := 0, compressSize := 0\<rparr>) ?rest)
      (consume en st' (vec d @ [ret]) ?rest)" for ret st'
  proof -
    have "2 * length ?rest + 2 \<le> n" using depth pos enough by simp
    with sim completed_inv [OF inv frame, of ret] show ?thesis
      unfolding parse_sim_def by (metis append_Nil)
  qed
  show ?thesis
    unfolding spec complete_body_spec [OF inv frame enough]
    using rest by (cases "open_body en st (serialSize d) (compressSize d) (header_buffer d)
                 (take (unat (compressSize d)) (ss_data (inbuf d) @ data))")
      (auto simp: bind_out_assoc split_def c_assert_def simulates_ret)
qed

text \<open>One call of each function, given what the calls below it owe.\<close>

lemma read_sim_Suc:
  assumes sim: "parse_sim en n"
  shows "read_sim en (Suc n)"
  unfolding read_sim_def
proof (intro allI impI)
  fix st d and data :: "byte list"
  assume inv: "decoder_inv d" and go: "data \<noteq> [] \<or> compressSize d \<noteq> 0 \<or> unat (headerSize d) < 40"
    and depth: "2 * length data + (if compressSize d = 0 then 3 else 1) \<le> Suc n"
  show "simulates (map_sum id snd (read_impl (Suc n) en st d data))
      (consume en st (vec d) (pending d @ data))"
    unfolding read_impl.simps
  proof (rule simulates_final_assert)
    consider "compressSize d = 0" | "compressSize d \<noteq> 0" "unat (remainSize d) \<le> length data"
      | "compressSize d \<noteq> 0" "length data < unat (remainSize d)"
      by linarith
    then show "simulates (map_sum id snd
       (if compressSize d \<noteq> 0 then
          if unat (remainSize d) \<le> length data then
            bind_out (complete_body en st d data) (\<lambda>(ret, st', d').
            bind_out (parseHeader n en st'
                        (d'\<lparr>headerSize := 0, remainSize := 0, compressSize := 0\<rparr>)
                        (drop (unat (remainSize d)) data)) (\<lambda>(st'', d'').
            Inr (ret, st'', d'')))
          else
            (let d' = d\<lparr>inbuf := ss_write data (inbuf d),
                        remainSize := remainSize d - of_nat (length data)\<rparr>
             in bind_out (c_assert (ndebug en) (remainSize d' \<le> compressSize d')) (\<lambda>_.
                Inr (None, st, d')))
        else bind_out (parseHeader n en st d data) (\<lambda>(st', d'). Inr (None, st', d'))))
       (consume en st (vec d) (pending d @ data))"
    proof cases
      case 1
      with sim inv go depth
      have "simulates (parseHeader n en st d data) (consume en st (vec d) (pending d @ data))"
        unfolding parse_sim_def by simp
      with 1 show ?thesis by (simp add: simulates_ret split_def)
    next
      case 2
      with depth have "2 * length data \<le> n" by simp
      with read_sim_open [OF sim inv 2] 2 show ?thesis by simp
    next
      case 3
      with store_body_spec(1-5) [OF inv 3] store_body_spec(6) [OF inv 3, of en st "vec d"]
      show ?thesis by simp
    qed
  qed
qed

lemma parse_sim_Suc:
  assumes sim: "read_sim en n"
  shows "parse_sim en (Suc n)"
  unfolding parse_sim_def
proof (intro allI impI)
  fix st d and data :: "byte list"
  assume inv: "decoder_inv d" and closed: "compressSize d = 0"
    and go: "data \<noteq> [] \<or> unat (headerSize d) < 40" and depth: "2 * length data + 2 \<le> Suc n"
  note cl = decoder_inv_closed [OF inv closed]
  define d' where "d' = fst (if unat (headerSize d) < 40 then fill_header d data else (d, data))"
  define rest where "rest = snd (if unat (headerSize d) < 40 then fill_header d data else (d, data))"
  have eq: "(if unat (headerSize d) < PACKAGE_HEADER_SIZE then fill_header d data else (d, data)) = (d', rest)"
    by (simp add: d'_def rest_def)
  have f: "rest = drop (40 - unat (headerSize d)) data"
    "unat (headerSize d') = min 40 (unat (headerSize d) + length data)"
    "length (header_buffer d') = 40"
    "take (unat (headerSize d')) (header_buffer d') =
        take (unat (headerSize d)) (header_buffer d) @ take (40 - unat (headerSize d)) data"
    "vec d' = vec d" "inbuf d' = inbuf d" "compressSize d' = 0"
    using fill_header_spec [OF cl(2,3), of data d' rest] eq cl(2,3) closed
    by (auto split: if_splits)
  have bs: "pending d @ data = pending d' @ rest"
    using closed f by (simp add: pending_def)
  have inv': "decoder_inv d'"
    using f cl by (simp add: decoder_inv_def)
  show "simulates (parseHeader (Suc n) en st d data) (consume en st (vec d) (pending d @ data))"
  proof (cases "rest = []")
    case True
    with go f(1) have "unat (headerSize d) < 40" by (cases data) auto
    moreover have "length (pending d') \<le> 40" using f(3,7) by (simp add: pending_def)
    ultimately show ?thesis
      using True eq inv' f(5) bs by (simp add: consume_wait)
  next
    case False
    with f(1,2) cl(3) have full: "unat (headerSize d') = 40" by auto
    let ?size = "load_be32 (drop 4 (header_buffer d'))"
    let ?d = "d'\<lparr>compressSize := ?size, remainSize := ?size,
      serialSize := load_be32 (header_buffer d')\<rparr>"
    have step: "parseHeader (Suc n) en st d data =
        bind_out (read_impl n en st ?d rest) (\<lambda>(_, st', d''). Inr (st', d''))"
      using False full f(7) eq by (simp add: Let_def)
    show ?thesis
    proof (cases "?size = 0")
      case True
      have "read_impl n en st ?d rest = Inl Stack_overflow"
        using True full f(3) by (intro zero_size_diverges(1)) simp_all
      moreover have "consume en st (vec d) (pending d @ data) = Inl Stack_overflow"
        unfolding bs using False True full f(3,7)
        by (intro consume_zero) (simp_all add: pending_def load_be32_append)
      ultimately show ?thesis using step by simp
    next
      case nonzero: False
      note op = opened_header_inv [OF full f(7) f(3) _ _ refl nonzero]
      have inv_d: "decoder_inv ?d" and pend: "pending ?d = header_buffer d'" and vec: "vec ?d = vec d"
        using op cl f by simp_all
      have "2 * length rest + 1 \<le> n" using depth f(1) by simp
      then have "simulates (map_sum id snd (read_impl n en st ?d rest))
          (consume en st (vec ?d) (pending ?d @ rest))"
        using sim [unfolded read_sim_def, rule_format, OF inv_d, of rest st] nonzero by simp
      moreover have "pending d' = header_buffer d'"
        using full f(3,7) by (simp add: pending_def)
      ultimately have "simulates (map_sum id snd (read_impl n en st ?d rest))
          (consume en st (vec d) (pending d @ data))"
        by (simp only: vec pend bs)
      then show ?thesis unfolding step by (simp add: simulates_drop_ret)
    qed
  qed
qed

lemma read_parse_sim: "read_sim en n \<and> parse_sim en n"
proof (induction n)
  case 0
  show ?case by (simp add: read_sim_def parse_sim_def)
next
  case (Suc n)
  then show ?case by (simp add: read_sim_Suc parse_sim_Suc)
qed


text \<open>
  The depth of calls matters only while it is too small: a result other than an exhausted stack
  stays the same at every greater depth.
\<close>

definition settled :: "'a outcome \<Rightarrow> 'a outcome \<Rightarrow> bool" where
  "settled r r' \<longleftrightarrow> (r \<noteq> Inl Stack_overflow \<longrightarrow> r' = r)"

lemma settled_refl [simp]: "settled r r"
  by (simp add: settled_def)

lemma settled_bind:
  "settled m m' \<Longrightarrow> (\<And>x. settled (k x) (k' x)) \<Longrightarrow> settled (bind_out m k) (bind_out m' k')"
  by (cases m) (auto simp: settled_def)

lemma settled_if:
  "(c \<Longrightarrow> settled a a') \<Longrightarrow> (\<not> c \<Longrightarrow> settled b b') \<Longrightarrow>
     settled (if c then a else b) (if c then a' else b')"
  by simp

lemma settled_prod: "(\<And>x y. settled (f x y) (g x y)) \<Longrightarrow> settled (case p of (x, y) \<Rightarrow> f x y) (case p of (x, y) \<Rightarrow> g x y)"
  by (simp add: split_def)

lemmas settled_intros = settled_bind settled_if settled_prod settled_refl

lemma depth_step:
  "settled (read_impl n en st d data) (read_impl (Suc n) en st d data)"
  "settled (parseHeader n en st d data) (parseHeader (Suc n) en st d data)"
proof (induction n arbitrary: st d data)
  case 0
  {
    case 1 show ?case by (simp add: settled_def)
  next
    case 2 show ?case by (simp add: settled_def)
  }
next
  case (Suc n)
  {
    case 1
    show ?case
      unfolding read_impl.simps(2) [of "Suc n"] read_impl.simps(2) [of n]
      by (intro settled_intros Suc.IH)
  next
    case 2
    show ?case
      unfolding parseHeader.simps(2) [of "Suc n"] parseHeader.simps(2) [of n] Let_def
      by (intro settled_intros Suc.IH)
  }
qed

lemma depth_mono:
  "n \<le> k \<Longrightarrow> settled (read_impl n en st d data) (read_impl k en st d data)"
proof (induction k rule: dec_induct)
  case (step k)
  with depth_step(1) [of k en st d data] show ?case by (simp add: settled_def)
qed simp

section \<open>Decoders fed in chunks\<close>

text \<open>
  The interface between a decoder and the code that hands it what the network delivers. A
  stream of bytes is processed step by step, and steps over adjacent pieces compose.
\<close>

locale chunked_stream =
  fixes step :: "'s \<Rightarrow> 'c list \<Rightarrow> 's outcome"
  assumes step_append: "step s (xs @ ys) = bind_out (step s xs) (\<lambda>s'. step s' ys)"
begin

lemma fold_step_concat:
  "chunks \<noteq> [] \<Longrightarrow> fold_out step s chunks = step s (concat chunks)"
proof (induction chunks arbitrary: s)
  case (Cons c cs)
  then show ?case
    by (cases "cs = []") (simp_all add: step_append bind_out_def split: sum.splits)
qed simp

end

text \<open>A decoder whose observable state follows such a stream on every chunk that is not empty.\<close>

locale stream_decoder = chunked_stream step
  for step :: "'s \<Rightarrow> 'c list \<Rightarrow> 's outcome" +
  fixes feed :: "'d \<Rightarrow> 'c list \<Rightarrow> 'd outcome"
    and obs :: "'d \<Rightarrow> 's"
    and inv :: "'d \<Rightarrow> bool"
  assumes feed_inv: "inv d \<Longrightarrow> data \<noteq> [] \<Longrightarrow> feed d data = Inr d' \<Longrightarrow> inv d'"
    and feed_step: "inv d \<Longrightarrow> data \<noteq> [] \<Longrightarrow> map_sum id obs (feed d data) = step (obs d) data"
begin

lemma fold_feed_step:
  "inv d \<Longrightarrow> [] \<notin> set chunks \<Longrightarrow>
     map_sum id obs (fold_out feed d chunks) = fold_out step (obs d) chunks"
proof (induction chunks arbitrary: d)
  case (Cons c cs)
  then have c: "map_sum id obs (feed d c) = step (obs d) c" by (intro feed_step) auto
  show ?case
  proof (cases "feed d c")
    case (Inr d')
    with Cons.prems have "inv d'" by (auto intro: feed_inv [of d c])
    with Cons c Inr show ?thesis by (auto simp flip: c)
  qed (use c in \<open>auto simp flip: c\<close>)
qed simp

text \<open>How the bytes are cut into chunks does not matter.\<close>

lemma feed_concat:
  assumes "inv d" and "[] \<notin> set chunks" and "chunks \<noteq> []"
  shows "map_sum id obs (fold_out feed d chunks) = step (obs d) (concat chunks)"
  using fold_feed_step [OF assms(1,2)] fold_step_concat [OF assms(3)] by simp

lemma feed_chunking:
  assumes "inv d" and "[] \<notin> set cs" "cs \<noteq> []" and "[] \<notin> set cs'" "cs' \<noteq> []"
    and "concat cs = concat cs'"
  shows "map_sum id obs (fold_out feed d cs) = map_sum id obs (fold_out feed d cs')"
  using feed_concat [OF assms(1,2,3)] feed_concat [OF assms(1,4,5)] assms(6) by simp

end

text \<open>The decoder of the code is one.\<close>

definition feed_decoder ::
    "env \<Rightarrow> statics \<times> decoder \<Rightarrow> byte list \<Rightarrow> (statics \<times> decoder) outcome" where
  "feed_decoder en s data = map_sum id snd (decoder_read en (fst s) (snd s) data)"

lemma feed_decoder_simulates:
  assumes "decoder_inv (snd s)" and "data \<noteq> []"
  shows "simulates (feed_decoder en s data) (stream_feed en (stream_of s) data)"
proof -
  have "2 * length data + (if compressSize (snd s) = 0 then 3 else 1) \<le> 2 * length data + 3"
    by simp
  with assms read_parse_sim [of en "2 * length data + 3"] show ?thesis
    unfolding feed_decoder_def decoder_read_def stream_feed_def stream_of_def read_sim_def
    by (cases s) simp
qed

interpretation raw: chunked_stream "stream_feed en" for en
  by unfold_locales (rule stream_feed_append)

interpretation wire: stream_decoder "stream_feed en" "feed_decoder en" stream_of
    "\<lambda>s. decoder_inv (snd s)" for en
proof unfold_locales
  fix s s' :: "statics \<times> decoder" and data :: "byte list"
  assume s: "decoder_inv (snd s)" "data \<noteq> []"
  note sim = feed_decoder_simulates [OF s, of en]
  show "feed_decoder en s data = Inr s' \<Longrightarrow> decoder_inv (snd s')"
    using sim by (cases s') simp
  show "map_sum id stream_of (feed_decoder en s data) = stream_feed en (stream_of s) data"
    using sim by (cases "feed_decoder en s data") (auto simp: stream_of_def)
qed

end
