(* ===== verification/Sample_Env.thy ===== *)
theory Sample_Env
  imports Packet_Codec
begin

text \<open>
  A concrete environment for the witnesses: a lossless compression that shortens some inputs, a
  digest of 32 bytes, and a serialiser of \<open>coreMessage\<close> with its parser. It shows that the laws
  assumed of the libraries can hold together; no property depends on these choices.
\<close>

section \<open>Compression and digest\<close>

text \<open>Three equal bytes at the front travel as one.\<close>

fun sample_pack :: "byte list \<Rightarrow> byte list" where
  "sample_pack (a # b # c # xs) = (if a = b \<and> b = c then 1 # a # xs else 0 # a # b # c # xs)"
| "sample_pack xs = 0 # xs"

fun sample_unpack :: "byte list \<Rightarrow> bool \<times> byte list" where
  "sample_unpack [] = (False, [])"
| "sample_unpack (t # xs) =
     (if t = 0 then (True, xs)
      else case xs of [] \<Rightarrow> (False, []) | a # ys \<Rightarrow> (True, a # a # a # ys))"

lemma sample_unpack_pack: "sample_unpack (sample_pack xs) = (True, xs)"
  by (cases xs rule: sample_pack.cases) auto

lemma sample_pack_nonempty: "sample_pack xs \<noteq> []"
  by (cases xs rule: sample_pack.cases) auto

definition sample_sha :: "byte list \<Rightarrow> byte list" where
  "sample_sha xs = take 32 (xs @ replicate 32 0)"

section \<open>Serialiser\<close>

definition put_string :: "string \<Rightarrow> byte list" where
  "put_string s = concat (map (\<lambda>c. [1, word_of_nat (of_char c)]) s) @ [0]"

fun get_string :: "byte list \<Rightarrow> (string \<times> byte list) option" where
  "get_string (t # xs) =
     (if t = 0 then Some ([], xs)
      else case xs of [] \<Rightarrow> None
        | c # ys \<Rightarrow> map_option (map_prod ((#) (char_of (unat c))) id) (get_string ys))"
| "get_string [] = None"

lemma get_put_string [simp]: "get_string (put_string s @ r) = Some (s, r)"
proof (induction s)
  case Nil
  then show ?case by (simp add: put_string_def)
next
  case (Cons c s)
  have "(of_char c :: nat) < 256" by simp
  then have "unat (word_of_nat (of_char c) :: byte) = of_char c"
    by (simp add: unat_of_nat)
  with Cons show ?case by (simp add: put_string_def)
qed

definition get_u32 :: "byte list \<Rightarrow> (u32 \<times> byte list) option" where
  "get_u32 xs = (if length xs < 4 then None else Some (load_be32 xs, drop 4 xs))"

lemma get_store_be32 [simp]: "get_u32 (store_be32 w @ r) = Some (w, r)"
  by (simp add: get_u32_def)

fun put_op :: "pb_operation \<Rightarrow> byte list" where
  "put_op PB_CHECK_VERSION = [0]" | "put_op PB_UPDATE_LOG = [1]"
| "put_op PB_QUERY_LAST_EVENT = [2]" | "put_op PB_RETURN_LAST_EVENT = [3]"
| "put_op PB_ACCEPT_LAST_EVENT = [4]" | "put_op PB_CONNECT = [5]"
| "put_op PB_REFUSE = [6]" | "put_op _ = [7]"

fun get_op :: "byte list \<Rightarrow> (pb_operation \<times> byte list) option" where
  "get_op (b # r) =
     Some (if b = 0 then PB_CHECK_VERSION else if b = 1 then PB_UPDATE_LOG
       else if b = 2 then PB_QUERY_LAST_EVENT else if b = 3 then PB_RETURN_LAST_EVENT
       else if b = 4 then PB_ACCEPT_LAST_EVENT else if b = 5 then PB_CONNECT
       else if b = 6 then PB_REFUSE else PB_OP_MIN_SENTINEL, r)"
| "get_op [] = None"

lemma get_put_op [simp]: "get_op (put_op (dispatch_op_to_pb op) @ r) = Some (dispatch_op_to_pb op, r)"
  by (cases op) simp_all

definition put_log :: "pb_logPackage \<Rightarrow> byte list" where
  "put_log l = put_string (lp_scope l) @ store_be32 (pb_level_number (lp_level l))
     @ put_string (lp_rawEventMessage l) @ put_string (lp_timeStamp l)
     @ put_string (lp_xmlEventMessage l) @ store_be32 (lp_recordID l)"

definition level_of_number :: "u32 \<Rightarrow> pb_logLevel" where
  "level_of_number w =
     (if w = 0 then PB_fatal else if w = 1 then PB_error else if w = 2 then PB_warning
      else if w = 3 then PB_info else PB_verbose)"

definition get_log :: "byte list \<Rightarrow> (pb_logPackage \<times> byte list) option" where
  "get_log xs =
     Option.bind (get_string xs) (\<lambda>(scope, xs). Option.bind (get_u32 xs) (\<lambda>(level, xs).
     Option.bind (get_string xs) (\<lambda>(raw, xs). Option.bind (get_string xs) (\<lambda>(ts, xs).
     Option.bind (get_string xs) (\<lambda>(xml, xs). Option.bind (get_u32 xs) (\<lambda>(rid, xs).
       Some (\<lparr>lp_scope = scope, lp_level = level_of_number level, lp_rawEventMessage = raw,
              lp_timeStamp = ts, lp_xmlEventMessage = xml, lp_recordID = rid\<rparr>, xs)))))))"

lemma get_put_log [simp]: "get_log (put_log (pb_of_event e) @ r) = Some (pb_of_event e, r)"
  by (cases "ev_llevel e") (simp_all add: get_log_def put_log_def pb_of_event_def level_of_number_def)

primrec get_n :: "nat \<Rightarrow> byte list \<Rightarrow> (pb_logPackage list \<times> byte list) option" where
  "get_n 0 xs = Some ([], xs)"
| "get_n (Suc n) xs =
     Option.bind (get_log xs) (\<lambda>(l, ys). map_option (map_prod ((#) l) id) (get_n n ys))"

lemma get_n_logs:
  "get_n (length es) (concat (map (put_log \<circ> pb_of_event) es) @ r) = Some (map pb_of_event es, r)"
  by (induction es) simp_all

definition sample_serialize :: "coreMessage \<Rightarrow> byte list" where
  "sample_serialize m =
     store_be32 (pb_id m) @ put_string (pb_clientName m) @ put_op (pb_op m)
     @ put_string (pb_timeStamp m) @ put_string (pb_osVersion m) @ put_string (pb_description m)
     @ put_string (replicate (length (pb_log m)) CHR ''l'') @ concat (map put_log (pb_log m))
     @ store_be32 (pb_lastEvent m) @ [if pb_logNeedAccept m then 1 else 0]
     @ put_string (pb_machineID m) @ store_be32 (pb_refuseID m)"

definition sample_parse :: "byte list \<Rightarrow> coreMessage option" where
  "sample_parse xs =
     Option.bind (get_u32 xs) (\<lambda>(i, xs). Option.bind (get_string xs) (\<lambda>(cn, xs).
     Option.bind (get_op xs) (\<lambda>(op, xs). Option.bind (get_string xs) (\<lambda>(ts, xs).
     Option.bind (get_string xs) (\<lambda>(ov, xs). Option.bind (get_string xs) (\<lambda>(de, xs).
     Option.bind (get_string xs) (\<lambda>(count, xs). Option.bind (get_n (length count) xs) (\<lambda>(ls, xs).
     Option.bind (get_u32 xs) (\<lambda>(le, xs). case xs of [] \<Rightarrow> None | acc # xs \<Rightarrow>
     Option.bind (get_string xs) (\<lambda>(mid, xs). Option.bind (get_u32 xs) (\<lambda>(rf, xs).
       Some \<lparr>pb_id = i, pb_clientName = cn, pb_op = op, pb_timeStamp = ts, pb_os = PB_windows_os,
             pb_osVersion = ov, pb_description = de, pb_log = ls, pb_lastEvent = le,
             pb_logNeedAccept = (acc = 1), pb_machineID = mid, pb_refuseID = rf\<rparr>)))))))))))"

section \<open>The environment\<close>

definition sample_env :: "bool \<Rightarrow> platform \<Rightarrow> env" where
  "sample_env nd pf = \<lparr>
     ndebug = nd, target = pf,
     clock = \<lparr>wYear = 2019, wMonth = 8, wDay = 1, wHour = 12, wMinute = 30, wSecond = 5,
              wMilliseconds = 250\<rparr>,
     sha256 = sample_sha, zlib_bound = (\<lambda>n. n + 1),
     zlib_compress = (\<lambda>cap xs. (True, sample_pack xs)),
     zlib_uncompress = (\<lambda>cap xs. sample_unpack xs),
     pb_serialize = (\<lambda>m. (True, sample_serialize m)),
     pb_parse = sample_parse\<rparr>"

definition sample_statics :: statics where
  "sample_statics = \<lparr>next_id = 7, myClientName = ''host'', myOsVersion = ''10.0'',
     myMachineID = ''m1'', timeBias = ''+8''\<rparr>"

lemma get_put_string_end [simp]: "get_string (put_string s) = Some (s, [])"
  using get_put_string [of s "[]"] by simp

lemma get_store_be32_end [simp]: "get_u32 (store_be32 w) = Some (w, [])"
  using get_store_be32 [of w "[]"] by simp

lemma sample_parse_serialize:
  "sample_parse (sample_serialize (snd (core_of_message en st m))) = Some (snd (core_of_message en st m))"
proof -
  have "get_n (length es) (concat (map (put_log \<circ> pb_of_event) es) @ r) = Some (map pb_of_event es, r)"
    for es r by (rule get_n_logs)
  then show ?thesis
    by (cases "msg_body m")
      (simp_all add: sample_parse_def sample_serialize_def core_of_message_def buildPBObj_def
        new_coreMessage_def comp_def)
qed

lemma sample_serialize_nonempty: "0 < length (sample_serialize m)"
  by (simp add: sample_serialize_def)

text \<open>The transfer of a package, at a log package with two events.\<close>

definition sample_log :: message where
  "sample_log = AddLogEvents
     [Event_level ''<e/>'' ''started'' ''SCM'' ''t'' warning 41,
      Event_level ''<f/>'' ''stopped'' ''SCM'' ''u'' info 42] (fst (LogPackage True sample_statics))"

theorem message_transfer_witness:
  "\<exists>m' st'. BuildObj (sample_env False Windows)
       (snd (core_of_message (sample_env False Windows) sample_statics sample_log)) sample_statics =
     Inr (Some m', st') \<and> map ev_rid (GetEvents m') = [41, 42] \<and> NeedAccept m'"
  using message_transfer [of sample_log "sample_env False Windows" sample_statics sample_statics]
  by (auto simp: sample_log_def wf_message_def receivable_def transfer_defs AddLogEvents_def
      GetEvents_def NeedAccept_def Event_level_def received_event_def)

end
