(* ===== verification/Packet_Properties.thy ===== *)
theory Packet_Properties
  imports Decoder_Refinement Sample_Env
begin

text \<open>
  What encoder and decoder do together: round trips through any chunking, nothing delivered
  early, the effect of damaged and hostile packets, the depth of the recursion, and what
  \<open>Reset\<close> leaves behind.
\<close>

section \<open>Laws of the libraries\<close>

text \<open>
  What the code relies on for one message: the serialised form is not empty, fits 32 bits and
  parses back; the digest has 32 bytes; zlib compresses, and decompresses to the original.
\<close>

definition wire_ok :: "env \<Rightarrow> coreMessage \<Rightarrow> bool" where
  "wire_ok en core \<longleftrightarrow>
     (let serial = snd (pb_serialize en core) in
        serial \<noteq> [] \<and> length serial < 2 ^ 32 \<and> pb_parse en serial = Some core
        \<and> length (SHA256 en serial) = 32
        \<and> fst (Compress en serial) \<and> snd (Compress en serial) \<noteq> []
        \<and> DeCompress en (length serial) (snd (Compress en serial)) = (True, serial))"

lemma sample_wire_ok:
  assumes "length (sample_serialize (snd (core_of_message en st m))) < 2 ^ 32"
  shows "wire_ok (sample_env nd pf) (snd (core_of_message en st m))"
  using assms sample_serialize_nonempty [of "snd (core_of_message en st m)"]
  by (auto simp: wire_ok_def sample_env_def SHA256_def Compress_def DeCompress_def sample_sha_def
      sample_unpack_pack sample_pack_nonempty sample_parse_serialize Let_def)

section \<open>The bytes of one message\<close>

definition sent_bytes :: "env \<Rightarrow> statics \<Rightarrow> message \<Rightarrow> byte list" where
  "sent_bytes en st m = (case toBytes en st m of Inr (_, b, _) \<Rightarrow> b | Inl _ \<Rightarrow> [])"

text \<open>The three parts of a frame: the two sizes, the digest, the body.\<close>

definition frame_parts :: "u32 \<Rightarrow> u32 \<Rightarrow> byte list \<Rightarrow> byte list \<Rightarrow> byte list" where
  "frame_parts ser siz dg body = store_be32 ser @ store_be32 siz @ dg @ body"

lemma frame_parts_simps:
  assumes "length dg = 32"
  shows "length (frame_parts ser siz dg body) = 40 + length body"
    and "load_be32 (frame_parts ser siz dg body @ r) = ser"
    and "load_be32 (drop 4 (frame_parts ser siz dg body @ r)) = siz"
    and "take 40 (frame_parts ser siz dg body @ r) = frame_parts ser siz dg []"
    and "drop 40 (frame_parts ser siz dg body @ r) = body @ r"
    and "take 32 (drop 8 (frame_parts ser siz dg [])) = dg"
  using assms by (simp_all add: frame_parts_def)

lemma unat_of_nat_u32 [simp]: "n < 2 ^ 32 \<Longrightarrow> unat (of_nat n :: u32) = n"
  by (simp add: unat_of_nat)

text \<open>Taking one frame off the stream.\<close>

lemma consume_parts:
  assumes "length dg = 32" and "unat siz = length body" and "body \<noteq> []"
  shows "consume en st q (frame_parts ser siz dg body @ r) =
    bind_out (open_body en st ser siz (frame_parts ser siz dg []) body) (\<lambda>(ret, st').
    bind_out (c_assert (ndebug en) (ret \<noteq> None)) (\<lambda>_. consume en st' (q @ [ret]) r))"
proof -
  let ?bs = "frame_parts ser siz dg body @ r"
  note f = frame_parts_simps [OF assms(1)]
  have "0 < unat siz" using assms(2,3) by simp
  then have "siz \<noteq> 0" by (metis unat_0 less_irrefl)
  moreover have "40 < length ?bs" "40 + unat siz \<le> length ?bs"
    using f(1) [of ser siz body] assms(2,3) by simp_all
  moreover have "drop (40 + unat siz) ?bs = r"
    using f(5) [of ser siz body r] assms(2) by (metis add.commute append_eq_conv_conj drop_drop)
  moreover have "take (unat siz) (body @ r) = body"
    using assms(2) by simp
  ultimately show ?thesis
    using consume_frame [of ?bs en st q] by (simp only: f simp_thms)
qed

text \<open>A proper prefix of a frame waits.\<close>

lemma consume_prefix:
  assumes "length dg = 32" and "unat siz = length body" and "body \<noteq> []"
    and "k < 40 + length body"
  shows "consume en st q (take k (frame_parts ser siz dg body)) =
    Inr (st, q, take k (frame_parts ser siz dg body))"
proof (cases "k \<le> 40")
  case False
  have "load_be32 (drop 4 (take k (frame_parts ser siz dg body))) = siz"
  proof -
    have "drop 4 (take k (frame_parts ser siz dg body)) =
        take (k - 4) (drop 4 (frame_parts ser siz dg body))"
      by (simp add: drop_take)
    then show ?thesis
      using False frame_parts_simps(3) [OF assms(1), of ser siz body "[]"]
      by (simp add: load_be32_take)
  qed
  moreover have "siz \<noteq> 0" using assms(2,3) by auto
  ultimately show ?thesis
    using assms(2,4) frame_parts_simps(1) [OF assms(1), of ser siz body]
    by (intro consume_wait(2)) simp_all
qed (simp add: consume_wait)

lemma sent_bytes_parts:
  assumes "wire_ok en (snd (core_of_message en st m))"
  defines "serial \<equiv> snd (pb_serialize en (snd (core_of_message en st m)))"
  defines "body \<equiv> (if length (snd (Compress en serial)) < length serial
    then snd (Compress en serial) else serial)"
  shows "toBytes en st m = Inr (fst (pb_serialize en (snd (core_of_message en st m))),
      sent_bytes en st m, fst (core_of_message en st m))"
    and "sent_bytes en st m =
      frame_parts (of_nat (length serial)) (of_nat (length body)) (SHA256 en serial) body"
    and "body \<noteq> []" and "length body < 2 ^ 32" and "length (SHA256 en serial) = 32"
  using assms
  by (auto simp: wire_ok_def toBytes_def sent_bytes_def frame_packet_def frame_parts_def split_def
      Let_def)

text \<open>The receiver opens the body it was sent.\<close>

lemma open_sent_body:
  assumes ok: "wire_ok en core"
  defines "serial \<equiv> snd (pb_serialize en core)"
  defines "body \<equiv> (if length (snd (Compress en serial)) < length serial
    then snd (Compress en serial) else serial)"
  shows "open_body en st (of_nat (length serial)) (of_nat (length body))
      (frame_parts (of_nat (length serial)) (of_nat (length body)) (SHA256 en serial) []) body =
    BuildObj en core st"
proof -
  let ?c = "snd (Compress en serial)"
  have w: "length serial < 2 ^ 32" "pb_parse en serial = Some core"
    "length (SHA256 en serial) = 32" "DeCompress en (length serial) ?c = (True, serial)"
    using ok by (simp_all add: wire_ok_def serial_def Let_def)
  note dg = frame_parts_simps(6) [OF w(3)]
  show ?thesis
  proof (cases "length ?c < length serial")
    case True
    then have b: "body = ?c" by (simp add: body_def)
    have "(of_nat (length serial) :: u32) \<noteq> of_nat (length ?c)"
      using True w(1) by (metis less_trans less_irrefl unat_of_nat_u32)
    then show ?thesis
      using w dg by (simp add: open_body_def b parseFromArray_def)
  next
    case False
    then have b: "body = serial" by (simp add: body_def)
    show ?thesis using w dg by (simp add: open_body_def b parseFromArray_def)
  qed
qed

definition sendable :: "env \<Rightarrow> statics \<times> message \<Rightarrow> bool" where
  "sendable en s \<longleftrightarrow>
     wf_message (snd s) \<and> receivable (msg_op (snd s))
     \<and> wire_ok en (snd (core_of_message en (fst s) (snd s)))"

lemma consume_sent:
  assumes "sendable en (st, m)"
  shows "\<exists>m' st'. delivered st m m'
    \<and> (\<forall>r. consume en st0 q (sent_bytes en st m @ r) = consume en st' (q @ [Some m']) r)"
proof -
  let ?core = "snd (core_of_message en st m)"
  from assms have wf: "wf_message m" "receivable (msg_op m)" and ok: "wire_ok en ?core"
    by (simp_all add: sendable_def)
  let ?serial = "snd (pb_serialize en ?core)"
  let ?body = "if length (snd (Compress en ?serial)) < length ?serial
    then snd (Compress en ?serial) else ?serial"
  obtain m' st' where build: "BuildObj en ?core st0 = Inr (Some m', st')"
      and "delivered st m m'"
    using BuildObj_sent [OF wf, of en st st0] by blast
  note parts = sent_bytes_parts [OF ok]
  have "unat (of_nat (length ?body) :: u32) = length ?body"
    using parts(4) by (rule unat_of_nat_u32)
  from consume_parts [OF parts(5) this parts(3), of en st0 q "of_nat (length ?serial)"]
  have "consume en st0 q (sent_bytes en st m @ r) = consume en st' (q @ [Some m']) r" for r
    unfolding parts(2) open_sent_body [OF ok] build by simp
  with \<open>delivered st m m'\<close> show ?thesis by blast
qed

text \<open>A message whose last byte is missing waits.\<close>

lemma consume_sent_prefix:
  assumes "sendable en (st, m)" and "k < length (sent_bytes en st m)"
  shows "consume en st0 q (take k (sent_bytes en st m)) = Inr (st0, q, take k (sent_bytes en st m))"
proof -
  have ok: "wire_ok en (snd (core_of_message en st m))"
    using assms(1) by (simp add: sendable_def)
  note parts = sent_bytes_parts [OF ok]
  show ?thesis
    using assms(2) unfolding parts(2) frame_parts_simps(1) [OF parts(5)]
    by (intro consume_prefix [OF parts(5) unat_of_nat_u32 [OF parts(4)] parts(3)])
qed

lemma sent_bytes_length: "sendable en (st, m) \<Longrightarrow> 40 < length (sent_bytes en st m)"
  using sent_bytes_parts(2,3,5) [of en st m]
  by (simp add: sendable_def frame_parts_simps(1) split del: if_split)

lemma sent_bytes_nonempty: "sendable en (st, m) \<Longrightarrow> sent_bytes en st m \<noteq> []"
  using sent_bytes_length [of en st m] by auto

lemma consume_all_sent:
  "\<forall>s \<in> set sms. sendable en s \<Longrightarrow>
     \<exists>ms st'. consume en st0 q (concat (map (\<lambda>(st, m). sent_bytes en st m) sms)) =
         Inr (st', q @ map Some ms, [])
       \<and> list_all2 (\<lambda>(st, m) m'. delivered st m m') sms ms"
proof (induction sms arbitrary: st0 q)
  case Nil
  show ?case by (intro exI [of _ "[]"]) (simp add: consume_wait)
next
  case (Cons s sms)
  obtain st m where s: "s = (st, m)" by (cases s)
  with Cons.prems obtain m' st' where d: "delivered st m m'"
      and step: "\<And>r. consume en st0 q (sent_bytes en st m @ r) = consume en st' (q @ [Some m']) r"
    using consume_sent [of en st m st0 q] by auto
  from Cons.IH [of st' "q @ [Some m']"] Cons.prems obtain ms st'' where
    "consume en st' (q @ [Some m']) (concat (map (\<lambda>(st, m). sent_bytes en st m) sms)) =
       Inr (st'', (q @ [Some m']) @ map Some ms, [])"
    "list_all2 (\<lambda>(st, m) m'. delivered st m m') sms ms"
    by auto
  with d step s show ?case by (intro exI [of _ "m' # ms"] exI [of _ st'']) simp
qed

text \<open>
  Any part of what was sent, from its beginning: exactly the packages that are complete in its \<open>k\<close>
  bytes, and the bytes of the next one that are there.
\<close>

definition complete_in :: "nat \<Rightarrow> byte list list \<Rightarrow> nat \<Rightarrow> bool" where
  "complete_in k bs j \<longleftrightarrow> j \<le> length bs \<and> length (concat (take j bs)) \<le> k
     \<and> (j < length bs \<longrightarrow> k < length (concat (take (Suc j) bs)))"

lemma complete_in_all: "complete_in k bs j \<Longrightarrow> length (concat bs) \<le> k \<Longrightarrow> j = length bs"
proof (rule ccontr)
  assume c: "complete_in k bs j" "length (concat bs) \<le> k" "j \<noteq> length bs"
  then have "k < length (concat (take (Suc j) bs))" by (simp add: complete_in_def)
  also have "\<dots> \<le> length (concat (take (Suc j) bs @ drop (Suc j) bs))" unfolding concat_append by simp
  finally show False using c(2) by simp
qed

lemma consume_some_sent:
  fixes en :: env
  defines "bytes \<equiv> map (\<lambda>(st, m). sent_bytes en st m)"
  assumes "\<forall>s \<in> set sms. sendable en s"
  shows "\<exists>j ms st'. consume en st0 q (take k (concat (bytes sms))) =
         Inr (st', q @ map Some ms, drop (length (concat (take j (bytes sms)))) (take k (concat (bytes sms))))
       \<and> list_all2 (\<lambda>(st, m) m'. delivered st m m') (take j sms) ms \<and> complete_in k (bytes sms) j"
  using assms(2)
proof (induction sms arbitrary: st0 q k)
  case Nil
  show ?case
    by (intro exI [of _ 0] exI [of _ "[]"]) (simp add: consume_wait complete_in_def bytes_def)
next
  case (Cons s sms)
  obtain st m where s: "s = (st, m)" by (cases s)
  with Cons.prems have ok: "sendable en (st, m)" by simp
  let ?b = "sent_bytes en st m"
  have bytes: "bytes (s # sms) = ?b # bytes sms" by (simp add: bytes_def s)
  show ?case
  proof (cases "k < length ?b")
    case True
    with consume_sent_prefix [OF ok True, of st0 q] bytes show ?thesis
      by (intro exI [of _ 0] exI [of _ "[]"]) (simp add: complete_in_def)
  next
    case False
    obtain m' st' where d: "delivered st m m'"
        and step: "\<And>r. consume en st0 q (?b @ r) = consume en st' (q @ [Some m']) r"
      using consume_sent [OF ok, of st0 q] by auto
    let ?k = "k - length ?b"
    from Cons.IH [of st' "q @ [Some m']" ?k] Cons.prems obtain j ms st'' where
      "consume en st' (q @ [Some m']) (take ?k (concat (bytes sms))) =
         Inr (st'', (q @ [Some m']) @ map Some ms,
           drop (length (concat (take j (bytes sms)))) (take ?k (concat (bytes sms))))"
      "list_all2 (\<lambda>(st, m) m'. delivered st m m') (take j sms) ms" "complete_in ?k (bytes sms) j" by auto
    with d step [of "take ?k (concat (bytes sms))"] s bytes False show ?thesis
      by (intro exI [of _ "Suc j"] exI [of _ "m' # ms"] exI [of _ st'']) (auto simp: complete_in_def)
  qed
qed

text \<open>One read of whole messages by a decoder that is not in the middle of a frame.\<close>

lemma read_sent:
  assumes "\<forall>s \<in> set sms. sendable en s" and "sms \<noteq> []" and "decoder_inv d" and "pending d = []"
  shows "\<exists>x st' d' ms. decoder_read en st0 d (concat (map (\<lambda>(st, m). sent_bytes en st m) sms)) =
      Inr (x, st', d') \<and> vec d' = vec d @ map Some ms \<and> pending d' = [] \<and> decoder_inv d'
    \<and> list_all2 (\<lambda>(st, m) m'. delivered st m m') sms ms"
proof -
  let ?b = "concat (map (\<lambda>(st, m). sent_bytes en st m) sms)"
  obtain ms st' where c: "consume en st0 (vec d) ?b = Inr (st', vec d @ map Some ms, [])"
      and l: "list_all2 (\<lambda>(st, m) m'. delivered st m m') sms ms"
    using consume_all_sent [OF assms(1), of st0 "vec d"] by blast
  have "?b \<noteq> []"
    using assms(1,2) sent_bytes_nonempty by (cases sms) (auto split: prod.splits)
  then have "simulates (feed_decoder en (st0, d) ?b) (stream_feed en (stream_of (st0, d)) ?b)"
    using assms(3) by (intro feed_decoder_simulates) simp_all
  then have sim: "simulates (map_sum id snd (decoder_read en st0 d ?b))
      (Inr (st', vec d @ map Some ms, []))"
    using c assms(4) by (simp add: stream_feed_def stream_of_def feed_decoder_def)
  show ?thesis
  proof (cases "decoder_read en st0 d ?b")
    case (Inr r)
    obtain x st'' d' where "r = (x, st'', d')" by (cases r)
    with sim Inr l show ?thesis
      by (intro exI [of _ x] exI [of _ st''] exI [of _ d'] exI [of _ ms]) auto
  qed (use sim in simp)
qed

text \<open>The result of \<open>read\<close> at any sufficient depth, and an overflow at any depth.\<close>

lemma read_any_depth:
  assumes "decoder_inv d" and "data \<noteq> []"
  shows read_deep: "2 * length data + 3 \<le> n \<Longrightarrow>
      simulates (map_sum id snd (read_impl n en st d data)) (consume en st (vec d) (pending d @ data))"
    and read_overflow: "consume en st (vec d) (pending d @ data) = Inl Stack_overflow \<Longrightarrow>
      read_impl k en st d data = Inl Stack_overflow"
proof -
  show deep: "simulates (map_sum id snd (read_impl n en st d data))
      (consume en st (vec d) (pending d @ data))" if "2 * length data + 3 \<le> n" for n
    using read_parse_sim [of en n] assms that unfolding read_sim_def by simp
  let ?n = "max k (2 * length data + 3)"
  assume "consume en st (vec d) (pending d @ data) = Inl Stack_overflow"
  with deep [of ?n] have "read_impl ?n en st d data = Inl Stack_overflow"
    by (cases "read_impl ?n en st d data") auto
  moreover have "settled (read_impl k en st d data) (read_impl ?n en st d data)"
    by (rule depth_mono) simp
  ultimately show "read_impl k en st d data = Inl Stack_overflow"
    by (auto simp: settled_def)
qed

section \<open>Properties\<close>

text \<open>C1. Messages of the five known operations, sent one after the other and cut into non-empty
  chunks in any way, reach the queue of a fresh decoder, in order and once each, with no fault and
  no byte left over. Each arrives as \<open>delivered\<close> says: with its class, its description, what its class
  adds (a record id, or the request to accept and the events) and its id unless that is -1, and with
  the names of its sender. The events come in order, with everything but their severity, which the
  transfer changes.\<close>

theorem packets_roundtrip:
  assumes "\<forall>s \<in> set sms. sendable en s" and "[] \<notin> set chunks"
    and "concat chunks = concat (map (\<lambda>(st, m). sent_bytes en st m) sms)"
  shows "\<exists>st' d ms. fold_out (feed_decoder en) (st0, new_decoder) chunks = Inr (st', d)
    \<and> vec d = map Some ms \<and> pending d = []
    \<and> list_all2 (\<lambda>(st, m) m'. delivered st m m') sms ms"
proof (cases "chunks = []")
  case True
  with assms(3) have "sms = []"
    using assms(1) sent_bytes_nonempty by (cases sms) (auto split: prod.splits)
  with True show ?thesis
    by (intro exI [of _ st0] exI [of _ new_decoder] exI [of _ "[]"])
      (simp add: new_decoder_def pending_def)
next
  case False
  obtain ms st' where c: "consume en st0 [] (concat chunks) = Inr (st', map Some ms, [])"
      and d: "list_all2 (\<lambda>(st, m) m'. delivered st m m') sms ms"
    using consume_all_sent [OF assms(1), of st0 "[]"] assms(3) by auto
  have "map_sum id stream_of (fold_out (feed_decoder en) (st0, new_decoder) chunks) =
      stream_feed en (stream_of (st0, new_decoder)) (concat chunks)"
    by (rule wire.feed_concat) (use assms(2) False decoder_inv_new in simp_all)
  also have "\<dots> = Inr (st', map Some ms, [])"
    using c decoder_inv_new(2) by (simp add: stream_feed_def stream_of_def new_decoder_def)
  finally show ?thesis
    using d by (cases "fold_out (feed_decoder en) (st0, new_decoder) chunks")
      (auto simp: stream_of_def)
qed

definition sample_query :: message where
  "sample_query = fst (QueryLastEventPackage sample_statics)"

lemma sample_query_sendable: "sendable (sample_env nd Unix) (sample_statics, sample_query)"
proof -
  have "wire_ok (sample_env nd Unix)
      (snd (core_of_message (sample_env nd Unix) sample_statics sample_query))"
    by (intro sample_wire_ok)
      (simp add: sample_query_def sample_statics_def sample_env_def transfer_defs
        sample_serialize_def put_string_def getTimeStamp_def)
  moreover have "wf_message sample_query" "receivable (msg_op sample_query)"
    by (simp_all add: sample_query_def wf_message_def receivable_def constructor_defs)
  ultimately show ?thesis by (simp add: sendable_def)
qed

theorem packets_roundtrip_witness:
  "\<exists>st' d m. fold_out (feed_decoder (sample_env False Unix)) (sample_statics, new_decoder)
      [take 5 (sent_bytes (sample_env False Unix) sample_statics sample_query),
       drop 5 (sent_bytes (sample_env False Unix) sample_statics sample_query)] = Inr (st', d)
    \<and> vec d = [Some m]"
proof -
  let ?en = "sample_env False Unix"
  let ?b = "sent_bytes ?en sample_statics sample_query"
  have "40 < length ?b"
    using sample_query_sendable by (rule sent_bytes_length)
  then have cut: "[] \<notin> set [take 5 ?b, drop 5 ?b]" by auto
  from packets_roundtrip [of "[(sample_statics, sample_query)]" ?en, OF _ cut, of sample_statics]
    sample_query_sendable [of False]
  show ?thesis by (auto simp: list_all2_Cons1)
qed

text \<open>C6. Every \<open>read\<close> of at least one byte computes what the abstract stream computes: the
  same fault, or the same static state, queue and pending bytes, and it keeps the invariant.\<close>

theorem decoder_refines_stream:
  assumes "decoder_inv d" and "data \<noteq> []"
  shows "map_sum id stream_of (feed_decoder en (st, d) data) = consume en st (vec d) (pending d @ data)
    \<and> (feed_decoder en (st, d) data = Inr (st', d') \<longrightarrow> decoder_inv d')"
  using wire.feed_step [of "(st, d)" data en] wire.feed_inv [of "(st, d)" data en "(st', d')"] assms
  by (simp add: stream_feed_def stream_of_def)

theorem decoder_refines_stream_witness:
  "map_sum id stream_of (feed_decoder (sample_env False Unix) (sample_statics, new_decoder) [1, 2]) =
     Inr (sample_statics, [], [1, 2])"
proof -
  have inv: "decoder_inv new_decoder" and data: "[1, 2 :: byte] \<noteq> []"
    by (simp_all add: decoder_inv_new)
  show ?thesis
    using decoder_refines_stream [OF inv data, of "sample_env False Unix" sample_statics]
    by (simp add: consume_wait pending_def new_decoder_def)
qed

text \<open>C15. Two ways of cutting the same bytes into non-empty chunks lead to the same outcome: the
  same fault, or the same queue, static state and pending bytes.\<close>

theorem decoder_chunking_independent:
  assumes "decoder_inv d" and "[] \<notin> set cs" "cs \<noteq> []" and "[] \<notin> set cs'" "cs' \<noteq> []"
    and "concat cs = concat cs'"
  shows "map_sum id stream_of (fold_out (feed_decoder en) (st, d) cs) =
    map_sum id stream_of (fold_out (feed_decoder en) (st, d) cs')"
  by (rule wire.feed_chunking) (use assms in simp_all)

theorem decoder_chunking_independent_witness:
  "map_sum id stream_of (fold_out (feed_decoder (sample_env True Unix)) (sample_statics, new_decoder)
     [[0, 0, 0], [1]]) =
   map_sum id stream_of (fold_out (feed_decoder (sample_env True Unix)) (sample_statics, new_decoder)
     [[0], [0], [0, 1]])"
  by (rule decoder_chunking_independent) (simp_all add: decoder_inv_new)

text \<open>C25. The depth \<open>read\<close> is given is enough: every greater depth of calls has the same result,
  and a run that exhausts this depth exhausts every depth, so it never returns.\<close>

theorem decoder_depth_enough:
  assumes "decoder_inv d" and "data \<noteq> []"
  shows "(\<forall>n. 2 * length data + 3 \<le> n \<longrightarrow> read_impl n en st d data = decoder_read en st d data)
    \<and> (decoder_read en st d data = Inl Stack_overflow
         \<longrightarrow> (\<forall>k. read_impl k en st d data = Inl Stack_overflow))"
proof -
  note deep = read_deep [OF assms] and overflow = read_overflow [OF assms]
  have over: "consume en st (vec d) (pending d @ data) = Inl Stack_overflow"
    if "decoder_read en st d data = Inl Stack_overflow"
    using deep [OF order_refl, of en st] that by (simp add: decoder_read_def)
  have "read_impl n en st d data = decoder_read en st d data" if n: "2 * length data + 3 \<le> n" for n
  proof (cases "decoder_read en st d data = Inl Stack_overflow")
    case False
    with depth_mono [OF n, of en st d data] show ?thesis
      by (simp add: settled_def decoder_read_def)
  qed (simp add: overflow over)
  with overflow over show ?thesis by blast
qed

text \<open>A header announcing a body of size zero, with one byte after it.\<close>

definition zero_size_packet :: "byte list" where
  "zero_size_packet = replicate 41 0"

theorem decoder_depth_enough_witness:
  "read_impl 1000 (sample_env False Unix) sample_statics new_decoder [7] =
     decoder_read (sample_env False Unix) sample_statics new_decoder [7]"
proof -
  have data: "[7 :: byte] \<noteq> []" by simp
  show ?thesis
    using decoder_depth_enough [OF decoder_inv_new(1) data, of "sample_env False Unix" sample_statics]
    by simp
qed

text \<open>C26. A packet whose header announces a body of size zero never returns from \<open>read\<close>: at every
  depth of calls the stack is exhausted, whatever the build, the digest and the rest of the data.
  Forty-one bytes of zeros are enough.\<close>

theorem empty_body_never_returns:
  assumes "40 < length bs" and "load_be32 (drop 4 bs) = 0"
  shows "\<forall>n. read_impl n en st new_decoder bs = Inl Stack_overflow"
proof -
  have "bs \<noteq> []" using assms(1) by auto
  from read_overflow [OF decoder_inv_new(1) this, of en st] consume_zero [OF assms, of en st "[]"]
  show ?thesis by (simp add: decoder_inv_new(2)) (simp add: new_decoder_def)
qed

theorem empty_body_never_returns_witness:
  "\<forall>n. read_impl n (sample_env True Unix) sample_statics new_decoder zero_size_packet =
     Inl Stack_overflow"
  by (rule empty_body_never_returns) (simp_all add: zero_size_packet_def numeral_eq_Suc)

text \<open>C27. Integrity: a complete packet whose digest is not that of its content, which is the body of a
  packet that was not compressed and what \<open>DeCompress\<close> makes of the body of one that was, aborts the
  process at the assertion; with assertions compiled out nothing is checked, and the packet has the
  same effect as the one with the right digest.\<close>

theorem digest_mismatch:
  fixes body :: "byte list" and ser :: u32 and en :: env
  defines "content \<equiv> if ser = of_nat (length body) then body else snd (DeCompress en (unat ser) body)"
  assumes "length dg = 32" and "length (SHA256 en content) = 32" and "dg \<noteq> SHA256 en content"
    and "body \<noteq> []" and "length body < 2 ^ 32"
  shows "map_sum id stream_of (feed_decoder en (st, new_decoder)
      (frame_parts ser (of_nat (length body)) dg body)) =
    (if ndebug en
     then map_sum id stream_of (feed_decoder en (st, new_decoder)
       (frame_parts ser (of_nat (length body)) (SHA256 en content) body))
     else Inl Assert_failed)"
proof -
  have feed: "map_sum id stream_of (feed_decoder en (st, new_decoder) bs) = consume en st [] bs"
    if "bs \<noteq> []" for bs
    using wire.feed_step [of "(st, new_decoder)" bs en] that decoder_inv_new
    by (simp add: stream_feed_def stream_of_def new_decoder_def)
  have ne: "frame_parts x y d body \<noteq> []" for x y d
    by (simp add: frame_parts_def store_be32_def)
  have len: "unat (of_nat (length body) :: u32) = length body"
    using assms(6) by (rule unat_of_nat_u32)
  show ?thesis
    using consume_parts [OF assms(2) len assms(5), of en st "[]" _ "[]"]
      consume_parts [OF assms(3) len assms(5), of en st "[]" _ "[]"]
      frame_parts_simps(6) [OF assms(2)] frame_parts_simps(6) [OF assms(3)] assms(1-4)
    by (cases "ser = of_nat (length body)") (simp_all add: feed ne open_body_def content_def split_def)
qed

theorem digest_mismatch_witness:
  "map_sum id stream_of (feed_decoder (sample_env False Unix) (sample_statics, new_decoder)
     (frame_parts 1 1 (replicate 32 9) [5])) = Inl Assert_failed"
proof -
  let ?en = "sample_env False Unix"
  have "hd (replicate 32 (9 :: byte)) \<noteq> hd (SHA256 ?en [5])"
    by (simp add: sample_env_def SHA256_def sample_sha_def)
  then have ne: "replicate 32 9 \<noteq> SHA256 ?en [5]" by metis
  have "length (SHA256 ?en [5]) = 32"
    by (simp add: sample_env_def SHA256_def sample_sha_def)
  with digest_mismatch [of "replicate 32 9" ?en 1 "[5]" sample_statics] ne show ?thesis
    by (simp add: sample_env_def)
qed

text \<open>The whole effect of feeding a fresh decoder.\<close>

lemma feed_new:
  "bs \<noteq> [] \<Longrightarrow> map_sum id stream_of (feed_decoder en (st, new_decoder) bs) = consume en st [] bs"
  using wire.feed_step [of "(st, new_decoder)" bs en] decoder_inv_new
  by (simp add: stream_feed_def stream_of_def new_decoder_def)

text \<open>C28. A refusal on the wire stops its receiver: reading the packet of a \<open>RefusePackage\<close> aborts
  the process, and with assertions compiled out it queues a null pointer, which the reader of the
  queue cannot tell from an empty queue.\<close>

theorem refusal_stops_receiver:
  assumes "wire_ok en (snd (core_of_message en st (RefusePackage r desc)))"
  shows "map_sum id stream_of (feed_decoder en (st0, new_decoder)
      (sent_bytes en st (RefusePackage r desc))) =
    (if ndebug en then Inr (st0, [None], []) else Inl Assert_failed)"
proof -
  note parts = sent_bytes_parts [OF assms]
  note len = unat_of_nat_u32 [OF parts(4)]
  have ne: "sent_bytes en st (RefusePackage r desc) \<noteq> []"
    using parts(2) by (simp add: frame_parts_def store_be32_def)
  show ?thesis
    unfolding feed_new [OF ne]
    using consume_parts [OF parts(5) len parts(3), of en st0 "[]" _ "[]"] parts(2)
      open_sent_body [OF assms, of st0] BuildObj_refuse [of en st r desc st0]
    by (simp add: consume_wait c_assert_def)
qed

theorem refusal_stops_receiver_witness:
  "map_sum id stream_of (feed_decoder (sample_env False Unix) (sample_statics, new_decoder)
     (sent_bytes (sample_env False Unix) sample_statics (RefusePackage 3 ''no''))) =
   Inl Assert_failed"
proof -
  let ?en = "sample_env False Unix"
  have "wire_ok ?en (snd (core_of_message ?en sample_statics (RefusePackage 3 ''no'')))"
    by (intro sample_wire_ok)
      (simp add: sample_statics_def sample_env_def transfer_defs sample_serialize_def
        put_string_def getTimeStamp_def)
  from refusal_stops_receiver [OF this, of sample_statics] show ?thesis
    by (simp add: sample_env_def)
qed

text \<open>Nothing is delivered early: as long as a byte of a packet is missing, its queue is empty
  and all bytes are pending, however they were cut.\<close>

theorem nothing_early:
  assumes "sendable en (st, m)" and "[] \<notin> set chunks" and "chunks \<noteq> []"
    and "concat chunks = take k (sent_bytes en st m)" and "k < length (sent_bytes en st m)"
  shows "map_sum id stream_of (fold_out (feed_decoder en) (st0, new_decoder) chunks) =
    Inr (st0, [], take k (sent_bytes en st m))"
  using wire.feed_concat [of "(st0, new_decoder)" chunks en] assms(2-4) decoder_inv_new
    consume_sent_prefix [OF assms(1,5), of st0 "[]"]
  by (simp add: stream_feed_def stream_of_def new_decoder_def)

theorem nothing_early_witness:
  "map_sum id stream_of (fold_out (feed_decoder (sample_env False Unix)) (sample_statics, new_decoder)
     [take 40 (sent_bytes (sample_env False Unix) sample_statics sample_query)]) =
   Inr (sample_statics, [], take 40 (sent_bytes (sample_env False Unix) sample_statics sample_query))"
proof (rule nothing_early)
  show "sendable (sample_env False Unix) (sample_statics, sample_query)"
    by (rule sample_query_sendable)
  then show "[] \<notin> set [take 40 (sent_bytes (sample_env False Unix) sample_statics sample_query)]"
    "40 < length (sent_bytes (sample_env False Unix) sample_statics sample_query)"
    using sent_bytes_length [of "sample_env False Unix" sample_statics sample_query] by auto
qed simp_all

text \<open>
  After \<open>Reset\<close>, a new header with the first part of its body, and then the rest of the body.
\<close>

lemma Reset_fields:
  "vec (Reset d) = []" "compressSize (Reset d) = 0" "headerSize (Reset d) = 0"
  "header_buffer (Reset d) = header_buffer d" "ss_data (inbuf (Reset d)) = ss_data (inbuf d)"
  "ss_good (inbuf (Reset d))"
  by (simp_all add: Reset_def ss_clear_def)

lemma read_first_piece:
  assumes idle: "compressSize d = 0" "headerSize d = 0" "length (header_buffer d) = 40"
    and good: "ss_good (inbuf d)" and dg: "length dg = 32"
    and siz: "length part1 < unat siz" and part1: "part1 \<noteq> []"
  shows "\<exists>e. decoder_read en st d (frame_parts ser siz dg part1) = Inr (None, st, e)
    \<and> vec e = vec d \<and> header_buffer e = frame_parts ser siz dg [] \<and> compressSize e = siz
    \<and> serialSize e = ser \<and> remainSize e = siz - of_nat (length part1)
    \<and> inbuf e = \<lparr>ss_data = ss_data (inbuf d) @ part1, ss_good = True\<rparr>"
proof -
  let ?data = "frame_parts ser siz dg part1"
  obtain d' rest where fill: "fill_header d ?data = (d', rest)"
    by (cases "fill_header d ?data")
  have len: "length ?data = 40 + length part1"
    by (rule frame_parts_simps(1) [OF dg])
  have f: "rest = part1" "unat (headerSize d') = 40" "length (header_buffer d') = 40"
    "header_buffer d' = frame_parts ser siz dg []" "vec d' = vec d" "inbuf d' = inbuf d"
    "compressSize d' = 0"
    using fill_header_spec [OF _ _ fill] idle len
      frame_parts_simps(4,5) [OF dg, of ser siz part1 "[]"] by auto
  let ?o = "d'\<lparr>compressSize := siz, remainSize := siz, serialSize := ser\<rparr>"
  let ?e = "?o\<lparr>inbuf := ss_write part1 (inbuf d), remainSize := siz - of_nat (length part1)\<rparr>"
  have le: "siz - of_nat (length part1) \<le> siz"
  proof -
    have "of_nat (length part1) \<le> siz"
      using siz by (simp add: word_le_nat_alt unat_of_nat le_less_trans [OF mod_less_eq_dividend] less_imp_le)
    then show ?thesis by (simp add: word_le_nat_alt unat_sub)
  qed
  have nz: "siz \<noteq> 0" using siz by auto
  have store: "read_impl (Suc n) en st ?o part1 = Inr (None, st, ?e)" for n
    using siz nz le good f(6) by (simp add: Let_def ss_write_def c_assert_def)
  have loads: "load_be32 (header_buffer d') = ser" "load_be32 (drop 4 (header_buffer d')) = siz"
    using f(4) frame_parts_simps(2,3) [OF dg, of ser siz "[]" "[]"] by simp_all
  have "parseHeader (Suc (Suc n)) en st d ?data = Inr (st, ?e)" for n
    using fill idle part1 f(1,2,7) loads store [of n]
    by (simp add: Let_def)
  then have "read_impl (Suc (Suc (Suc n))) en st d ?data = Inr (None, st, ?e)" for n
    using idle good by (simp add: ss_write_def c_assert_def)
  from this [of "2 * length ?data"] show ?thesis
    using f good by (intro exI [of _ ?e]) (simp add: decoder_read_def ss_write_def numeral_3_eq_3)
qed

text \<open>C29. \<open>Reset\<close> does not discard the bytes of a half-received body. When the body of the next packet
  arrives in two pieces, the second read opens as its body not the two pieces, but the stale bytes
  and then the first piece, cut to the length of the first piece, and the second piece. What is
  left of the stale bytes and the first piece stays in the stream, for the packet after it.\<close>

theorem Reset_keeps_stale_bytes:
  fixes d :: decoder and part1 :: "byte list"
  defines "stored \<equiv> ss_data (inbuf d) @ part1"
  assumes "length (header_buffer d) = 40" and "length dg = 32"
    and "unat siz = length part1 + length part2" and "part1 \<noteq> []" and "part2 \<noteq> []"
  shows "\<exists>e. decoder_read en st (Reset d) (frame_parts ser siz dg part1) = Inr (None, st, e)
    \<and> vec e = []
    \<and> decoder_read en st2 e part2 =
        bind_out (open_body en st2 ser siz (frame_parts ser siz dg []) (take (length part1) stored @ part2))
          (\<lambda>(ret, st'). bind_out (c_assert (ndebug en) (ret \<noteq> None)) (\<lambda>_.
             Inr (ret, st', (vec_push ret (e\<lparr>inbuf := \<lparr>ss_data = drop (length part1) stored, ss_good = True\<rparr>\<rparr>))
                              \<lparr>compressSize := 0, headerSize := 0, remainSize := 0\<rparr>)))"
proof -
  have short: "length part1 < unat siz" using assms(4,6) by simp
  obtain e where e: "decoder_read en st (Reset d) (frame_parts ser siz dg part1) = Inr (None, st, e)"
      "vec e = vec (Reset d)" "header_buffer e = frame_parts ser siz dg []" "compressSize e = siz"
      "serialSize e = ser" "remainSize e = siz - of_nat (length part1)"
      "inbuf e = \<lparr>ss_data = stored, ss_good = True\<rparr>"
    using read_first_piece [of "Reset d" dg part1 siz en st ser] assms short
    by (auto simp: Reset_fields)
  have l: "unat (of_nat (length part1) :: u32) = length part1"
    using short unsigned_less [of siz, where 'a = nat] by (simp add: unat_of_nat)
  have le: "of_nat (length part1) \<le> siz"
    using l short by (simp add: word_le_nat_alt)
  have rem: "unat (remainSize e) = length part2" "unat (compressSize e - remainSize e) = length part1"
    "compressSize e \<noteq> 0"
    using e(4,6) l le assms(4) short by (auto simp: unat_sub)
  moreover have read: "length part1 \<le> length stored" by (simp add: stored_def)
  ultimately have body: "complete_body en st2 e part2 =
      bind_out (open_body en st2 ser siz (frame_parts ser siz dg []) (take (length part1) stored @ part2))
        (\<lambda>(ret, st'). bind_out (c_assert (ndebug en) (ret \<noteq> None)) (\<lambda>_.
           Inr (ret, st', (vec_push ret (e\<lparr>inbuf := \<lparr>ss_data = drop (length part1) stored, ss_good = True\<rparr>\<rparr>))
                            \<lparr>compressSize := 0, headerSize := 0\<rparr>)))"
    using e read by (simp add: complete_body_def ss_read_def Let_def)
  have rest: "parseHeader (Suc n) en st' (x\<lparr>headerSize := 0, remainSize := 0, compressSize := 0\<rparr>) []
      = Inr (st', x\<lparr>headerSize := 0, remainSize := 0, compressSize := 0\<rparr>)" for n st' x
    by (simp add: PACKAGE_HEADER_SIZE_eq)
  have "read_impl (Suc (Suc n)) en st2 e part2 =
        bind_out (open_body en st2 ser siz (frame_parts ser siz dg []) (take (length part1) stored @ part2))
          (\<lambda>(ret, st'). bind_out (c_assert (ndebug en) (ret \<noteq> None)) (\<lambda>_.
             Inr (ret, st', (vec_push ret (e\<lparr>inbuf := \<lparr>ss_data = drop (length part1) stored, ss_good = True\<rparr>\<rparr>))
                              \<lparr>compressSize := 0, headerSize := 0, remainSize := 0\<rparr>)))" for n
    using rem body
    by (cases "open_body en st2 ser siz (frame_parts ser siz dg []) (take (length part1) stored @ part2)")
      (auto simp: rest c_assert_def vec_push_def)
  from this [of "2 * length part2 + 1"] show ?thesis
    by (intro exI [of _ e] conjI, simp_all only: e(1,2) Reset_fields)
      (simp only: decoder_read_def numeral_3_eq_3 add_Suc_right One_nat_def add_0_right)
qed

theorem Reset_keeps_stale_bytes_witness:
  "\<exists>e. decoder_read (sample_env False Unix) sample_statics
        (Reset (new_decoder\<lparr>compressSize := 9, remainSize := 8, headerSize := 40,
                 inbuf := \<lparr>ss_data = [42], ss_good = True\<rparr>\<rparr>))
        (frame_parts 2 2 (replicate 32 0) [1]) = Inr (None, sample_statics, e)
    \<and> decoder_read (sample_env False Unix) sample_statics e [2] = Inl Assert_failed"
proof -
  let ?d = "new_decoder\<lparr>compressSize := 9, remainSize := 8, headerSize := 40,
              inbuf := \<lparr>ss_data = [42], ss_good = True\<rparr>\<rparr>"
  have stale_digest: "replicate 32 (0 :: byte) \<noteq> 42 # 2 # replicate 30 0"
    by (auto dest: arg_cong [of _ _ hd])
  have "open_body (sample_env False Unix) sample_statics 2 2
      (frame_parts 2 2 (replicate 32 0) []) ([42] @ [2]) = Inl Assert_failed"
    using stale_digest by (simp add: open_body_def sample_env_def SHA256_def sample_sha_def frame_parts_def)
  then show ?thesis
    using Reset_keeps_stale_bytes [of ?d "replicate 32 0" 2 "[1]" "[2]" "sample_env False Unix"
        sample_statics 2 sample_statics]
    by (auto simp: new_decoder_def)
qed

end
