(* ===== verification/Server_Properties.thy ===== *)
theory Server_Properties
  imports Uv_Server Database_Properties Packet_Properties
begin

text \<open>
  The server as a transition system over the callbacks of libuv, and what holds in the states it
  reaches: the registry of connections, shutting down, what is refused, what is acknowledged, and
  the order of what is sent.
\<close>

section \<open>The queue of packets to send\<close>

interpretation sendq: fifo sendq_push sendq_front sendq_pop sv_sending
  by unfold_locales (simp_all add: sendq_push_def sendq_front_def sendq_pop_def)

lemma WriteToNetwork_frame:
  "WriteToNetwork h msg sock s = Inr s' \<Longrightarrow>
     \<exists>buf. s' = s\<lparr>sv_sending := sv_sending s @ [\<lparr>so_buf = buf, so_sock = sock\<rparr>], sv_writeAsync := True\<rparr>"
  by (auto simp: WriteToNetwork_def bind_out_Inr_iff sendq_push_def)

lemma answer_frame:
  "answer h c mst s = Inr s' \<Longrightarrow>
     \<exists>buf. s' = s\<lparr>sv_statics := snd mst,
                  sv_sending := sv_sending s @ [\<lparr>so_buf = buf, so_sock = c\<rparr>], sv_writeAsync := True\<rparr>"
  unfolding answer_def by (drule WriteToNetwork_frame) auto

lemma write_loop_all:
  assumes "\<And>o1. o1 \<in> set (sv_sending s) \<Longrightarrow>
    map_find (so_sock o1) (sv_heap s) \<noteq> None \<and> map_find (so_sock o1) (sv_closing s) = None"
  shows "write_loop s =
    Inr (s\<lparr>sv_sending := [], sv_net := sv_net s @ map (\<lambda>o1. (so_sock o1, so_buf o1)) (sv_sending s)\<rparr>)"
  using assms
proof (induction "sv_sending s" arbitrary: s)
  case Nil
  then show ?case by (simp add: write_loop.simps)
next
  case (Cons o1 os)
  let ?s = "sendq_pop s\<lparr>sv_net := sv_net s @ [(so_sock o1, so_buf o1)]\<rparr>"
  have q: "sv_sending s = o1 # os" using Cons.hyps(2) by simp
  have "write_loop s = write_loop ?s"
    using Cons.prems [of o1] q
    by (subst write_loop.simps) (auto simp: sendq_front_def uv_write_def)
  also have "\<dots> = Inr (?s\<lparr>sv_sending := [],
      sv_net := sv_net ?s @ map (\<lambda>o1. (so_sock o1, so_buf o1)) (sv_sending ?s)\<rparr>)"
    using Cons.prems q by (intro Cons.hyps(1)) (simp_all add: sendq_pop_def)
  finally show ?case by (simp add: q sendq_pop_def)
qed

section \<open>The registry\<close>

text \<open>
  Every client that exists is registered under its socket, nothing else is, and what is stored
  under a socket is the client of that socket; what is being closed exists; numbers are not reused.
\<close>

definition registry_inv :: "'db server \<Rightarrow> bool" where
  "registry_inv s \<longleftrightarrow>
     map_keys_distinct (sv_heap s) \<and> map_keys_distinct (sv_map s) \<and> map_keys_distinct (sv_closing s)
     \<and> (\<forall>c. (map_find c (sv_map s) = None) = (map_find c (sv_heap s) = None))
     \<and> (\<forall>c k. map_find c (sv_map s) = Some k \<longrightarrow> k = c)
     \<and> (\<forall>c. map_find c (sv_heap s) = None \<longrightarrow> map_find c (sv_closing s) = None)
     \<and> (\<forall>c. sv_next s \<le> c \<longrightarrow> map_find c (sv_heap s) = None)"

text \<open>Two states with the same connections.\<close>

definition same_registry :: "'db server \<Rightarrow> 'db server \<Rightarrow> bool" where
  "same_registry s s' \<longleftrightarrow>
     sv_map s' = sv_map s \<and> sv_closing s' = sv_closing s \<and> sv_next s' = sv_next s
     \<and> (map_keys_distinct (sv_heap s) \<longrightarrow> map_keys_distinct (sv_heap s'))
     \<and> (\<forall>c. (map_find c (sv_heap s') = None) = (map_find c (sv_heap s) = None))"

lemma same_registry_refl [simp]: "same_registry s s"
  by (simp add: same_registry_def)

lemma same_registry_trans: "same_registry s t \<Longrightarrow> same_registry t u \<Longrightarrow> same_registry s u"
  by (auto simp: same_registry_def)

lemma same_registry_inv: "same_registry s s' \<Longrightarrow> registry_inv s \<Longrightarrow> registry_inv s'"
  by (auto simp: same_registry_def registry_inv_def)

lemma set_client_registry:
  "map_find c (sv_heap s) \<noteq> None \<Longrightarrow> same_registry s (set_client c cl s)"
  by (auto simp: same_registry_def set_client_def clients.find_assign clients.inv_assign)

lemma answer_registry: "answer h c mst s = Inr s' \<Longrightarrow> same_registry s s'"
  by (drule answer_frame) (auto simp: same_registry_def)

lemma same_registry_update [simp]:
  "same_registry s (s\<lparr>sv_statics := st\<rparr>)" "same_registry s (s\<lparr>sv_work := w\<rparr>)"
  "same_registry s (s\<lparr>sv_db := db\<rparr>)" "same_registry s (s\<lparr>sv_dbConnected := b\<rparr>)"
  "same_registry s (s\<lparr>sv_stopAsync := b\<rparr>)" "same_registry s (s\<lparr>sv_writeAsync := b\<rparr>)"
  by (simp_all add: same_registry_def)

lemma handle_message_registry:
  assumes "map_find c (sv_heap s) \<noteq> None" and "handle_message h c cl ret s = Inr s'"
  shows "same_registry s s'"
proof -
  have set1: "same_registry s (set_client c cl' (s\<lparr>sv_work := w\<rparr>))" for cl' w
    by (rule same_registry_trans [OF _ set_client_registry]) (use assms(1) in simp_all)
  have set2: "same_registry s (set_client c cl' (s\<lparr>sv_db := db\<rparr>))" for cl' db
    by (rule same_registry_trans [OF _ set_client_registry]) (use assms(1) in simp_all)
  show ?thesis
    using assms(2) set1
    by (auto simp: handle_message_def bind_out_Inr_iff Let_def
        split: operation.splits option.splits if_splits dest!: answer_registry
        dest: same_registry_trans [OF set2] same_registry_trans [OF set_client_registry [OF assms(1)]])
qed

lemma readFromNetwork_registry:
  assumes "readFromNetwork h c buf s = Inr s'"
  shows "same_registry s s'"
proof -
  from assms obtain cl x st d where cl: "map_find c (sv_heap s) = Some cl"
      and rd: "decoder_read (h_env h) (sv_statics s) (cl_decoder cl) buf = Inr (x, st, d)"
    by (auto simp: readFromNetwork_def bind_out_Inr_iff deref_client_def split: option.splits)
  obtain mo d' where gm: "GetProtobufMessage d = (mo, d')" by (cases "GetProtobufMessage d")
  let ?s = "set_client c (cl\<lparr>cl_decoder := d'\<rparr>) (s\<lparr>sv_statics := st\<rparr>)"
  have set1: "same_registry s ?s"
    by (rule same_registry_trans [OF _ set_client_registry]) (use cl in simp_all)
  have live: "map_find c (sv_heap ?s) \<noteq> None"
    by (simp add: set_client_def clients.find_assign)
  have "same_registry ?s s'"
    using assms
    by (auto simp: readFromNetwork_def deref_client_def cl rd gm Let_def
        split: option.splits if_splits dest: answer_registry handle_message_registry [OF live])
  with set1 show ?thesis by (rule same_registry_trans)
qed

lemma run_work_registry:
  assumes "run_work h w s = Inr s'"
  shows "same_registry s s'"
proof -
  obtain c p where w: "w = (c, p)" by (cases w)
  from assms obtain cl d where "deref_client c s = Inr cl" "deref_dbclient h cl = Inr d"
    by (auto simp: run_work_def w bind_out_Inr_iff)
  with assms show ?thesis
    by (cases "DB_InsertWindowsEvents (h_px h) d (GetEvents p) (sv_db s)")
      (auto simp: run_work_def w Let_def split: if_splits dest!: answer_registry
        dest: same_registry_trans [OF same_registry_update(3)])
qed

lemma write_loop_registry: "write_loop s = Inr s' \<Longrightarrow> same_registry s s'"
proof (induction s arbitrary: s' rule: write_loop.induct)
  case (1 s)
  show ?case
  proof (cases "sv_sending s")
    case Nil
    with "1.prems" show ?thesis by (simp add: write_loop.simps)
  next
    case (Cons o1 os)
    with "1.prems" obtain s1 where s1: "uv_write (sendq_front s) s = Inr s1"
        "write_loop (sendq_pop s\<lparr>sv_net := sv_net s1\<rparr>) = Inr s'"
      by (subst (asm) write_loop.simps) (auto split: sum.splits)
    then have "same_registry (sendq_pop s\<lparr>sv_net := sv_net s1\<rparr>) s'"
      using "1.IH" [OF _ s1(1) s1(2)] Cons by simp
    then show ?thesis by (simp add: same_registry_def sendq_pop_def)
  qed
qed

section \<open>Transitions\<close>

text \<open>
  What libuv and the operating system do to the process: a connection arrives, a socket becomes
  readable, the callback of a closing socket is due, a wake-up is delivered, a thread of the pool
  runs a batch, a signal arrives, or the database connection breaks.
\<close>

datatype server_event =
    New_connection int bool
  | Readable nat read_result bool
  | Close_due nat
  | Write_wakeup
  | Stop_wakeup
  | Work_runs nat
  | Pipe_signal "nat \<Rightarrow> attempt"
  | Term_signal
  | Database_lost

text \<open>libuv reads from sockets that are open and not being closed, and closes those it was told to.\<close>

fun event_enabled :: "server_event \<Rightarrow> 'db server \<Rightarrow> bool" where
  "event_enabled (Readable c _ _) s \<longleftrightarrow>
     map_find c (sv_heap s) \<noteq> None \<and> map_find c (sv_closing s) = None"
| "event_enabled (Close_due c) s \<longleftrightarrow> map_find c (sv_closing s) = Some True"
| "event_enabled Write_wakeup s \<longleftrightarrow> sv_writeAsync s"
| "event_enabled Stop_wakeup s \<longleftrightarrow> sv_stopAsync s"
| "event_enabled (Work_runs i) s \<longleftrightarrow> i < length (sv_work s)"
| "event_enabled _ s \<longleftrightarrow> True"

fun run_event :: "'db host \<Rightarrow> server_event \<Rightarrow> 'db server \<Rightarrow> 'db server outcome" where
  "run_event h (New_connection status accepted) s = uvConnectCB (ndebug (h_env h)) status accepted s"
| "run_event h (Readable c r has_base) s = uvReadCB h c r has_base s"
| "run_event h (Close_due c) s = uvCloseCB (ndebug (h_env h)) c s"
| "run_event h Write_wakeup s = async_WriteToNetwork s"
| "run_event h Stop_wakeup s = async_Stop s"
| "run_event h (Work_runs i) s =
     run_work h (sv_work s ! i) (s\<lparr>sv_work := take i (sv_work s) @ drop (i + 1) (sv_work s)\<rparr>)"
| "run_event h (Pipe_signal attempt) s = SIGPIPEHandler h attempt s"
| "run_event h Term_signal s = Inr (SIGTERMHandler s)"
| "run_event h Database_lost s = Inr (s\<lparr>sv_db := (sv_db s)\<lparr>db_conn := Conn_live False\<rparr>\<rparr>)"

inductive server_step :: "'db host \<Rightarrow> 'db server \<Rightarrow> 'db server \<Rightarrow> bool" for h where
  step: "event_enabled e s \<Longrightarrow> run_event h e s = Inr s' \<Longrightarrow> server_step h s s'"

inductive_cases server_stepE: "server_step h s s'"

inductive server_reach :: "'db host \<Rightarrow> 'db server \<Rightarrow> 'db server \<Rightarrow> bool" for h and s0 where
  start: "server_reach h s0 s0"
| more: "server_reach h s0 s \<Longrightarrow> server_step h s s' \<Longrightarrow> server_reach h s0 s'"

lemma registry_inv_new [simp]: "registry_inv (new_server raw st db)"
  by (simp add: registry_inv_def new_server_def clients.inv_vacant clients.find_vacant)

lemma uvConnectCB_inv:
  assumes "registry_inv s" and "uvConnectCB ndbg status accepted s = Inr s'"
  shows "registry_inv s'"
  using assms
  by (auto simp: uvConnectCB_def Let_def AddClient_def bind_out_Inr_iff registry_inv_def set_client_def
      clients.find_assign clients.inv_assign sockets.inv_emplace sockets.find_emplace split: if_splits)

lemma uvReadCB_inv:
  assumes "registry_inv s" and "map_find c (sv_heap s) \<noteq> None" and "uvReadCB h c r hb s = Inr s'"
  shows "registry_inv s'"
proof (cases r)
  case (Read_bytes bs)
  with assms show ?thesis
    by (auto simp: uvReadCB_def bind_out_Inr_iff split: if_splits
        dest: readFromNetwork_registry same_registry_inv)
qed (use assms in \<open>auto simp: uvReadCB_def bind_out_Inr_iff Let_def registry_inv_def
      clients.find_assign clients.inv_assign split: if_splits\<close>)

lemma uvCloseCB_inv:
  assumes "registry_inv s" and "uvCloseCB ndbg c s = Inr s'"
  shows "registry_inv s'"
  using assms
  by (auto simp: uvCloseCB_def ClientDisconnect_def bind_out_Inr_iff registry_inv_def
      clients.find_erase clients.inv_erase split: if_splits)

lemma RemoveClient_live:
  "registry_inv s \<Longrightarrow> map_find c (sv_heap s) \<noteq> None \<Longrightarrow>
     RemoveClient c s = Inl (Undefined Use_after_free)"
  by (cases "map_find c (sv_map s)") (auto simp: registry_inv_def RemoveClient_def)

lemma stop_with_clients:
  assumes "registry_inv s" and "sv_heap s \<noteq> []"
  shows "async_Stop s = Inl (Undefined Use_after_free)"
proof -
  obtain c cl r where heap: "sv_heap s = (c, cl) # r"
    using assms(2) by (metis list.exhaust surj_pair)
  let ?s = "s\<lparr>sv_stopAsync := False\<rparr>"
  have "registry_inv ?s" by (rule same_registry_inv [OF same_registry_update(5) assms(1)])
  moreover have "map_find c (sv_heap ?s) = Some cl" by (simp add: heap map_find_def)
  ultimately have "stop_handle (Some c) ?s = Inl (Undefined Use_after_free)"
    by (simp add: stop_handle_def deref_client_def RemoveClient_live)
  then show ?thesis by (simp add: async_Stop_def heap stop_handle_def [of None])
qed

lemma async_Stop_inv:
  assumes "registry_inv s" and "async_Stop s = Inr s'"
  shows "registry_inv s'"
proof (cases "sv_heap s = []")
  case True
  with assms(2) have "s' = s\<lparr>sv_stopAsync := False\<rparr>"
    by (simp add: async_Stop_def stop_handle_def)
  then show ?thesis using same_registry_inv [OF same_registry_update(5) assms(1)] by simp
next
  case False
  with assms show ?thesis by (simp add: stop_with_clients)
qed

lemma SIGPIPE_registry:
  assumes "SIGPIPEHandler h a s = Inr s'"
  shows "same_registry s s'"
proof -
  from assms obtain status where st: "CheckConnectStatus (sv_db s) = Inr status"
    by (cases "CheckConnectStatus (sv_db s)") (simp_all add: SIGPIPEHandler_def)
  show ?thesis
  proof (cases status)
    case True
    with assms st show ?thesis by (auto simp: SIGPIPEHandler_def)
  next
    case False
    with assms st obtain ok n db where
        "DB_Connect (h_px h) (ndebug (h_env h)) a (sv_db s) = Inr (ok, n, db)"
      by (cases "DB_Connect (h_px h) (ndebug (h_env h)) a (sv_db s)")
        (auto simp: SIGPIPEHandler_def Let_def)
    with assms st False show ?thesis
      by (cases ok) (auto simp: SIGPIPEHandler_def Let_def StopLoop_def same_registry_def)
  qed
qed

lemma server_step_inv:
  assumes "server_step h s s'" and inv: "registry_inv s"
  shows "registry_inv s'"
proof -
  obtain e where e: "event_enabled e s" "run_event h e s = Inr s'"
    using assms(1) by (auto elim: server_stepE)
  show ?thesis
  proof (cases e)
    case (Work_runs i)
    with e have "same_registry (s\<lparr>sv_work := take i (sv_work s) @ drop (i + 1) (sv_work s)\<rparr>) s'"
      by (auto dest: run_work_registry)
    from same_registry_inv [OF same_registry_trans [OF same_registry_update(2) this] inv]
    show ?thesis .
  next
    case Write_wakeup
    with e have "same_registry (s\<lparr>sv_writeAsync := False\<rparr>) s'"
      by (auto simp: async_WriteToNetwork_def dest: write_loop_registry)
    from same_registry_inv [OF same_registry_trans [OF same_registry_update(6) this] inv]
    show ?thesis .
  next
    case Stop_wakeup
    with e inv show ?thesis by (auto intro: async_Stop_inv)
  next
    case (New_connection st a)
    with e inv show ?thesis by (auto intro: uvConnectCB_inv)
  next
    case (Readable c r b)
    with e inv show ?thesis by (auto intro: uvReadCB_inv)
  next
    case (Close_due c)
    with e inv show ?thesis by (auto intro: uvCloseCB_inv)
  next
    case (Pipe_signal a)
    with e have "same_registry s s'" by (auto intro: SIGPIPE_registry)
    from same_registry_inv [OF this inv] show ?thesis .
  next
    case Term_signal
    with e have "s' = s\<lparr>sv_stopAsync := True\<rparr>" by (simp add: SIGTERMHandler_def StopLoop_def)
    with same_registry_inv [OF same_registry_update(5) inv] show ?thesis by simp
  next
    case Database_lost
    with e have "s' = s\<lparr>sv_db := (sv_db s)\<lparr>db_conn := Conn_live False\<rparr>\<rparr>" by simp
    with same_registry_inv [OF same_registry_update(3) inv] show ?thesis by simp
  qed
qed

lemma server_reach_inv: "server_reach h s0 s \<Longrightarrow> registry_inv s0 \<Longrightarrow> registry_inv s"
  by (induction rule: server_reach.induct) (auto dest: server_step_inv)

lemma no_clients_iff: "sv_heap s = [] \<longleftrightarrow> (\<forall>c. map_find c (sv_heap s) = None)"
  by (cases "sv_heap s") (auto simp: map_find_def split: if_splits)

text \<open>Without assertions compiled out, no step adds the first client.\<close>

lemma server_step_no_clients:
  assumes "server_step h s s'" and "\<not> ndebug (h_env h)" and "registry_inv s" and "sv_heap s = []"
  shows "sv_heap s' = []"
proof -
  obtain e where e: "event_enabled e s" "run_event h e s = Inr s'"
    using assms(1) by (auto elim: server_stepE)
  have none: "map_find c (sv_heap s) = None" "map_find c (sv_map s) = None"
      "map_find c (sv_closing s) = None" for c
    using assms(3,4) by (auto simp: registry_inv_def map_find_def)
  have keep: "sv_heap s' = []" if "same_registry t s'" "sv_heap t = []" for t
    using that unfolding no_clients_iff [of s'] no_clients_iff [of t] by (simp add: same_registry_def)
  show ?thesis
  proof (cases e)
    case (New_connection st a)
    with e assms(2,4) none show ?thesis
      by (auto simp: uvConnectCB_def AddClient_def set_client_def Let_def split: if_splits)
  next
    case (Work_runs i)
    with e show ?thesis using assms(4) by (auto intro: keep [OF run_work_registry])
  next
    case Write_wakeup
    with e show ?thesis using assms(4)
      by (auto simp: async_WriteToNetwork_def intro: keep [OF write_loop_registry])
  next
    case Stop_wakeup
    with e show ?thesis using assms(4) by (simp add: async_Stop_def stop_handle_def) auto
  next
    case (Pipe_signal a)
    with e show ?thesis using assms(4) by (auto intro: keep [OF SIGPIPE_registry])
  next
    case Term_signal
    with e show ?thesis using assms(4) by (auto simp: SIGTERMHandler_def StopLoop_def)
  next
    case Database_lost
    with e show ?thesis using assms(4) by auto
  qed (use e none in auto)
qed

section \<open>A sample server\<close>

definition sample_dbclient :: dbclient where
  "sample_dbclient = \<lparr>dc_clientID = 1, dc_clientName = ''h'', dc_clientOs = None,
     dc_clientOsVersion = ''10'', dc_clientUniqueID = ''m1'', dc_clientRegisterTime = []\<rparr>"

definition sample_host :: "bool \<Rightarrow> dbclient option \<Rightarrow> sample_tables host" where
  "sample_host nd raw = \<lparr>h_env = sample_env nd Unix, h_px = sample_px, h_raw_clientID = 0,
     h_raw_client = raw, h_past_end = Some 0\<rparr>"

definition sample_server :: "sample_tables server" where
  "sample_server = new_server False sample_statics sample_database"

text \<open>One client, connected and known to the database layer.\<close>

definition one_client :: "sample_tables server" where
  "one_client = sample_server\<lparr>sv_heap := [(0, new_client\<lparr>cl_client := Some sample_dbclient\<rparr>)],
     sv_next := 1, sv_map := [(0, 0)]\<rparr>"

lemma one_client_inv: "registry_inv one_client"
  by (auto simp: registry_inv_def one_client_def sample_server_def new_server_def map_find_def
      map_keys_distinct_def)

section \<open>Properties\<close>

text \<open>C8. In every state the server reaches, each client object is registered, the client stored under
  a socket is the one of that very socket, no other key is in the map, what is being closed still
  exists, and no number is reused.\<close>

theorem registry_invariant:
  "server_reach h (new_server raw st db) s \<Longrightarrow> registry_inv s"
  by (rule server_reach_inv [OF _ registry_inv_new])

theorem registry_invariant_witness:
  "\<exists>s. server_reach (sample_host True None) sample_server s \<and> sv_heap s \<noteq> [] \<and> registry_inv s"
proof -
  let ?h = "sample_host True None"
  obtain s where s: "run_event ?h (New_connection 0 True) sample_server = Inr s"
    by (simp add: uvConnectCB_def AddClient_def sample_host_def sample_env_def Let_def)
  have "server_step ?h sample_server s"
    by (rule step [OF _ s]) simp
  then have reach: "server_reach ?h sample_server s"
    by (rule more [OF start])
  moreover have "registry_inv s"
    by (rule registry_invariant [OF reach [unfolded sample_server_def]])
  moreover have "sv_heap s \<noteq> []"
    using s by (auto simp: uvConnectCB_def AddClient_def sample_host_def sample_env_def Let_def
        sample_server_def new_server_def set_client_def map_assign_def)
  ultimately show ?thesis by blast
qed

text \<open>When the callback of a closed socket runs, its assertion holds and its client is found: the
  client and its entry disappear, and every other client stays as it was.\<close>

theorem closing_removes_one_client:
  assumes "registry_inv s" and "map_find c (sv_closing s) = Some b"
  shows "\<exists>s'. uvCloseCB ndbg c s = Inr s'
    \<and> (\<forall>c'. map_find c' (sv_heap s') = (if c' = c then None else map_find c' (sv_heap s)))
    \<and> (\<forall>c'. map_find c' (sv_map s') = (if c' = c then None else map_find c' (sv_map s)))"
proof -
  from assms have "map_find c (sv_heap s) \<noteq> None"
    by (auto simp: registry_inv_def)
  moreover from this assms(1) have "map_find c (sv_map s) \<noteq> None"
    by (auto simp: registry_inv_def)
  ultimately show ?thesis
    using assms(1)
    by (auto simp: uvCloseCB_def ClientDisconnect_def deref_client_def registry_inv_def
        clients.find_erase)
qed

theorem closing_removes_one_client_witness:
  "\<exists>s'. uvCloseCB False 0 (one_client\<lparr>sv_closing := [(0, True)]\<rparr>) = Inr s'
    \<and> map_find 0 (sv_heap s') = None"
proof -
  have "registry_inv (one_client\<lparr>sv_closing := [(0, True)]\<rparr>)"
    by (auto simp: registry_inv_def one_client_def sample_server_def new_server_def map_find_def
        map_keys_distinct_def)
  from closing_removes_one_client [OF this, of 0 True False] show ?thesis
    by (auto simp: map_find_def)
qed

text \<open>C32. A batch outlives its client: when a socket is closed while a work item of its client is
  still queued, the thread that runs the item later reads the deleted client.\<close>

theorem work_after_disconnect:
  assumes "registry_inv s" and "map_find c (sv_closing s) = Some True"
    and "i < length (sv_work s)" and "fst (sv_work s ! i) = c"
  shows "\<exists>s'. run_event h (Close_due c) s = Inr s' \<and> event_enabled (Work_runs i) s'
    \<and> run_event h (Work_runs i) s' = Inl (Undefined Use_after_free)"
proof -
  from assms(1,2) have "map_find c (sv_heap s) \<noteq> None"
    by (auto simp: registry_inv_def)
  moreover from this assms(1) have "map_find c (sv_map s) \<noteq> None"
    by (auto simp: registry_inv_def)
  ultimately have "run_event h (Close_due c) s = Inr (s\<lparr>sv_map := map_erase c (sv_map s),
      sv_heap := map_erase c (sv_heap s), sv_closing := map_erase c (sv_closing s)\<rparr>)"
    by (auto simp: uvCloseCB_def ClientDisconnect_def deref_client_def)
  moreover have "map_find c (map_erase c (sv_heap s)) = None"
    using assms(1) by (simp add: registry_inv_def clients.find_erase)
  ultimately show ?thesis
    using assms(3,4) by (simp add: run_work_def deref_client_def split_def)
qed

theorem work_after_disconnect_witness:
  "\<exists>s'. run_event (sample_host True None) (Close_due 0)
      (one_client\<lparr>sv_closing := [(0, True)], sv_work := [(0, sample_log)]\<rparr>) = Inr s'
    \<and> run_event (sample_host True None) (Work_runs 0) s' = Inl (Undefined Use_after_free)"
proof -
  have "registry_inv (one_client\<lparr>sv_closing := [(0, True)], sv_work := [(0, sample_log)]\<rparr>)"
    by (auto simp: registry_inv_def one_client_def sample_server_def new_server_def map_find_def
        map_keys_distinct_def)
  from work_after_disconnect [OF this, of 0 0 "sample_host True None"] show ?thesis
    by (auto simp: map_find_def)
qed

lemma assert_build_empty:
  assumes "server_reach h (new_server raw st db) s" and "\<not> ndebug (h_env h)"
  shows "sv_heap s = []"
  using assms(1)
proof (induction rule: server_reach.induct)
  case start
  show ?case by (simp add: new_server_def)
next
  case (more s s')
  from server_reach_inv [OF more.hyps(1) registry_inv_new]
  show ?case by (rule server_step_no_clients [OF more.hyps(2) assms(2) _ more.IH])
qed

text \<open>A server built with assertions never serves anybody: \<open>AddClient\<close> asserts that a new socket
  is in the map already, so the first connection aborts, and no state with a client is reached.\<close>

theorem assert_build_no_clients:
  assumes "server_reach h (new_server raw st db) s" and "\<not> ndebug (h_env h)"
  shows "sv_heap s = []
    \<and> run_event h (New_connection 0 accepted) s = Inl Assert_failed"
proof -
  note none = assert_build_empty [OF assms]
  have "map_find c (sv_map s) = None" for c
    using server_reach_inv [OF assms(1) registry_inv_new] none by (auto simp: registry_inv_def map_find_def)
  then show ?thesis
    using assms(2) none by (simp add: uvConnectCB_def AddClient_def set_client_def Let_def)
qed

theorem assert_build_no_clients_witness:
  "run_event (sample_host False None) (New_connection 0 True) sample_server = Inl Assert_failed"
proof -
  have "\<not> ndebug (h_env (sample_host False None))" by (simp add: sample_host_def sample_env_def)
  from assert_build_no_clients [OF start this] show ?thesis unfolding sample_server_def by blast
qed

text \<open>In a build without assertions, whatever the first read of a new connection delivers, bytes
  or an error, its callback follows the pointer to the database client that nothing has set.\<close>

theorem first_read_uninitialised:
  assumes "h_raw_client h = None" and "0 \<le> status" and "uvConnectCB ndbg status True s = Inr s'"
  shows "uvReadCB h (sv_next s) r has_base s' = Inl (Undefined Uninit_pointer)"
  using assms
  by (auto simp: uvConnectCB_def AddClient_def set_client_def Let_def bind_out_Inr_iff uvReadCB_def
      deref_client_def deref_dbclient_def new_client_def clients.find_assign)

theorem first_read_uninitialised_witness:
  "\<exists>s'. uvConnectCB True 0 True sample_server = Inr s'
    \<and> uvReadCB (sample_host True None) 0 (Read_bytes [1]) True s' = Inl (Undefined Uninit_pointer)"
proof -
  obtain s' where "uvConnectCB True 0 True sample_server = Inr s'"
    by (simp add: uvConnectCB_def AddClient_def Let_def)
  with first_read_uninitialised [of "sample_host True None" 0 True sample_server s']
  show ?thesis by (simp add: sample_host_def sample_server_def new_server_def)
qed

text \<open>Stopping the loop while a client is connected always ends in a use of freed memory: the walk
  over the handles removes the client from the map and reads the element it has erased.\<close>

theorem shutdown_with_clients:
  assumes "registry_inv s" and "sv_heap s \<noteq> []"
  shows "run_event h Stop_wakeup (SIGTERMHandler s) = Inl (Undefined Use_after_free)"
proof -
  have "registry_inv (SIGTERMHandler s)" "sv_heap (SIGTERMHandler s) = sv_heap s"
    using same_registry_inv [OF same_registry_update(5) assms(1)]
    by (simp_all add: SIGTERMHandler_def StopLoop_def)
  with assms(2) show ?thesis by (simp add: stop_with_clients)
qed

theorem shutdown_with_clients_witness:
  "run_event (sample_host True None) Stop_wakeup (SIGTERMHandler one_client) =
   Inl (Undefined Use_after_free)"
  by (rule shutdown_with_clients [OF one_client_inv]) (simp add: one_client_def)

text \<open>C19. Packets leave in the order in which they were given to \<open>WriteToNetwork\<close>, each with the bytes
  of its message and to the socket it was meant for, when all those sockets are open.\<close>

theorem packets_sent_in_order:
  assumes "sv_sending s = []"
    and "fold_out (\<lambda>s (m, c). WriteToNetwork h m c s) s mcs = Inr s1"
    and "\<forall>(m, c) \<in> set mcs. map_find c (sv_heap s) \<noteq> None \<and> map_find c (sv_closing s) = None"
  shows "\<exists>s2. async_WriteToNetwork s1 = Inr s2 \<and> sv_sending s2 = []
    \<and> sv_net s2 = sv_net s @ map (\<lambda>(m, c). (c, sent_bytes (h_env h) (sv_statics s) m)) mcs"
proof -
  let ?obj = "\<lambda>(m, c). \<lparr>so_buf = sent_bytes (h_env h) (sv_statics s) m, so_sock = c\<rparr>"
  have queued: "s1 = (fold sendq_push (map ?obj mcs) s)\<lparr>sv_writeAsync := sv_writeAsync s1\<rparr>"
    using assms(2)
  proof (induction mcs arbitrary: s1 rule: rev_induct)
    case Nil
    then show ?case by simp
  next
    case (snoc mc mcs)
    obtain m c where mc: "mc = (m, c)" by (cases mc)
    from snoc.prems obtain t where t: "fold_out (\<lambda>s (m, c). WriteToNetwork h m c s) s mcs = Inr t"
        and w: "WriteToNetwork h m c t = Inr s1"
      by (auto simp: fold_out_append bind_out_Inr_iff mc)
    have st: "sv_statics (fold sendq_push os u) = sv_statics u" for os and u :: "'a server"
      by (induction os arbitrary: u) (simp_all add: sendq_push_def)
    have "sv_statics t = sv_statics s"
      by (subst snoc.IH [OF t]) (simp add: st)
    with w have "s1 = (sendq_push (?obj mc) t)\<lparr>sv_writeAsync := True\<rparr>"
      by (auto simp: WriteToNetwork_def bind_out_Inr_iff sent_bytes_def mc)
    then have "s1 = (sendq_push (?obj mc)
        ((fold sendq_push (map ?obj mcs) s)\<lparr>sv_writeAsync := sv_writeAsync t\<rparr>))\<lparr>sv_writeAsync := True\<rparr>"
      by (subst (asm) snoc.IH [OF t])
    moreover have "(sendq_push o1 (u\<lparr>sv_writeAsync := b\<rparr>))\<lparr>sv_writeAsync := True\<rparr> =
        (sendq_push o1 u)\<lparr>sv_writeAsync := True\<rparr>" for o1 b and u :: "'a server"
      by (simp add: sendq_push_def)
    ultimately show ?case by simp
  qed
  have frame: "sv_heap (fold sendq_push os u) = sv_heap u \<and> sv_closing (fold sendq_push os u) = sv_closing u
      \<and> sv_net (fold sendq_push os u) = sv_net u" for os and u :: "'a server"
    by (induction os arbitrary: u) (simp_all add: sendq_push_def)
  have sending: "sv_sending s1 = map ?obj mcs"
    by (subst queued) (simp add: sendq.contents_fold_push assms(1))
  have heap: "sv_heap s1 = sv_heap s" "sv_closing s1 = sv_closing s" "sv_net s1 = sv_net s"
    by (subst queued, simp add: frame)+
  have "write_loop (s1\<lparr>sv_writeAsync := False\<rparr>) = Inr (s1\<lparr>sv_writeAsync := False, sv_sending := [],
      sv_net := sv_net s1 @ map (\<lambda>o1. (so_sock o1, so_buf o1)) (sv_sending s1)\<rparr>)"
    using assms(3) by (subst write_loop_all) (auto simp: sending heap)
  then show ?thesis
    by (simp add: async_WriteToNetwork_def sending heap split_def comp_def)
qed

lemma WriteToNetwork_sendable:
  assumes "sendable (h_env h) (sv_statics s, m)"
  shows "WriteToNetwork h m c s =
    Inr (s\<lparr>sv_sending := sv_sending s @ [\<lparr>so_buf = sent_bytes (h_env h) (sv_statics s) m, so_sock = c\<rparr>],
           sv_writeAsync := True\<rparr>)"
  using assms sent_bytes_parts(1) [of "h_env h" "sv_statics s" m]
  by (simp add: WriteToNetwork_def sendable_def sendq_push_def)

theorem packets_sent_in_order_witness:
  "\<exists>s1 s2. WriteToNetwork (sample_host True None) sample_query 0 one_client = Inr s1
    \<and> async_WriteToNetwork s1 = Inr s2
    \<and> sv_net s2 = [(0, sent_bytes (sample_env True Unix) sample_statics sample_query)]"
proof -
  let ?h = "sample_host True None"
  have st: "h_env ?h = sample_env True Unix" "sv_statics one_client = sample_statics"
    by (simp_all add: sample_host_def one_client_def sample_server_def new_server_def)
  have "sendable (h_env ?h) (sv_statics one_client, sample_query)"
    unfolding st by (rule sample_query_sendable)
  from WriteToNetwork_sendable [OF this, of 0] obtain s1 where
    s1: "WriteToNetwork ?h sample_query 0 one_client = Inr s1" by blast
  have "\<exists>s2. async_WriteToNetwork s1 = Inr s2 \<and> sv_sending s2 = []
      \<and> sv_net s2 = sv_net one_client
          @ map (\<lambda>(m, c). (c, sent_bytes (h_env ?h) (sv_statics one_client) m)) [(sample_query, 0)]"
    by (rule packets_sent_in_order)
      (use s1 in \<open>simp_all add: one_client_def sample_server_def new_server_def map_find_def\<close>)
  then show ?thesis using s1 by (auto simp: st one_client_def sample_server_def new_server_def)
qed

section \<open>Properties of the message handler\<close>

text \<open>What is left of a client object after one of its messages was handled.\<close>

lemma find_set_client [simp]: "map_find c (sv_heap (set_client c cl s)) = Some cl"
  by (simp add: set_client_def clients.find_assign)

lemma set_client_fields [simp]:
  "sv_db (set_client c cl s) = sv_db s" "sv_work (set_client c cl s) = sv_work s"
  "sv_sending (set_client c cl s) = sv_sending s" "sv_statics (set_client c cl s) = sv_statics s"
  "sv_dbConnected (set_client c cl s) = sv_dbConnected s" "sv_closing (set_client c cl s) = sv_closing s"
  by (simp_all add: set_client_def)

lemma handle_message_decoder:
  assumes "handle_message h c cl ret s = Inr s'" and "map_find c (sv_heap s) = Some cl"
  shows "\<exists>cl'. map_find c (sv_heap s') = Some cl' \<and> cl_decoder cl' = cl_decoder cl"
  using assms
  by (auto simp: handle_message_def bind_out_Inr_iff Let_def split: operation.splits option.splits if_splits
      dest!: answer_frame)

lemma readFromNetwork_eq:
  assumes "map_find c (sv_heap s) = Some cl"
    and "decoder_read (h_env h) (sv_statics s) (cl_decoder cl) buf = Inr (x, st, d)"
    and "vec d = Some m # q"
  shows "readFromNetwork h c buf s =
    (let cl' = cl\<lparr>cl_decoder := d\<lparr>vec := q\<rparr>\<rparr>; s1 = set_client c cl' (s\<lparr>sv_statics := st\<rparr>) in
     if sv_dbConnected s
     then answer h c (RefusePackage (msg_id m) ''Refuse Package: database disconnected.'', st) s1
     else handle_message h c cl' m s1)"
  using assms
  by (simp add: readFromNetwork_def deref_client_def GetProtobufMessage_simps Let_def)

text \<open>C30. One read handles one message. Of the messages in the decoder's queue after the new bytes,
  exactly the first is taken out; the others wait until the client sends something again. A client
  that sends two messages in one segment is one behind from then on.\<close>

theorem one_message_per_read:
  assumes "map_find c (sv_heap s) = Some cl"
    and "decoder_read (h_env h) (sv_statics s) (cl_decoder cl) buf = Inr (x, st, d)"
    and "readFromNetwork h c buf s = Inr s'"
  shows "\<exists>cl'. map_find c (sv_heap s') = Some cl' \<and> cl_decoder cl' = d\<lparr>vec := tl (vec d)\<rparr>"
proof (cases "\<exists>m q. vec d = Some m # q")
  case True
  then obtain m q where q: "vec d = Some m # q" by blast
  show ?thesis
  proof (cases "sv_dbConnected s")
    case True
    with assms(3) show ?thesis
      unfolding readFromNetwork_eq [OF assms(1,2) q] Let_def by (auto simp: q dest!: answer_frame)
  next
    case False
    with assms(3) show ?thesis
      unfolding readFromNetwork_eq [OF assms(1,2) q] Let_def
      by (auto simp: q dest!: handle_message_decoder)
  qed
next
  case False
  then consider "vec d = []" | q where "vec d = None # q"
    by (metis list.exhaust not_None_eq)
  then show ?thesis
    using assms(3)
    by cases (auto simp: readFromNetwork_def deref_client_def assms(1,2) GetProtobufMessage_simps Let_def)
qed

lemma sample_toBytes: "\<exists>r. toBytes (sample_env nd pf) st m = Inr r"
  by (cases "core_of_message (sample_env nd pf) st m")
    (auto simp: toBytes_def sample_env_def Compress_def intro: exI [of "\<lambda>a. a" True])

lemma sample_answer: "\<exists>s'. answer (sample_host nd raw) c mst s = Inr s'"
proof -
  obtain r where "toBytes (sample_env nd Unix) (snd mst) (fst mst) = Inr r"
    using sample_toBytes by blast
  then show ?thesis by (simp add: answer_def WriteToNetwork_def sample_host_def split_def)
qed

text \<open>The sample client's decoder after a query has arrived.\<close>

lemma sample_query_read:
  obtains x st d m where "decoder_read (sample_env nd Unix) sample_statics new_decoder
      (sent_bytes (sample_env nd Unix) sample_statics sample_query) = Inr (x, st, d)"
    and "vec d = [Some m]"
  using read_sent [of "[(sample_statics, sample_query)]" "sample_env nd Unix" new_decoder sample_statics]
    sample_query_sendable [of nd] decoder_inv_new
  by (auto simp: list_all2_Cons1 new_decoder_def)

lemma one_client_fields:
  "map_find 0 (sv_heap one_client) = Some (new_client\<lparr>cl_client := Some sample_dbclient\<rparr>)"
  "sv_statics one_client = sample_statics" "sv_db one_client = sample_database"
  by (simp_all add: one_client_def sample_server_def new_server_def map_find_def)

theorem one_message_per_read_witness:
  "\<exists>s' cl. readFromNetwork (sample_host True None) 0
      (sent_bytes (sample_env True Unix) sample_statics sample_query)
      (one_client\<lparr>sv_dbConnected := True\<rparr>) = Inr s'
    \<and> map_find 0 (sv_heap s') = Some cl \<and> vec (cl_decoder cl) = []"
proof -
  let ?h = "sample_host True None" and ?s = "one_client\<lparr>sv_dbConnected := True\<rparr>"
  let ?b = "sent_bytes (sample_env True Unix) sample_statics sample_query"
  obtain x st d m where r: "decoder_read (sample_env True Unix) sample_statics new_decoder ?b = Inr (x, st, d)"
      and q: "vec d = [Some m]"
    by (rule sample_query_read)
  have cl: "map_find 0 (sv_heap ?s) = Some (new_client\<lparr>cl_client := Some sample_dbclient\<rparr>)"
    and rd: "decoder_read (h_env ?h) (sv_statics ?s)
      (cl_decoder (new_client\<lparr>cl_client := Some sample_dbclient\<rparr>)) ?b = Inr (x, st, d)"
    using r by (simp_all add: one_client_fields sample_host_def new_client_def)
  obtain s' where s': "readFromNetwork ?h 0 ?b ?s = Inr s'"
    using sample_answer [of True None 0 "(RefusePackage (msg_id m) ''Refuse Package: database disconnected.'', st)"]
    by (auto simp: readFromNetwork_eq [OF cl rd q] Let_def)
  with one_message_per_read [OF cl rd s'] q show ?thesis by auto
qed

text \<open>Only the handler of the pipe signal writes the state of the database.\<close>

lemma set_client_flag [simp]: "sv_dbConnected (set_client c cl s) = sv_dbConnected s"
  by (simp add: set_client_def)

lemma answer_flag: "answer h c mst s = Inr s' \<Longrightarrow> sv_dbConnected s' = sv_dbConnected s"
  by (drule answer_frame) auto

lemma handle_message_flag: "handle_message h c cl ret s = Inr s' \<Longrightarrow> sv_dbConnected s' = sv_dbConnected s"
  by (auto simp: handle_message_def bind_out_Inr_iff Let_def split: operation.splits option.splits if_splits
      dest!: answer_flag)

lemma readFromNetwork_flag: "readFromNetwork h c buf s = Inr s' \<Longrightarrow> sv_dbConnected s' = sv_dbConnected s"
  by (auto simp: readFromNetwork_def bind_out_Inr_iff Let_def split_def split: option.splits if_splits
      dest!: answer_flag handle_message_flag)

lemma run_work_flag:
  assumes "run_work h w s = Inr s'"
  shows "sv_dbConnected s' = sv_dbConnected s"
proof -
  obtain c p where w: "w = (c, p)" by (cases w)
  from assms obtain cl d where "deref_client c s = Inr cl" "deref_dbclient h cl = Inr d"
    by (auto simp: run_work_def w bind_out_Inr_iff)
  with assms show ?thesis
    by (cases "DB_InsertWindowsEvents (h_px h) d (GetEvents p) (sv_db s)")
      (auto simp: run_work_def w Let_def split: if_splits dest!: answer_flag)
qed

lemma write_loop_flag: "write_loop s = Inr s' \<Longrightarrow> sv_dbConnected s' = sv_dbConnected s"
proof (induction s arbitrary: s' rule: write_loop.induct)
  case (1 s)
  from "1.prems" have "s' = s \<or> (\<exists>s1. 0 < length (sv_sending s) \<and> uv_write (sendq_front s) s = Inr s1
      \<and> write_loop (sendq_pop s\<lparr>sv_net := sv_net s1\<rparr>) = Inr s')"
    by (subst (asm) write_loop.simps) (auto split: sum.splits if_splits)
  with "1.IH" show ?case by (auto simp: sendq_pop_def)
qed

lemma async_Stop_flag:
  assumes "async_Stop s = Inr s'"
  shows "sv_dbConnected s' = sv_dbConnected s"
proof (rule fold_out_invariant [OF _ _ assms [unfolded async_Stop_def]])
  show "sv_dbConnected u = sv_dbConnected s" if "sv_dbConnected t = sv_dbConnected s" "stop_handle ho t = Inr u" for t u ho
    using that by (auto simp: stop_handle_def RemoveClient_def bind_out_Inr_iff split: option.splits)
qed simp

fun is_pipe_signal :: "server_event \<Rightarrow> bool" where
  "is_pipe_signal (Pipe_signal _) = True"
| "is_pipe_signal _ = False"

lemma run_event_flag:
  assumes "run_event h e s = Inr s'" and "\<not> is_pipe_signal e"
  shows "sv_dbConnected s' = sv_dbConnected s"
proof (cases e)
  case (New_connection st a)
  with assms show ?thesis
    by (auto simp: uvConnectCB_def AddClient_def Let_def bind_out_Inr_iff split: if_splits)
next
  case (Readable c r b)
  with assms show ?thesis
    by (auto simp: uvReadCB_def bind_out_Inr_iff Let_def split: read_result.splits if_splits
        dest: readFromNetwork_flag)
next
  case (Close_due c)
  with assms show ?thesis
    by (auto simp: uvCloseCB_def ClientDisconnect_def bind_out_Inr_iff split: if_splits)
qed (use assms in \<open>auto simp: async_WriteToNetwork_def SIGTERMHandler_def StopLoop_def
      dest: write_loop_flag async_Stop_flag run_work_flag\<close>)

lemma run_events_flag:
  "fold_out (\<lambda>s e. run_event h e s) s es = Inr s' \<Longrightarrow> \<forall>e \<in> set es. \<not> is_pipe_signal e \<Longrightarrow>
     sv_dbConnected s' = sv_dbConnected s"
  by (induction es arbitrary: s) (auto simp: bind_out_Inr_iff dest: run_event_flag)

text \<open>C31. The test of the database state is the wrong way round. After the signal handler has found the
  database connected, whatever happens until the next such signal, every message that is read is
  refused without being looked at: the database, the queue of batches and the record of the client
  stay as they are but for the message taken out of its decoder, only a refusal is queued, and the
  server still takes the database for connected.\<close>

theorem connected_database_refuses:
  assumes "db_conn (sv_db s0) = Conn_live True" and "SIGPIPEHandler h a s0 = Inr s1"
    and "\<forall>e \<in> set es. \<not> is_pipe_signal e" and "fold_out (\<lambda>s e. run_event h e s) s1 es = Inr s"
    and "map_find c (sv_heap s) = Some cl"
    and "decoder_read (h_env h) (sv_statics s) (cl_decoder cl) buf = Inr (x, st, d)"
    and "vec d = Some m # q" and "readFromNetwork h c buf s = Inr s'"
  shows "sv_db s' = sv_db s \<and> sv_work s' = sv_work s \<and> sv_dbConnected s'
    \<and> sv_heap s' = map_assign c (cl\<lparr>cl_decoder := d\<lparr>vec := q\<rparr>\<rparr>) (sv_heap s)
    \<and> sv_sending s' = sv_sending s @
        [\<lparr>so_buf = sent_bytes (h_env h) st
            (RefusePackage (msg_id m) ''Refuse Package: database disconnected.''), so_sock = c\<rparr>]"
proof -
  have "s0\<lparr>sv_dbConnected := True\<rparr> = s1"
    using assms(1,2) by (simp add: SIGPIPEHandler_def CheckConnectStatus_def deref_conn_def)
  then have "sv_dbConnected s1" by auto
  with run_events_flag [OF assms(4,3)] have flag: "sv_dbConnected s" by simp
  with assms(8) have "answer h c (RefusePackage (msg_id m) ''Refuse Package: database disconnected.'', st)
      (set_client c (cl\<lparr>cl_decoder := d\<lparr>vec := q\<rparr>\<rparr>) (s\<lparr>sv_statics := st\<rparr>)) = Inr s'"
    unfolding readFromNetwork_eq [OF assms(5,6,7)] Let_def by simp
  with flag show ?thesis
    by (auto simp: answer_def WriteToNetwork_def bind_out_Inr_iff sent_bytes_def sendq_push_def set_client_def)
qed

theorem connected_database_refuses_witness:
  "\<exists>s s' buf1 buf2. fold_out (\<lambda>s e. run_event (sample_host True None) e s) one_client
      [Pipe_signal (\<lambda>_. Throws),
       Readable 0 (Read_bytes (sent_bytes (sample_env True Unix) sample_statics sample_query)) False] = Inr s
    \<and> readFromNetwork (sample_host True None) 0
        (sent_bytes (sample_env True Unix) sample_statics sample_query) s = Inr s'
    \<and> sv_sending s' = [\<lparr>so_buf = buf1, so_sock = 0\<rparr>, \<lparr>so_buf = buf2, so_sock = 0\<rparr>] \<and> sv_db s' = sample_database"
proof -
  let ?h = "sample_host True None" and ?en = "sample_env True Unix" and ?s = "one_client\<lparr>sv_dbConnected := True\<rparr>"
  let ?b = "sent_bytes ?en sample_statics sample_query" and ?r = "''Refuse Package: database disconnected.''"
  let ?cl = "new_client\<lparr>cl_client := Some sample_dbclient\<rparr>"
  let ?run = "fold_out (\<lambda>s e. run_event ?h e s)"
  have reads: "\<exists>x st' d' m. decoder_read ?en st d ?b = Inr (x, st', d') \<and> vec d' = [Some m]
      \<and> pending d' = [] \<and> decoder_inv d'"
    if "decoder_inv d" "pending d = []" "vec d = []" for st d
    using read_sent [of "[(sample_statics, sample_query)]" ?en d st] sample_query_sendable [of True] that
    by (auto simp: list_all2_Cons1)
  have live: "db_conn (sv_db one_client) = Conn_live True"
    by (simp add: one_client_fields sample_database_def with_statements_def)
  then have sig: "SIGPIPEHandler ?h (\<lambda>_. Throws) one_client = Inr ?s"
    by (simp add: SIGPIPEHandler_def CheckConnectStatus_def deref_conn_def)
  have env [simp]: "h_env ?h = ?en" by (simp add: sample_host_def)
  have cl: "map_find 0 (sv_heap ?s) = Some ?cl" by (simp add: one_client_fields)
  obtain x st d m where r: "decoder_read (h_env ?h) (sv_statics ?s) (cl_decoder ?cl) ?b = Inr (x, st, d)"
      and q: "vec d = [Some m]" and d: "pending d = []" "decoder_inv d"
    using reads [of new_decoder "sv_statics ?s"] decoder_inv_new by (auto simp: new_client_def new_decoder_def)
  obtain s1 where s1: "readFromNetwork ?h 0 ?b ?s = Inr s1"
    using sample_answer [of True None 0 "(RefusePackage (msg_id m) ?r, st)"]
    by (auto simp: readFromNetwork_eq [OF cl r q] Let_def)
  have run0: "?run ?s [] = Inr ?s" by simp
  note first = connected_database_refuses [OF live sig _ run0 cl r q s1]
  let ?d = "d\<lparr>vec := []\<rparr>" and ?e = "Readable 0 (Read_bytes ?b) False"
  have cl1: "map_find 0 (sv_heap s1) = Some (?cl\<lparr>cl_decoder := ?d\<rparr>)"
    using first by (simp add: clients.find_assign)
  have "pending ?d = pending d" "decoder_inv ?d = decoder_inv d" by (simp_all add: decoder_inv_def pending_def)
  with d reads [of ?d "sv_statics s1"] obtain x2 st2 d2 m2 where
      r2: "decoder_read (h_env ?h) (sv_statics s1) (cl_decoder (?cl\<lparr>cl_decoder := ?d\<rparr>)) ?b = Inr (x2, st2, d2)"
      and q2: "vec d2 = [Some m2]" by auto
  have "?b \<noteq> []" using sent_bytes_nonempty [OF sample_query_sendable [of True]] by simp
  then have run1: "?run ?s [?e] = Inr s1"
    using s1 by (simp add: uvReadCB_def deref_client_def one_client_fields deref_dbclient_def)
  obtain s' where s': "readFromNetwork ?h 0 ?b s1 = Inr s'"
    using sample_answer [of True None 0 "(RefusePackage (msg_id m2) ?r, st2)"] first
    by (auto simp: readFromNetwork_eq [OF cl1 r2 q2] Let_def)
  from connected_database_refuses [OF live sig _ run1 cl1 r2 q2 s'] first sig run1 s' show ?thesis
    by (intro exI [of _ s1] exI [of _ s'])
      (auto simp: one_client_fields one_client_def sample_server_def new_server_def)
qed

end
