(* ===== verification/Type_Invariant.thy ===== *)
theory Type_Invariant
  imports Server_Properties
begin

text \<open>
  The classes of received messages. The code casts a message to the class its operation stands
  for; here it is shown that the object has that class, whatever bytes a peer sends, in every
  state of the server.
\<close>

section \<open>Messages\<close>

lemma add_received_events_wf: "wf_message m \<Longrightarrow> wf_message (add_received_events ls m)"
proof (induction ls arbitrary: m)
  case (Cons l ls)
  have "wf_message (AddLogEvent (event_of_pb l) m)"
    using Cons.prems by (auto simp: wf_message_def AddLogEvent_def split: body.splits)
  with Cons.IH show ?case by (simp add: add_received_events_def)
qed (simp add: add_received_events_def)

lemma new_from_core_wf: "new_from_core en core st = Inr (Some m, st') \<Longrightarrow> wf_message m"
  by (cases "pb_op core") (auto simp: new_from_core_def bind_out_Inr_iff split_def Let_def
      constructors_wf add_received_events_wf)

lemma copy_core_fields_wf: "wf_message (fst (copy_core_fields core m st)) = wf_message m"
  by (simp add: copy_core_fields_def wf_message_def split_def Let_def)

lemma BuildObj_wf: "BuildObj en core st = Inr (Some m, st') \<Longrightarrow> wf_message m"
  by (auto simp: BuildObj_def bind_out_Inr_iff split_def Let_def copy_core_fields_wf
      split: option.splits dest!: new_from_core_wf)

lemma open_body_wf: "open_body en st a b hdr data = Inr (Some m, st') \<Longrightarrow> wf_message m"
  by (auto simp: open_body_def parseFromArray_def bind_out_Inr_iff
      split: if_splits option.splits prod.splits dest: BuildObj_wf)

definition queue_typed :: "message option list \<Rightarrow> bool" where
  "queue_typed q \<longleftrightarrow> (\<forall>m. Some m \<in> set q \<longrightarrow> wf_message m)"

lemma queue_typed_simps [simp]:
  "queue_typed []" "queue_typed (q @ [None]) = queue_typed q"
  "queue_typed (q @ [Some m]) \<longleftrightarrow> queue_typed q \<and> wf_message m"
  by (auto simp: queue_typed_def)

lemma consume_typed:
  "consume en st q bs = Inr (st', q', r) \<Longrightarrow> queue_typed q \<Longrightarrow> queue_typed q'"
proof (induction bs arbitrary: st q rule: length_induct)
  case (1 bs)
  let ?size = "load_be32 (drop 4 bs)"
  consider "length bs \<le> 40" | "40 < length bs" "?size = 0"
    | "40 < length bs" "?size \<noteq> 0" "length bs < 40 + unat ?size"
    | "40 < length bs" "?size \<noteq> 0" "40 + unat ?size \<le> length bs"
    by linarith
  then show ?case
  proof cases
    case 4
    with "1.prems" obtain ret st1 where
      b: "open_body en st (load_be32 bs) ?size (take 40 bs) (take (unat ?size) (drop 40 bs)) = Inr (ret, st1)"
      and c: "consume en st1 (q @ [ret]) (drop (40 + unat ?size) bs) = Inr (st', q', r)"
      by (auto simp: consume_frame [OF 4] bind_out_Inr_iff)
    have "queue_typed (q @ [ret])"
      using "1.prems"(2) open_body_wf b by (cases ret) auto
    moreover have "length (drop (40 + unat ?size) bs) < length bs" using 4 by simp
    ultimately show ?thesis using "1.IH" c by blast
  qed (use "1.prems" in \<open>auto simp: consume_wait consume_zero\<close>)
qed

section \<open>Decoders\<close>

definition decoder_typed :: "decoder \<Rightarrow> bool" where
  "decoder_typed d \<longleftrightarrow> decoder_inv d \<and> queue_typed (vec d)"

lemma decoder_typed_new [simp]: "decoder_typed new_decoder"
  by (simp add: decoder_typed_def decoder_inv_new) (simp add: new_decoder_def)

lemma decoder_read_typed:
  assumes "decoder_read en st d bs = Inr (x, st', d')" and "decoder_typed d" and "bs \<noteq> []"
  shows "decoder_typed d'"
proof -
  have "simulates (feed_decoder en (st, d) bs) (stream_feed en (stream_of (st, d)) bs)"
    using assms(2,3) by (intro feed_decoder_simulates) (simp_all add: decoder_typed_def)
  then have "decoder_inv d'"
    and "consume en st (vec d) (pending d @ bs) = Inr (st', vec d', pending d')"
    using assms(1) by (simp_all add: feed_decoder_def stream_feed_def stream_of_def)
  with assms(2) show ?thesis
    by (auto simp: decoder_typed_def dest: consume_typed)
qed

lemma GetProtobufMessage_typed:
  assumes "GetProtobufMessage d = (mo, d')" and "decoder_typed d"
  shows "decoder_typed d'" and "mo = Some m \<Longrightarrow> wf_message m"
proof -
  have "decoder_inv d'" "set (vec d') \<subseteq> set (vec d)" "mo \<noteq> None \<longrightarrow> mo \<in> set (vec d)"
    using assms by (cases "vec d"; auto simp: GetProtobufMessage_def vec_front_def vec_pop_def
        decoder_typed_def decoder_inv_def)+
  with assms(2) show "decoder_typed d'" and "mo = Some m \<Longrightarrow> wf_message m"
    by (auto simp: decoder_typed_def queue_typed_def)
qed

section \<open>The server\<close>

text \<open>
  Every decoder of a client is well-formed with typed messages, and a work item holds a log
  package.
\<close>

definition typed_inv :: "'db server \<Rightarrow> bool" where
  "typed_inv s \<longleftrightarrow>
     (\<forall>c cl. map_find c (sv_heap s) = Some cl \<longrightarrow> decoder_typed (cl_decoder cl))
     \<and> (\<forall>(c, m) \<in> set (sv_work s). wf_message m \<and> msg_op m = UPDATE_LOG)"

text \<open>A step that leaves clients and work items alone, or takes some away.\<close>

definition fewer_messages :: "'db server \<Rightarrow> 'db server \<Rightarrow> bool" where
  "fewer_messages s s' \<longleftrightarrow> sv_heap s' = sv_heap s \<and> set (sv_work s') \<subseteq> set (sv_work s)"

lemma fewer_messages_inv: "fewer_messages s s' \<Longrightarrow> typed_inv s \<Longrightarrow> typed_inv s'"
  by (auto simp: fewer_messages_def typed_inv_def)

lemma fewer_messages_trans: "fewer_messages s t \<Longrightarrow> fewer_messages t u \<Longrightarrow> fewer_messages s u"
  by (auto simp: fewer_messages_def)

lemma answer_fewer: "answer h c mst s = Inr s' \<Longrightarrow> fewer_messages s s'"
  by (drule answer_frame) (auto simp: fewer_messages_def)

lemma set_client_typed:
  "typed_inv s \<Longrightarrow> decoder_typed (cl_decoder cl) \<Longrightarrow> typed_inv (set_client c cl s)"
  by (auto simp: typed_inv_def set_client_def clients.find_assign split: if_splits)

lemma handle_message_typed:
  assumes "handle_message h c cl ret s = Inr s'" and "typed_inv s" and "decoder_typed (cl_decoder cl)"
    and "wf_message ret"
  shows "typed_inv s'"
proof (cases "msg_op ret")
  case UPDATE_LOG
  with assms obtain rid where
    "s' = set_client c (cl\<lparr>cl_lid := rid\<rparr>) (s\<lparr>sv_work := sv_work s @ [(c, ret)]\<rparr>)"
    by (auto simp: handle_message_def split: if_splits option.splits)
  moreover have "typed_inv (s\<lparr>sv_work := sv_work s @ [(c, ret)]\<rparr>)"
    using assms(2,4) UPDATE_LOG by (auto simp: typed_inv_def)
  ultimately show ?thesis using assms(3) by (simp add: set_client_typed)
next
  case CONNECT
  with assms(1) obtain d db where
    a: "answer h c (ConnectPackage (sv_statics s))
      (set_client c (cl\<lparr>cl_client := Some d\<rparr>) (s\<lparr>sv_db := db\<rparr>)) = Inr s'"
    by (auto simp: handle_message_def bind_out_Inr_iff)
  have "typed_inv (set_client c (cl\<lparr>cl_client := Some d\<rparr>) (s\<lparr>sv_db := db\<rparr>))"
    using assms(2,3) by (intro set_client_typed) (simp_all add: typed_inv_def)
  with answer_fewer [OF a] show ?thesis by (rule fewer_messages_inv)
next
  case QUERY_LAST_EVENT
  with assms(1) obtain lid where
    a: "answer h c (ReturnLastEventPackage (lid + 1) (sv_statics s))
      (set_client c (cl\<lparr>cl_lid := lid\<rparr>) s) = Inr s'"
    by (auto simp: handle_message_def bind_out_Inr_iff Let_def)
  have "typed_inv (set_client c (cl\<lparr>cl_lid := lid\<rparr>) s)"
    using assms(2,3) by (intro set_client_typed) simp_all
  with answer_fewer [OF a] show ?thesis by (rule fewer_messages_inv)
qed (use assms in \<open>auto simp: handle_message_def\<close>)

lemma readFromNetwork_typed:
  assumes "readFromNetwork h c bs s = Inr s'" and "typed_inv s" and "bs \<noteq> []"
  shows "typed_inv s'"
proof -
  from assms(1) obtain cl x st d where cl: "map_find c (sv_heap s) = Some cl"
      and rd: "decoder_read (h_env h) (sv_statics s) (cl_decoder cl) bs = Inr (x, st, d)"
    by (auto simp: readFromNetwork_def bind_out_Inr_iff deref_client_def split: option.splits)
  obtain mo d' where gm: "GetProtobufMessage d = (mo, d')" by (cases "GetProtobufMessage d")
  let ?cl = "cl\<lparr>cl_decoder := d'\<rparr>"
  let ?s = "set_client c ?cl (s\<lparr>sv_statics := st\<rparr>)"
  have "decoder_typed d"
    using assms(2,3) cl by (intro decoder_read_typed [OF rd]) (auto simp: typed_inv_def)
  note got = GetProtobufMessage_typed [OF gm this]
  have s: "typed_inv ?s"
    using assms(2) got(1) by (intro set_client_typed) (simp_all add: typed_inv_def)
  show ?thesis
  proof (cases mo)
    case None
    with assms(1) s show ?thesis
      by (simp add: readFromNetwork_def deref_client_def cl rd gm)
  next
    case (Some ret)
    show ?thesis
    proof (cases "sv_dbConnected ?s")
      case True
      with Some assms(1) obtain mst where "answer h c mst ?s = Inr s'"
        by (auto simp: readFromNetwork_def deref_client_def cl rd gm Let_def)
      then show ?thesis by (rule fewer_messages_inv [OF answer_fewer s])
    next
      case False
      with Some assms(1) have "handle_message h c ?cl ret ?s = Inr s'"
        by (simp add: readFromNetwork_def deref_client_def cl rd gm Let_def)
      then show ?thesis
        by (rule handle_message_typed [OF _ s]) (use got Some in simp_all)
    qed
  qed
qed

lemma fewer_messages_update [simp]:
  "fewer_messages s (s\<lparr>sv_work := take i (sv_work s) @ drop (i + 1) (sv_work s)\<rparr>)"
  "fewer_messages s (s\<lparr>sv_db := db\<rparr>)"
  by (auto simp: fewer_messages_def dest: in_set_takeD in_set_dropD)

lemma run_work_fewer:
  assumes "run_work h w s = Inr s'"
  shows "fewer_messages s s'"
proof -
  obtain c p where w: "w = (c, p)" by (cases w)
  from assms obtain cl d where "deref_client c s = Inr cl" "deref_dbclient h cl = Inr d"
    by (auto simp: run_work_def w bind_out_Inr_iff)
  with assms show ?thesis
    by (cases "DB_InsertWindowsEvents (h_px h) d (GetEvents p) (sv_db s)")
      (auto simp: run_work_def w Let_def split: if_splits dest!: answer_fewer
        dest: fewer_messages_trans [OF fewer_messages_update(2)])
qed

lemma write_loop_fewer: "write_loop s = Inr s' \<Longrightarrow> fewer_messages s s'"
proof (induction s arbitrary: s' rule: write_loop.induct)
  case (1 s)
  show ?case
  proof (cases "sv_sending s")
    case Nil
    with "1.prems" show ?thesis by (simp add: write_loop.simps fewer_messages_def)
  next
    case (Cons o1 os)
    with "1.prems" obtain s1 where s1: "uv_write (sendq_front s) s = Inr s1"
        "write_loop (sendq_pop s\<lparr>sv_net := sv_net s1\<rparr>) = Inr s'"
      by (subst (asm) write_loop.simps) (auto split: sum.splits)
    then have "fewer_messages (sendq_pop s\<lparr>sv_net := sv_net s1\<rparr>) s'"
      using "1.IH" [OF _ s1(1) s1(2)] Cons by simp
    then show ?thesis by (simp add: fewer_messages_def sendq_pop_def)
  qed
qed

lemma SIGPIPE_fewer:
  assumes "SIGPIPEHandler h a s = Inr s'"
  shows "fewer_messages s s'"
proof -
  from assms obtain status where st: "CheckConnectStatus (sv_db s) = Inr status"
    by (cases "CheckConnectStatus (sv_db s)") (simp_all add: SIGPIPEHandler_def)
  show ?thesis
  proof (cases status)
    case True
    with assms st show ?thesis by (auto simp: SIGPIPEHandler_def fewer_messages_def)
  next
    case False
    with assms st obtain ok n db where
        "DB_Connect (h_px h) (ndebug (h_env h)) a (sv_db s) = Inr (ok, n, db)"
      by (cases "DB_Connect (h_px h) (ndebug (h_env h)) a (sv_db s)")
        (auto simp: SIGPIPEHandler_def Let_def)
    with assms st False show ?thesis
      by (cases ok) (auto simp: SIGPIPEHandler_def Let_def StopLoop_def fewer_messages_def)
  qed
qed

lemma uvConnectCB_typed:
  assumes "uvConnectCB ndbg status accepted s = Inr s'" and "typed_inv s"
  shows "typed_inv s'"
  using assms
  by (auto simp: uvConnectCB_def Let_def AddClient_def bind_out_Inr_iff set_client_def typed_inv_def
      clients.find_assign new_client_def split: if_splits)

lemma uvReadCB_typed:
  assumes "uvReadCB h c r hb s = Inr s'" and "typed_inv s"
  shows "typed_inv s'"
proof (cases r)
  case (Read_bytes bs)
  with assms show ?thesis
    by (auto simp: uvReadCB_def bind_out_Inr_iff split: if_splits intro: readFromNetwork_typed)
qed (use assms in \<open>auto simp: uvReadCB_def bind_out_Inr_iff Let_def typed_inv_def split: if_splits\<close>)

lemma uvCloseCB_typed:
  assumes "uvCloseCB ndbg c s = Inr s'" and "typed_inv s" and "registry_inv s"
  shows "typed_inv s'"
  using assms
  by (auto simp: uvCloseCB_def ClientDisconnect_def bind_out_Inr_iff registry_inv_def typed_inv_def
      clients.find_erase split: if_splits)

lemma async_Stop_typed:
  assumes "async_Stop s = Inr s'" and "typed_inv s" and "registry_inv s"
  shows "typed_inv s'"
proof (cases "sv_heap s = []")
  case True
  with assms(1) have "s' = s\<lparr>sv_stopAsync := False\<rparr>"
    by (simp add: async_Stop_def stop_handle_def)
  with assms(2) show ?thesis by (simp add: typed_inv_def)
next
  case False
  with assms show ?thesis by (simp add: stop_with_clients)
qed

lemma server_step_typed:
  assumes "server_step h s s'" and inv: "typed_inv s" and "registry_inv s"
  shows "typed_inv s'"
proof -
  obtain e where e: "event_enabled e s" "run_event h e s = Inr s'"
    using assms(1) by (auto elim: server_stepE)
  show ?thesis
  proof (cases e)
    case (Work_runs i)
    with e have "fewer_messages (s\<lparr>sv_work := take i (sv_work s) @ drop (i + 1) (sv_work s)\<rparr>) s'"
      by (auto dest: run_work_fewer)
    from fewer_messages_inv [OF fewer_messages_trans [OF fewer_messages_update(1) this] inv]
    show ?thesis .
  next
    case Write_wakeup
    with e have "fewer_messages (s\<lparr>sv_writeAsync := False\<rparr>) s'"
      by (auto simp: async_WriteToNetwork_def dest: write_loop_fewer)
    then have "fewer_messages s s'" by (simp add: fewer_messages_def)
    from fewer_messages_inv [OF this inv] show ?thesis .
  next
    case (Pipe_signal a)
    with e have "fewer_messages s s'" by (auto intro: SIGPIPE_fewer)
    from fewer_messages_inv [OF this inv] show ?thesis .
  next
    case (New_connection st a)
    with e inv show ?thesis by (auto intro: uvConnectCB_typed)
  next
    case (Readable c r b)
    with e inv show ?thesis by (auto intro: uvReadCB_typed)
  next
    case (Close_due c)
    with e inv assms(3) show ?thesis by (auto intro: uvCloseCB_typed)
  next
    case Stop_wakeup
    with e inv assms(3) show ?thesis by (auto intro: async_Stop_typed)
  next
    case Term_signal
    with e inv show ?thesis by (auto simp: SIGTERMHandler_def StopLoop_def typed_inv_def)
  next
    case Database_lost
    with e inv show ?thesis by (auto simp: typed_inv_def)
  qed
qed

lemma server_reach_typed:
  "server_reach h s0 s \<Longrightarrow> typed_inv s0 \<Longrightarrow> registry_inv s0 \<Longrightarrow> typed_inv s"
proof (induction rule: server_reach.induct)
  case (more s s')
  then show ?case using server_reach_inv server_step_typed by blast
qed

text \<open>C7. Whatever bytes the clients send and in whatever order the callbacks run, every message in
  the queue of a decoder is an object of the class its operation stands for, and every work item
  holds a log package: the casts of \<open>readFromNetwork\<close> and of the worker are always right.\<close>

theorem received_messages_typed:
  assumes "server_reach h (new_server raw st db) s"
  shows "(\<forall>c cl m. map_find c (sv_heap s) = Some cl \<and> Some m \<in> set (vec (cl_decoder cl))
      \<longrightarrow> msg_op m = body_op (msg_body m))
    \<and> (\<forall>(c, m) \<in> set (sv_work s). \<exists>es ac. msg_body m = Log_body es ac)"
proof -
  have "typed_inv (new_server raw st db)"
    by (simp add: typed_inv_def new_server_def clients.find_vacant)
  then have inv: "typed_inv s"
    by (rule server_reach_typed [OF assms]) simp
  have "\<exists>es ac. msg_body m = Log_body es ac" if "wf_message m" "msg_op m = UPDATE_LOG" for m
    using that by (cases "msg_body m") (auto simp: wf_message_def)
  with inv show ?thesis
    by (fastforce simp: typed_inv_def decoder_typed_def queue_typed_def wf_message_def)
qed

end
