(* ===== verification/Event_Forwarder.thy ===== *)
theory Event_Forwarder
  imports Packet_Codec Containers
begin

text \<open>
  The client service: reading the event log (\<open>WindowsClientService/event.cpp\<close>), the forwarding
  thread \<open>EventForwardHandler\<close>, and the dispatcher that owns the connection
  (\<open>network.cpp\<close>, \<open>service.cpp\<close>, \<open>service.h\<close>). The event log API and the XML library are
  parameters. Conversions between UTF-16 and UTF-8 keep the text and are left out.
\<close>

section \<open>Parameters\<close>

text \<open>
  An event handle, by what the API answers for it. Rendering into an empty buffer succeeds, or
  asks for a buffer (then the text and the last error after the second call), or fails. Formatting
  likewise; a missing message has error codes of its own.
\<close>

datatype render_result = Render_nothing | Render_text string u32 | Render_failed u32
datatype format_result = Format_nothing | Format_text string | Format_missing | Format_failed

record event_handle =
  eh_render :: render_result
  eh_format :: format_result

text \<open>\<open>EvtNext\<close>: the events of one call, at most as many as asked for, or the last error.\<close>

datatype next_result = Next_events "event_handle list" | Next_failed u32

text \<open>
  The XML library: the root element of a text, the first child element of a name, the text and the
  attributes of an element. A null pointer is \<open>None\<close>.
\<close>

record 'x xml_library =
  xl_root :: "string \<Rightarrow> 'x option"
  xl_child :: "'x \<Rightarrow> string \<Rightarrow> 'x option"
  xl_text :: "'x \<Rightarrow> string option"
  xl_attribute :: "'x \<Rightarrow> string \<Rightarrow> string option"

text \<open>
  The environment of the client: the packet environment, the XML library, the publisher metadata
  that can be opened, and an \<open>Event\<close> as its default constructor leaves it.
\<close>

record 'x client_host =
  ch_env :: env
  ch_xml :: "'x xml_library"
  ch_open_metadata :: "string \<Rightarrow> nat option"
  ch_raw_event :: event

section \<open>Conversions of the standard library\<close>

text \<open>\<open>atoi\<close>: blanks, a sign, and the digits up to the first other character.\<close>

definition atoi_value :: "string \<Rightarrow> int" where
  "atoi_value s =
     (let t = dropWhile (\<lambda>c. c \<in> set [CHR '' '', CHR 0x09, CHR 0x0A, CHR 0x0B, CHR 0x0C, CHR 0x0D]) s
      in case t of
           [] \<Rightarrow> 0
         | c # r \<Rightarrow>
             if c = CHR ''-'' then - int (digits_value (takeWhile is_digit r))
             else if c = CHR ''+'' then int (digits_value (takeWhile is_digit r))
             else int (digits_value (takeWhile is_digit t)))"

definition atoi :: "string option \<Rightarrow> int outcome" where
  "atoi so =
     (case so of
        None \<Rightarrow> Inl (Undefined Null_deref)
      | Some s \<Rightarrow>
          (let v = atoi_value s
           in if - (2 ^ 31) \<le> v \<and> v < 2 ^ 31 then Inr v else Inl (Undefined Int_overflow)))"

text \<open>\<open>std::string\<close> from a pointer.\<close>

definition string_of_ptr :: "string option \<Rightarrow> string outcome" where
  "string_of_ptr so = (case so of None \<Rightarrow> Inl (Undefined Null_deref) | Some s \<Rightarrow> Inr s)"

section \<open>Reading one event\<close>

type_synonym metadata_map = "(string \<times> nat) list"

definition GetProviderMetadata ::
    "'x client_host \<Rightarrow> string \<Rightarrow> metadata_map \<Rightarrow> nat option \<times> metadata_map" where
  "GetProviderMetadata h provider m =
     (case map_find provider m of
        Some mh \<Rightarrow> (Some mh, m)
      | None \<Rightarrow>
          (case ch_open_metadata h provider of
             None \<Rightarrow> (None, m)
           | Some mh \<Rightarrow> (Some mh, map_emplace provider mh m)))"

text \<open>
  \<open>GetMessageString\<close>: after the second call it returns a null pointer, not the buffer; in the
  other cases the buffer was never allocated.
\<close>

fun GetMessageString :: "format_result \<Rightarrow> string option" where
  "GetMessageString Format_nothing = None"
| "GetMessageString (Format_text msg) = None"
| "GetMessageString Format_missing = None"
| "GetMessageString Format_failed = None"

definition FormatEvent ::
    "'x client_host \<Rightarrow> event_handle \<Rightarrow> event \<Rightarrow> metadata_map \<Rightarrow> event \<times> metadata_map" where
  "FormatEvent h eh evt m =
     (let (md, m') = GetProviderMetadata h (c_str (ev_provider evt)) m in
      case md of
        None \<Rightarrow> (evt\<lparr>ev_format := []\<rparr>, m')
      | Some _ \<Rightarrow>
          (case GetMessageString (eh_format eh) of
             Some msg \<Rightarrow> (evt\<lparr>ev_format := msg\<rparr>, m')
           | None \<Rightarrow> (evt\<lparr>ev_format := ev_xml evt\<rparr>, m')))"

definition ParseEventXml :: "'x client_host \<Rightarrow> string \<Rightarrow> event \<Rightarrow> event outcome" where
  "ParseEventXml h xml evt =
     (let lib = ch_xml h; e0 = evt\<lparr>ev_xml := xml\<rparr> in
      case xl_root lib xml of
        None \<Rightarrow> Inl (Undefined Null_deref)
      | Some root \<Rightarrow>
          (case xl_child lib root ''System'' of
             None \<Rightarrow> Inr e0
           | Some sys \<Rightarrow>
               bind_out
                 (case xl_child lib sys ''Level'' of
                    None \<Rightarrow> Inr e0
                  | Some l \<Rightarrow> bind_out (atoi (xl_text lib l)) (\<lambda>v.
                      Inr (e0\<lparr>ev_level := word_of_int v,
                              ev_llevel := event_dispatch_number (word_of_int v)\<rparr>))) (\<lambda>e1.
               bind_out
                 (case xl_child lib sys ''EventRecordID'' of
                    None \<Rightarrow> Inr e1
                  | Some r \<Rightarrow> bind_out (atoi (xl_text lib r)) (\<lambda>v.
                      Inr (e1\<lparr>ev_rid := word_of_int v\<rparr>))) (\<lambda>e2.
               bind_out
                 (case xl_child lib sys ''Provider'' of
                    None \<Rightarrow> Inr e2
                  | Some p \<Rightarrow> bind_out (string_of_ptr (xl_attribute lib p ''Name'')) (\<lambda>s.
                      Inr (e2\<lparr>ev_provider := s\<rparr>))) (\<lambda>e3.
               case xl_child lib sys ''TimeCreated'' of
                 None \<Rightarrow> Inr e3
               | Some t \<Rightarrow> bind_out (string_of_ptr (xl_attribute lib t ''SystemTime'')) (\<lambda>s.
                   Inr (e3\<lparr>ev_timeStamp := s\<rparr>)))))))"

definition ERROR_NO_MORE_ITEMS :: u32 where "ERROR_NO_MORE_ITEMS = 259"

text \<open>\<open>PrintEvent\<close> returns the buffer of the second call if the last error is then zero.\<close>

fun PrintEvent :: "render_result \<Rightarrow> string option" where
  "PrintEvent Render_nothing = None"
| "PrintEvent (Render_text xml err) = (if err \<noteq> ERROR_SUCCESS then None else Some xml)"
| "PrintEvent (Render_failed err) = None"

section \<open>Reading a batch\<close>

definition eventsPerSend :: nat where
  "eventsPerSend = 30"

text \<open>An \<open>Event\<close> after its strings have been moved into a list.\<close>

definition moved_from :: "event \<Rightarrow> event" where
  "moved_from e = e\<lparr>ev_xml := [], ev_format := [], ev_timeStamp := [], ev_provider := []\<rparr>"

text \<open>
  The loop of \<open>EnumerateResults\<close>: one \<open>Event\<close> object is filled again and again. The first
  component is false when the loop was left for \<open>cleanup\<close>.
\<close>

fun enumerate_loop ::
    "'x client_host \<Rightarrow> u32 \<Rightarrow> event_handle list \<Rightarrow> event \<Rightarrow> event list \<Rightarrow> metadata_map \<Rightarrow>
     (bool \<times> event list \<times> metadata_map) outcome" where
  "enumerate_loop h ignore [] e sent m = Inr (True, sent, m)"
| "enumerate_loop h ignore (eh # ehs) e sent m =
     (case PrintEvent (eh_render eh) of
        None \<Rightarrow> Inr (False, sent, m)
      | Some xml \<Rightarrow>
          bind_out (ParseEventXml h xml e) (\<lambda>e1.
            if ignore \<le> ev_rid e1
            then (let (e2, m') = FormatEvent h eh e1 m
                  in enumerate_loop h ignore ehs (moved_from e2) (sent @ [e2]) m')
            else enumerate_loop h ignore ehs e1 sent m))"

text \<open>
  \<open>EnumerateResults\<close>: the number of events read, or the last error. A failed \<open>EvtNext\<close> sets a
  local count to -1 that is not what is returned.
\<close>

definition EnumerateResults ::
    "'x client_host \<Rightarrow> next_result \<Rightarrow> u32 \<Rightarrow> event list \<Rightarrow> metadata_map \<Rightarrow>
     (int \<times> event list \<times> metadata_map) outcome" where
  "EnumerateResults h nr ignore sent m =
     (case nr of
        Next_failed status \<Rightarrow> Inr (sint status, sent, m)
      | Next_events ehs \<Rightarrow>
          bind_out (enumerate_loop h ignore ehs (ch_raw_event h) sent m) (\<lambda>(completed, sent', m').
            Inr (if completed then int (length ehs) else sint ERROR_SUCCESS, sent', m')))"

section \<open>The forwarding thread and the dispatcher\<close>

text \<open>
  \<open>EventForwardHandler\<close>: the members and the state of its thread, which is created suspended.
  \<open>HandlerDispatcher\<close>: its decoder, its services, and what was given to \<open>Send\<close>. The metadata map
  is a static variable.
\<close>

datatype thread_state = Suspended | Running | Returned

text \<open>\<open>ResumeThread\<close>; on a thread that has returned it fails.\<close>

definition resume_thread :: "thread_state \<Rightarrow> thread_state" where
  "resume_thread t = (if t = Suspended then Running else t)"

record forwarder =
  fw_lastEventIDUploaded :: u32
  fw_eventsToSend :: "event list"
  fw_stop :: bool
  fw_subscribe :: bool
  fw_upload :: bool
  fw_thread :: thread_state
  fw_metadata :: metadata_map

record dispatcher =
  ds_decoder :: decoder
  ds_services :: "forwarder list"
  ds_out :: "byte list list"
  ds_statics :: statics

definition EventForwardHandler :: forwarder where
  "EventForwardHandler = \<lparr>fw_lastEventIDUploaded = 0, fw_eventsToSend = [], fw_stop = False,
     fw_subscribe = True, fw_upload = False, fw_thread = Suspended, fw_metadata = []\<rparr>"

definition HandlerDispatcher :: "statics \<Rightarrow> dispatcher" where
  "HandlerDispatcher st = \<lparr>ds_decoder = new_decoder, ds_services = [], ds_out = [], ds_statics = st\<rparr>"

definition AddServiceHandler :: "forwarder \<Rightarrow> dispatcher \<Rightarrow> dispatcher" where
  "AddServiceHandler f d = d\<lparr>ds_services := ds_services d @ [f]\<rparr>"

definition Send :: "byte list \<Rightarrow> dispatcher \<Rightarrow> dispatcher" where
  "Send buf d = d\<lparr>ds_out := ds_out d @ [buf]\<rparr>"

text \<open>Serialise a package and hand it to \<open>Send\<close>, as every caller of it does.\<close>

definition send_package :: "env \<Rightarrow> message \<times> statics \<Rightarrow> dispatcher \<Rightarrow> dispatcher outcome" where
  "send_package en mst d =
     bind_out (toBytes en (snd mst) (fst mst)) (\<lambda>(_, buf, _). Inr (Send buf (d\<lparr>ds_statics := snd mst\<rparr>)))"

text \<open>
  \<open>EvtSubscribe\<close> was given the second handle: whenever events are logged, Windows signals it.
\<close>

definition signal_subscription :: "nat \<Rightarrow> dispatcher \<Rightarrow> dispatcher" where
  "signal_subscription i d =
     d\<lparr>ds_services := (ds_services d)[i := (ds_services d ! i)\<lparr>fw_subscribe := True\<rparr>]\<rparr>"

text \<open>
  \<open>WaitForMultipleObjects\<close> fails, or reports the signalled handle with the lowest index, or goes on
  waiting.
\<close>

datatype wake = Wake_stop | Wake_subscribe | Wake_upload | Wait_failed

definition wait_for_objects :: "bool \<Rightarrow> forwarder \<Rightarrow> wake option" where
  "wait_for_objects failed f =
     (if failed then Some Wait_failed
      else if fw_stop f then Some Wake_stop
      else if fw_subscribe f then Some Wake_subscribe
      else if fw_upload f then Some Wake_upload else None)"

text \<open>
  A pass of the loop in \<open>Start\<close> up to \<open>ResetEvent\<close>, for the service at position \<open>i\<close>: \<open>failed\<close> tells
  whether the wait fails and \<open>nr\<close> is what \<open>EvtNext\<close> gives. The first result is the handle that is
  to be reset; there is none while the thread waits, or when it has left the loop.
\<close>

definition forward_read ::
    "'x client_host \<Rightarrow> bool \<Rightarrow> next_result \<Rightarrow> nat \<Rightarrow> dispatcher \<Rightarrow> (wake option \<times> dispatcher) outcome" where
  "forward_read h failed nr i d =
     (let f = ds_services d ! i;
          put = (\<lambda>f' d'. d'\<lparr>ds_services := (ds_services d')[i := f']\<rparr>) in
      case wait_for_objects failed f of
        None \<Rightarrow> Inr (None, d)
      | Some w \<Rightarrow>
          if w = Wake_stop \<or> w = Wait_failed then Inr (None, put (f\<lparr>fw_thread := Returned\<rparr>) d)
          else
            bind_out (EnumerateResults h nr (fw_lastEventIDUploaded f) [] (fw_metadata f))
              (\<lambda>(count, evts, m).
               let f1 = f\<lparr>fw_eventsToSend := evts, fw_metadata := m\<rparr> in
               if count < 0 then Inr (None, put (f1\<lparr>fw_thread := Returned\<rparr>) d)
               else
                 (let (lp, st) = LogPackage (count = int eventsPerSend) (ds_statics d) in
                  bind_out (send_package (ch_env h) (AddLogEvents evts lp, st) d) (\<lambda>d'.
                    Inr (Some w, put f1 d')))))"

text \<open>The \<open>ResetEvent\<close> at the end of the pass.\<close>

definition reset_handle :: "wake \<Rightarrow> forwarder \<Rightarrow> forwarder" where
  "reset_handle w f = (if w = Wake_subscribe then f\<lparr>fw_subscribe := False\<rparr> else f\<lparr>fw_upload := False\<rparr>)"

definition forward_reset :: "wake option \<Rightarrow> nat \<Rightarrow> dispatcher \<Rightarrow> dispatcher" where
  "forward_reset wo i d =
     (case wo of None \<Rightarrow> d
      | Some w \<Rightarrow> d\<lparr>ds_services := (ds_services d)[i := reset_handle w (ds_services d ! i)]\<rparr>)"

text \<open>A whole pass during which nothing else happens, and one in which the wait does not fail.\<close>

definition forward_pass ::
    "'x client_host \<Rightarrow> bool \<Rightarrow> next_result \<Rightarrow> nat \<Rightarrow> dispatcher \<Rightarrow> dispatcher outcome" where
  "forward_pass h failed nr i d =
     bind_out (forward_read h failed nr i d) (\<lambda>(wo, d'). Inr (forward_reset wo i d'))"

definition forward_round ::
    "'x client_host \<Rightarrow> next_result \<Rightarrow> nat \<Rightarrow> dispatcher \<Rightarrow> dispatcher outcome" where
  "forward_round h nr i d = forward_pass h False nr i d"

text \<open>\<open>EventForwardHandler::NetworkStartFinished\<close> and the loop of the dispatcher over its services.\<close>

definition service_NetworkStartFinished :: "env \<Rightarrow> dispatcher \<Rightarrow> dispatcher outcome" where
  "service_NetworkStartFinished en d = send_package en (QueryLastEventPackage (ds_statics d)) d"

definition NetworkStartFinished :: "env \<Rightarrow> dispatcher \<Rightarrow> dispatcher outcome" where
  "NetworkStartFinished en d =
     fold_out (\<lambda>d _. service_NetworkStartFinished en d) d (ds_services d)"

text \<open>\<open>EventForwardHandler::GetProtobufPackage\<close>; the casts fit the operation.\<close>

definition GetProtobufPackage :: "message \<Rightarrow> forwarder \<Rightarrow> forwarder" where
  "GetProtobufPackage msg f =
     (if msg_op msg = RETURN_LAST_EVENT \<and> fw_lastEventIDUploaded f = 0 then
        (case msg_body msg of
           Return_body lid \<Rightarrow> f\<lparr>fw_lastEventIDUploaded := lid, fw_thread := resume_thread (fw_thread f)\<rparr>
         | _ \<Rightarrow> f)
      else if msg_op msg = ACCEPT_LAST_EVENT then
        (case msg_body msg of
           Accept_body lid \<Rightarrow> f\<lparr>fw_lastEventIDUploaded := lid, fw_upload := True\<rparr>
         | _ \<Rightarrow> f)
      else f)"

definition SubmitProtobufPackage :: "message \<Rightarrow> dispatcher \<Rightarrow> dispatcher" where
  "SubmitProtobufPackage msg d = d\<lparr>ds_services := map (GetProtobufPackage msg) (ds_services d)\<rparr>"

section \<open>The connection\<close>

definition uvNetworkConnectCB :: "env \<Rightarrow> int \<Rightarrow> dispatcher \<Rightarrow> dispatcher outcome" where
  "uvNetworkConnectCB en status d =
     (if status = 0 then send_package en (ConnectPackage (ds_statics d)) d else Inr d)"

definition uvNetworkReadCB :: "env \<Rightarrow> byte list \<Rightarrow> dispatcher \<Rightarrow> dispatcher outcome" where
  "uvNetworkReadCB en buf d =
     (if buf = [] then Inr d
      else
        bind_out (decoder_read en (ds_statics d) (ds_decoder d) buf) (\<lambda>(_, st, dec).
        let (mo, dec') = GetProtobufMessage dec;
            d' = d\<lparr>ds_decoder := dec', ds_statics := st\<rparr>
        in case mo of
             None \<Rightarrow> Inr d'
           | Some msg \<Rightarrow>
               if msg_op msg = CONNECT then NetworkStartFinished en d'
               else Inr (SubmitProtobufPackage msg d')))"

text \<open>\<open>start\<close>: one service, added before the connection is made.\<close>

definition start_client :: "statics \<Rightarrow> dispatcher" where
  "start_client st = AddServiceHandler EventForwardHandler (HandlerDispatcher st)"

end
