(* ===== verification/Forwarder_Properties.thy ===== *)
theory Forwarder_Properties
  imports Event_Forwarder Packet_Properties
begin

text \<open>
  What the client's forwarding thread does with the event log: which events of a batch are sent
  and with what text, what happens when there is nothing to read, and how the record id that the
  server reports is used.
\<close>

section \<open>A sample client\<close>

text \<open>An XML text stands for a document all of whose elements have that text; the empty text has
  no \<open>System\<close> element.\<close>

definition sample_xml :: "(string \<times> string) xml_library" where
  "sample_xml = \<lparr>xl_root = (\<lambda>x. Some (''root'', x)),
     xl_child = (\<lambda>(k, x) name. if x = [] then None else Some (name, x)),
     xl_text = (\<lambda>(k, x). Some x), xl_attribute = (\<lambda>(k, x) name. Some x)\<rparr>"

definition sample_client_host :: "(string \<times> string) client_host" where
  "sample_client_host = \<lparr>ch_env = sample_env False Windows, ch_xml = sample_xml,
     ch_open_metadata = (\<lambda>p. Some 1),
     ch_raw_event = Event_number [] [] [] [] 0 0\<rparr>"

definition sample_handle :: "string \<Rightarrow> event_handle" where
  "sample_handle x = \<lparr>eh_render = Render_text x ERROR_SUCCESS, eh_format = Format_text ''message''\<rparr>"

section \<open>The text of an event\<close>

text \<open>The message of an event is never formatted: \<open>GetMessageString\<close> drops the text it has
  obtained, so what is sent as the message is the XML of the event when its provider's metadata
  can be opened, and nothing otherwise. Everything else about the event is left alone.\<close>

theorem event_text_never_formatted:
  "fst (FormatEvent h eh evt m) =
     evt\<lparr>ev_format := (case fst (GetProviderMetadata h (c_str (ev_provider evt)) m) of
                        None \<Rightarrow> [] | Some _ \<Rightarrow> ev_xml evt)\<rparr>"
  by (cases "eh_format eh") (simp_all add: FormatEvent_def split_def Let_def split: option.split)

section \<open>The events of a batch\<close>

text \<open>The cache holds what opening gives.\<close>

definition cache_ok :: "'x client_host \<Rightarrow> metadata_map \<Rightarrow> bool" where
  "cache_ok h m \<longleftrightarrow> (\<forall>p v. map_find p m = Some v \<longrightarrow> ch_open_metadata h p = Some v)"

definition formatted :: "'x client_host \<Rightarrow> event \<Rightarrow> event" where
  "formatted h p =
     p\<lparr>ev_format := (if ch_open_metadata h (c_str (ev_provider p)) = None then [] else ev_xml p)\<rparr>"

text \<open>A handle whose XML determines every field: the event it stands for, whatever was there.\<close>

definition reads_as :: "'x client_host \<Rightarrow> event_handle \<Rightarrow> event \<Rightarrow> bool" where
  "reads_as h eh p \<longleftrightarrow>
     (\<exists>xml. PrintEvent (eh_render eh) = Some xml
        \<and> (\<forall>e. ParseEventXml h xml e = Inr (p\<lparr>ev_format := ev_format e\<rparr>)))"

lemma FormatEvent_cached:
  assumes "cache_ok h m"
  shows "\<exists>m'. FormatEvent h eh (p\<lparr>ev_format := t\<rparr>) m = (formatted h p, m') \<and> cache_ok h m'"
  using assms
  by (cases "eh_format eh")
    (auto simp: FormatEvent_def GetProviderMetadata_def formatted_def cache_ok_def Let_def
      sockets.find_emplace split: option.splits)

lemma enumerate_loop_complete:
  assumes "list_all2 (reads_as h) ehs ps" and "cache_ok h m"
  shows "\<exists>m'. enumerate_loop h ignore ehs e sent m =
      Inr (True, sent @ map (formatted h) (filter (\<lambda>p. ignore \<le> ev_rid p) ps), m') \<and> cache_ok h m'"
  using assms
proof (induction ehs ps arbitrary: e sent m rule: list_all2_induct)
  case (Cons eh ehs p ps)
  from Cons.hyps(1) obtain xml where xml: "PrintEvent (eh_render eh) = Some xml"
      "\<And>e. ParseEventXml h xml e = Inr (p\<lparr>ev_format := ev_format e\<rparr>)"
    by (auto simp: reads_as_def)
  show ?case
  proof (cases "ignore \<le> ev_rid p")
    case True
    obtain m1 where m1: "FormatEvent h eh (p\<lparr>ev_format := ev_format e\<rparr>) m = (formatted h p, m1)"
        "cache_ok h m1"
      using FormatEvent_cached [OF Cons.prems] by blast
    from Cons.IH [OF m1(2), of "moved_from (formatted h p)" "sent @ [formatted h p]"] True xml m1(1)
    show ?thesis by simp
  next
    case False
    with Cons.IH [OF Cons.prems, of "p\<lparr>ev_format := ev_format e\<rparr>" sent] xml show ?thesis by simp
  qed
qed simp

text \<open>C18. When every event of a batch can be rendered and its XML is complete, the batch is read in
  order: exactly the events whose record id is at least the id to start from are sent, with their
  own fields, and the count is the number of events read, sent or not.\<close>

theorem EnumerateResults_filters:
  assumes "list_all2 (reads_as h) ehs ps" and "cache_ok h m"
  shows "\<exists>m'. EnumerateResults h (Next_events ehs) ignore sent m =
      Inr (int (length ps), sent @ map (formatted h) (filter (\<lambda>p. ignore \<le> ev_rid p) ps), m')"
  using enumerate_loop_complete [OF assms, of ignore "ch_raw_event h" sent] list_all2_lengthD [OF assms(1)]
  by (auto simp: EnumerateResults_def)

lemma sample_reads_as:
  assumes "x \<noteq> []" and "- (2 ^ 31) \<le> atoi_value x" and "atoi_value x < 2 ^ 31"
  shows "reads_as sample_client_host (sample_handle x)
    (Event_number x [] x x (word_of_int (atoi_value x)) (word_of_int (atoi_value x)))"
  using assms
  by (simp add: reads_as_def sample_handle_def ParseEventXml_def sample_client_host_def sample_xml_def
      atoi_def string_of_ptr_def Event_number_def Let_def)

theorem EnumerateResults_filters_witness:
  "\<exists>m' e. EnumerateResults sample_client_host (Next_events [sample_handle ''7'', sample_handle ''9'']) 8 [] [] =
      Inr (2, [e], m') \<and> ev_rid e = 9"
proof -
  have v: "atoi_value ''7'' = 7" "atoi_value ''9'' = 9"
    by (simp_all add: atoi_value_def is_digit_def)
  let ?e = "\<lambda>x n. Event_number x [] x x n n"
  have "list_all2 (reads_as sample_client_host) [sample_handle ''7'', sample_handle ''9'']
      [?e ''7'' 7, ?e ''9'' 9]"
    using sample_reads_as [of "''7''"] sample_reads_as [of "''9''"] by (simp add: v)
  from EnumerateResults_filters [OF this, of "[]" 8 "[]"] show ?thesis
    by (auto simp: cache_ok_def map_find_def formatted_def Event_number_def)
qed

text \<open>An event whose XML has no \<open>System\<close> element is not skipped: the object is reused, so it is
  sent with the record id and the severity of the event read before it.\<close>

theorem stale_record_id:
  assumes "reads_as h eh1 p" and "ignore \<le> ev_rid p" and "PrintEvent (eh_render eh2) = Some xml"
    and "xl_root (ch_xml h) xml = Some r" and "xl_child (ch_xml h) r ''System'' = None"
  shows "\<exists>e1 e2 m'. EnumerateResults h (Next_events [eh1, eh2]) ignore [] m = Inr (2, [e1, e2], m')
    \<and> ev_xml e2 = xml \<and> ev_rid e2 = ev_rid p \<and> ev_llevel e2 = ev_llevel p \<and> ev_provider e2 = []"
proof -
  from assms(1) obtain x where x: "PrintEvent (eh_render eh1) = Some x"
      "\<And>e. ParseEventXml h x e = Inr (p\<lparr>ev_format := ev_format e\<rparr>)"
    by (auto simp: reads_as_def)
  have keep: "ev_rid (fst (FormatEvent h eh e m)) = ev_rid e"
      "ev_llevel (fst (FormatEvent h eh e m)) = ev_llevel e"
      "ev_xml (fst (FormatEvent h eh e m)) = ev_xml e"
      "ev_provider (fst (FormatEvent h eh e m)) = ev_provider e" for eh e m
    by (auto simp: FormatEvent_def Let_def split: prod.split option.split)
  have parse2: "ParseEventXml h xml e = Inr (e\<lparr>ev_xml := xml\<rparr>)" for e
    using assms(4,5) by (simp add: ParseEventXml_def Let_def)
  show ?thesis
    using x assms(2,3) parse2
    by (auto simp: EnumerateResults_def moved_from_def keep split_def Let_def)
qed

theorem stale_record_id_witness:
  "\<exists>e1 e2 m'. EnumerateResults sample_client_host (Next_events [sample_handle ''7'', sample_handle []]) 0 [] []
      = Inr (2, [e1, e2], m') \<and> ev_rid e2 = 7"
proof -
  have v: "atoi_value ''7'' = 7" by (simp add: atoi_value_def is_digit_def)
  have "reads_as sample_client_host (sample_handle ''7'') (Event_number ''7'' [] ''7'' ''7'' 7 7)"
    using sample_reads_as [of "''7''"] by (simp add: v)
  from stale_record_id [OF this, of 0 "sample_handle []" "[]" "(''root'', [])" "[]"] show ?thesis
    by (auto simp: sample_handle_def sample_client_host_def sample_xml_def Event_number_def ERROR_SUCCESS_def)
qed

section \<open>Rounds of the forwarding thread\<close>

lemma send_package_sendable:
  assumes "sendable en (snd mst, fst mst)"
  shows "send_package en mst d =
    Inr (d\<lparr>ds_out := ds_out d @ [sent_bytes en (snd mst) (fst mst)], ds_statics := snd mst\<rparr>)"
  using assms sent_bytes_parts(1) [of en "snd mst" "fst mst"]
  by (simp add: send_package_def sendable_def Send_def)

text \<open>A service that is woken by the subscription or by an acceptance.\<close>

definition woken :: "forwarder \<Rightarrow> bool" where
  "woken f \<longleftrightarrow> \<not> fw_stop f \<and> (fw_subscribe f \<or> fw_upload f)"

definition after_round :: "forwarder \<Rightarrow> event list \<Rightarrow> metadata_map \<Rightarrow> forwarder" where
  "after_round f evts m =
     (if fw_subscribe f then f\<lparr>fw_eventsToSend := evts, fw_metadata := m, fw_subscribe := False\<rparr>
      else f\<lparr>fw_eventsToSend := evts, fw_metadata := m, fw_upload := False\<rparr>)"

lemma forward_round_sends:
  assumes "woken (ds_services d ! i)"
    and "EnumerateResults h nr (fw_lastEventIDUploaded (ds_services d ! i)) []
      (fw_metadata (ds_services d ! i)) = Inr (count, evts, m)" and "0 \<le> count"
  defines "lp \<equiv> LogPackage (count = int eventsPerSend) (ds_statics d)"
  assumes "sendable (ch_env h) (snd lp, AddLogEvents evts (fst lp))"
  shows "forward_round h nr i d = Inr (d\<lparr>
      ds_out := ds_out d @ [sent_bytes (ch_env h) (snd lp) (AddLogEvents evts (fst lp))],
      ds_statics := snd lp,
      ds_services := (ds_services d)[i := after_round (ds_services d ! i) evts m]\<rparr>)"
proof -
  obtain w where w: "wait_for_objects False (ds_services d ! i) = Some w" "\<not> (w = Wake_stop \<or> w = Wait_failed)"
      "(w = Wake_subscribe) = fw_subscribe (ds_services d ! i)"
    using assms(1) by (cases "fw_subscribe (ds_services d ! i)") (simp_all add: woken_def wait_for_objects_def)
  let ?f = "(ds_services d ! i)\<lparr>fw_eventsToSend := evts, fw_metadata := m\<rparr>"
  have "forward_read h False nr i d = Inr (Some w, d\<lparr>
      ds_out := ds_out d @ [sent_bytes (ch_env h) (snd lp) (AddLogEvents evts (fst lp))],
      ds_statics := snd lp, ds_services := (ds_services d)[i := ?f]\<rparr>)"
    using w(1,2) assms(2,3,5) send_package_sendable [of "ch_env h" "(AddLogEvents evts (fst lp), snd lp)" d]
    by (simp add: forward_read_def Let_def lp_def split_def)
  then show ?thesis
    using w(3) by (cases "i < length (ds_services d)")
      (auto simp: forward_round_def forward_pass_def forward_reset_def reset_handle_def after_round_def
        list_update_beyond)
qed

text \<open>When \<open>EvtNext\<close> has nothing more to give, its error code is taken for a number of events:
  the thread neither stops nor waits, but sends a log package with no events at all.\<close>

theorem nothing_left_sends_empty_package:
  assumes "woken (ds_services d ! i)"
    and "sendable (ch_env h) (snd (LogPackage False (ds_statics d)), fst (LogPackage False (ds_statics d)))"
  shows "\<exists>d'. forward_round h (Next_failed ERROR_NO_MORE_ITEMS) i d = Inr d'
    \<and> ds_out d' = ds_out d @ [sent_bytes (ch_env h) (snd (LogPackage False (ds_statics d)))
                               (fst (LogPackage False (ds_statics d)))]
    \<and> GetEvents (fst (LogPackage False (ds_statics d))) = []"
proof -
  let ?f = "ds_services d ! i"
  have empty: "AddLogEvents [] (fst (LogPackage False (ds_statics d))) = fst (LogPackage False (ds_statics d))"
      "GetEvents (fst (LogPackage False (ds_statics d))) = []"
    by (simp_all add: AddLogEvents_def GetEvents_def constructor_defs)
  have "EnumerateResults h (Next_failed ERROR_NO_MORE_ITEMS) (fw_lastEventIDUploaded ?f) [] (fw_metadata ?f) =
      Inr (259, [], fw_metadata ?f)"
    by (simp add: EnumerateResults_def ERROR_NO_MORE_ITEMS_def)
  from forward_round_sends [OF assms(1) this] assms(2) empty show ?thesis
    by (simp add: eventsPerSend_def)
qed

text \<open>The package of a batch, with the state it leaves behind, and its bytes.\<close>

abbreviation batch :: "bool \<Rightarrow> statics \<Rightarrow> event list \<Rightarrow> statics \<times> message" where
  "batch ac st es \<equiv> (snd (LogPackage ac st), AddLogEvents es (fst (LogPackage ac st)))"

abbreviation batch_bytes :: "'x client_host \<Rightarrow> bool \<Rightarrow> statics \<Rightarrow> event list \<Rightarrow> byte list" where
  "batch_bytes h ac st es \<equiv>
     sent_bytes (ch_env h) (snd (LogPackage ac st)) (AddLogEvents es (fst (LogPackage ac st)))"

text \<open>The sample client after its thread was resumed.\<close>

definition sample_dispatcher :: dispatcher where
  "sample_dispatcher = start_client sample_statics"

lemma sample_log_sendable_later:
  assumes "\<And>e. e \<in> set es \<Longrightarrow> length (ev_xml e) + length (ev_format e) + length (ev_provider e)
      + length (ev_timeStamp e) < 100" and "length es < 100"
  shows "sendable (sample_env nd pf) (batch ac (sample_statics\<lparr>next_id := n\<rparr>) es)"
proof -
  let ?st = "sample_statics\<lparr>next_id := n\<rparr>"
  let ?m = "AddLogEvents es (fst (LogPackage ac ?st))"
  have put: "length (put_string s) = 2 * length s + 1" for s
    by (induction s) (simp_all add: put_string_def)
  have "length (concat (map put_log (map pb_of_event es))) \<le> 1000 * length es"
    using assms(1)
  proof (induction es)
    case (Cons e es)
    have "length (put_log (pb_of_event e)) \<le> 1000"
      using Cons.prems [of e] by (simp add: put_log_def pb_of_event_def put)
    with Cons show ?case by simp
  qed simp
  with assms(2) have logs: "length (concat (map put_log (map pb_of_event es))) < 200000" by linarith
  have "length (dec_nat n) \<le> 5" if "n < 10000" for n
    using that length_dec_nat_small [of n] by (cases "n < 10"; cases "n < 100"; cases "n < 1000") auto
  then have "length (getTimeStamp pf (clock (sample_env nd pf)) (timeBias (snd (LogPackage ac ?st))) []) < 1000"
    by (cases pf) (simp_all add: getTimeStamp_def sample_env_def sample_statics_def constructor_defs
        pad_left_def dec_nat.simps)
  then have "wire_ok (sample_env nd pf) (snd (core_of_message (sample_env nd pf) (snd (LogPackage ac ?st)) ?m))"
    using logs assms(2)
    by (intro sample_wire_ok) (simp add: transfer_defs AddLogEvents_def sample_serialize_def put
        sample_statics_def sample_env_def)
  moreover have "wf_message ?m" "receivable (msg_op ?m)"
    by (simp_all add: wf_message_def receivable_def AddLogEvents_def constructor_defs)
  ultimately show ?thesis by (simp add: sendable_def)
qed

lemma sample_log_sendable:
  assumes "\<And>e. e \<in> set es \<Longrightarrow> length (ev_xml e) + length (ev_format e) + length (ev_provider e)
      + length (ev_timeStamp e) < 100" and "length es < 100"
  shows "sendable (sample_env nd pf) (batch ac sample_statics es)"
  using sample_log_sendable_later [OF assms, of nd pf ac "next_id sample_statics"] by simp

theorem nothing_left_sends_empty_package_witness:
  "\<exists>d' b. forward_round sample_client_host (Next_failed ERROR_NO_MORE_ITEMS) 0 sample_dispatcher = Inr d'
    \<and> ds_out d' = [b]"
proof -
  have "woken (ds_services sample_dispatcher ! 0)" "ds_statics sample_dispatcher = sample_statics"
      "ds_out sample_dispatcher = []"
    by (simp_all add: sample_dispatcher_def start_client_def AddServiceHandler_def HandlerDispatcher_def
        EventForwardHandler_def woken_def)
  moreover have "sendable (sample_env False Windows)
      (snd (LogPackage False sample_statics), fst (LogPackage False sample_statics))"
    using sample_log_sendable [of "[]" False Windows False] by (simp add: AddLogEvents_def constructor_defs)
  ultimately show ?thesis
    using nothing_left_sends_empty_package [of sample_dispatcher 0 sample_client_host]
    by (auto simp: sample_client_host_def)
qed

text \<open>C21. A full batch is sent with a request to accept it. Then the thread waits as long as no
  handle is signalled, which is at once unless both were. An acceptance wakes it, and the batch that it then reads starts at the record id which
  the acceptance carries. Newly logged events wake it as well: it then sends another batch without
  any acceptance, starting at the record id of before.\<close>

theorem full_batch_reads_on:
  fixes d :: dispatcher and i :: nat
  defines "f \<equiv> ds_services d ! i"
  assumes "i < length (ds_services d)" and "woken f"
    and "EnumerateResults h nr (fw_lastEventIDUploaded f) [] (fw_metadata f) = Inr (int eventsPerSend, evts, m)"
    and "sendable (ch_env h) (batch True (ds_statics d) evts)" and "forward_round h nr i d = Inr d1"
  shows "NeedAccept (snd (batch True (ds_statics d) evts))
    \<and> ds_out d1 = ds_out d @ [batch_bytes h True (ds_statics d) evts]
    \<and> (\<not> (fw_subscribe f \<and> fw_upload f) \<longrightarrow> forward_round h nr2 i d1 = Inr d1)
    \<and> wait_for_objects False (ds_services (SubmitProtobufPackage (fst (AcceptLastEventPackage lid st)) d1) ! i)
        = Some Wake_upload
    \<and> fw_lastEventIDUploaded (ds_services (SubmitProtobufPackage (fst (AcceptLastEventPackage lid st)) d1) ! i)
        = lid
    \<and> (\<forall>n2 evts2 m2.
         EnumerateResults h nr2 (fw_lastEventIDUploaded f) [] m = Inr (n2, evts2, m2) \<and> 0 \<le> n2
         \<and> sendable (ch_env h) (batch (n2 = int eventsPerSend) (ds_statics d1) evts2) \<longrightarrow>
         (\<exists>d2. forward_round h nr2 i (signal_subscription i d1) = Inr d2
            \<and> ds_out d2 = ds_out d1 @ [batch_bytes h (n2 = int eventsPerSend) (ds_statics d1) evts2]))"
proof -
  let ?g = "after_round f evts m"
  have d1: "d1 = d\<lparr>ds_out := ds_out d @ [batch_bytes h True (ds_statics d) evts],
      ds_statics := snd (LogPackage True (ds_statics d)), ds_services := (ds_services d)[i := ?g]\<rparr>"
    using forward_round_sends [of d i h nr _ evts m] assms(3-6) by (simp add: eventsPerSend_def f_def)
  have serv: "ds_services d1 ! i = ?g" "i < length (ds_services d1)"
    using assms(2) by (simp_all add: d1)
  have g: "fw_stop ?g = False" "fw_subscribe ?g = False" "fw_lastEventIDUploaded ?g = fw_lastEventIDUploaded f"
      "fw_metadata ?g = m"
    using assms(3) by (auto simp: woken_def after_round_def)
  have need: "NeedAccept (snd (batch True (ds_statics d) evts))"
    by (simp add: NeedAccept_def AddLogEvents_def constructor_defs)
  have out: "ds_out d1 = ds_out d @ [batch_bytes h True (ds_statics d) evts]" by (simp add: d1)
  have idle: "forward_round h nr2 i d1 = Inr d1" if "\<not> (fw_subscribe f \<and> fw_upload f)"
  proof -
    have "wait_for_objects False ?g = None"
      using assms(3) that by (auto simp: woken_def after_round_def wait_for_objects_def)
    then show ?thesis by (simp add: forward_round_def forward_pass_def forward_read_def forward_reset_def serv)
  qed
  have accepted: "ds_services (SubmitProtobufPackage (fst (AcceptLastEventPackage lid st)) d1) ! i =
      ?g\<lparr>fw_lastEventIDUploaded := lid, fw_upload := True\<rparr>"
    using serv by (simp add: SubmitProtobufPackage_def GetProtobufPackage_def constructor_defs)
  have signalled: "ds_services (signal_subscription i d1) ! i = ?g\<lparr>fw_subscribe := True\<rparr>"
    "ds_out (signal_subscription i d1) = ds_out d1" "ds_statics (signal_subscription i d1) = ds_statics d1"
    using serv by (simp_all add: signal_subscription_def)
  have "\<exists>d2. forward_round h nr2 i (signal_subscription i d1) = Inr d2
      \<and> ds_out d2 = ds_out d1 @ [batch_bytes h (n2 = int eventsPerSend) (ds_statics d1) evts2]"
    if "EnumerateResults h nr2 (fw_lastEventIDUploaded f) [] m = Inr (n2, evts2, m2)" and "0 \<le> n2"
      and "sendable (ch_env h) (batch (n2 = int eventsPerSend) (ds_statics d1) evts2)" for n2 evts2 m2
    using forward_round_sends [of "signal_subscription i d1" i h nr2 n2 evts2 m2] that signalled g
    by (simp add: woken_def)
  with need out idle accepted g(1,2) show ?thesis
    by (simp add: wait_for_objects_def)
qed

text \<open>An acceptance that arrives between sending and \<open>ResetEvent\<close> in a pass that an acceptance has
  started is lost: its record id is kept, but the thread waits until events are logged.\<close>

lemma early_acceptance_lost:
  assumes "i < length (ds_services d)" and "\<not> fw_subscribe (ds_services d ! i)"
    and "forward_read h failed nr i d = Inr (Some Wake_upload, d1)"
  shows "\<exists>f. ds_services (forward_reset (Some Wake_upload) i
        (SubmitProtobufPackage (fst (AcceptLastEventPackage lid st)) d1)) ! i = f
    \<and> fw_lastEventIDUploaded f = lid \<and> wait_for_objects False f = None"
proof -
  let ?f = "ds_services d ! i"
  have wake: "wait_for_objects failed ?f = Some Wake_upload" "\<not> fw_stop ?f"
    using assms(3) by (auto simp: forward_read_def bind_out_Inr_iff wait_for_objects_def Let_def split_def
        split: option.splits if_splits)
  from assms(3) obtain es m where "ds_services d1 ! i = ?f\<lparr>fw_eventsToSend := es, fw_metadata := m\<rparr>"
      "length (ds_services d1) = length (ds_services d)"
    using assms(1) wake by (auto simp: forward_read_def bind_out_Inr_iff Let_def send_package_def Send_def split_def
        split: if_splits)
  with assms(1,2) wake show ?thesis
    by (simp add: SubmitProtobufPackage_def GetProtobufPackage_def constructor_defs forward_reset_def
        reset_handle_def wait_for_objects_def)
qed

theorem full_batch_reads_on_witness:
  "\<exists>d1 d2. forward_round sample_client_host (Next_events (replicate 30 (sample_handle ''7''))) 0 sample_dispatcher = Inr d1
    \<and> forward_round sample_client_host (Next_failed 259) 0 d1 = Inr d1
    \<and> forward_round sample_client_host (Next_failed 259) 0 (signal_subscription 0 d1) = Inr d2
    \<and> length (ds_out d2) = 2"
proof -
  let ?p = "Event_number ''7'' [] ''7'' ''7'' 7 7"
  let ?nr = "Next_events (replicate 30 (sample_handle ''7''))"
  have v: "atoi_value ''7'' = 7" by (simp add: atoi_value_def is_digit_def)
  have "reads_as sample_client_host (sample_handle ''7'') ?p"
    using sample_reads_as [of "''7''"] by (simp add: v)
  then have "list_all2 (reads_as sample_client_host) (replicate 30 (sample_handle ''7'')) (replicate 30 ?p)"
    by (simp add: list_all2_conv_all_nth)
  from enumerate_loop_complete [OF this, of "[]" 0 "ch_raw_event sample_client_host" "[]"] obtain m where
    m: "EnumerateResults sample_client_host ?nr 0 [] [] =
      Inr (int eventsPerSend, map (formatted sample_client_host) (replicate 30 ?p), m)"
    by (auto simp: EnumerateResults_def cache_ok_def map_find_def eventsPerSend_def)
  let ?es = "map (formatted sample_client_host) (replicate 30 ?p)"
  have d: "ds_services sample_dispatcher = [EventForwardHandler]" "ds_statics sample_dispatcher = sample_statics"
    by (simp_all add: sample_dispatcher_def start_client_def AddServiceHandler_def HandlerDispatcher_def)
  have send: "sendable (sample_env False Windows)
      (snd (LogPackage True sample_statics), AddLogEvents ?es (fst (LogPackage True sample_statics)))"
    by (rule sample_log_sendable) (auto simp: formatted_def Event_number_def)
  have woken: "woken EventForwardHandler" by (simp add: woken_def EventForwardHandler_def)
  have r: "EnumerateResults sample_client_host ?nr (fw_lastEventIDUploaded (ds_services sample_dispatcher ! 0)) []
      (fw_metadata (ds_services sample_dispatcher ! 0)) = Inr (int eventsPerSend, ?es, m)"
    using m by (simp add: d EventForwardHandler_def)
  obtain d1 where d1: "forward_round sample_client_host ?nr 0 sample_dispatcher = Inr d1"
    using forward_round_sends [OF _ r] send woken
    by (auto simp: d sample_client_host_def eventsPerSend_def)
  have empty: "EnumerateResults sample_client_host (Next_failed 259) 0 [] m = Inr (259, [], m)"
    by (simp add: EnumerateResults_def)
  have out: "ds_out sample_dispatcher = []"
    by (simp add: sample_dispatcher_def start_client_def AddServiceHandler_def HandlerDispatcher_def)
  have "sendable (sample_env False Windows) (batch False (ds_statics d1) [])"
  proof -
    have "ds_statics d1 = snd (LogPackage True sample_statics)"
      using forward_round_sends [OF _ r] send woken d1 by (auto simp: d sample_client_host_def eventsPerSend_def)
    then have st: "ds_statics d1 = sample_statics\<lparr>next_id := next_id sample_statics + 1\<rparr>"
      by (simp add: constructor_defs)
    show ?thesis unfolding st by (rule sample_log_sendable_later) simp_all
  qed
  with full_batch_reads_on [OF _ _ r _ d1, where ?nr2.0 = "Next_failed 259" and lid = 0 and st = sample_statics] send woken
  obtain d2 where "forward_round sample_client_host (Next_failed 259) 0 d1 = Inr d1"
     "forward_round sample_client_host (Next_failed 259) 0 (signal_subscription 0 d1) = Inr d2"
     "length (ds_out d2) = 2"
    using empty by (auto simp: d out sample_client_host_def EventForwardHandler_def eventsPerSend_def)
  with d1 show ?thesis by blast
qed

end
