(* ===== verification/End_To_End.thy ===== *)
theory End_To_End
  imports Type_Invariant Forwarder_Properties
begin

text \<open>
  Client and server together, through the bytes they exchange: the handshake that tells the client
  where to resume, and what becomes of batches, empty batches and refusals.
\<close>

section \<open>The identity of a process\<close>

text \<open>Sending and receiving change nothing in the static variables but the counter of ids.\<close>

definition same_identity :: "statics \<Rightarrow> statics \<Rightarrow> bool" where
  "same_identity st st' \<longleftrightarrow> (\<exists>i. st' = st\<lparr>next_id := i\<rparr>)"

lemma same_identity_refl [simp]: "same_identity st st"
  by (auto simp: same_identity_def intro: exI [of _ "next_id st"])

lemma same_identity_trans: "same_identity st st' \<Longrightarrow> same_identity st' st'' \<Longrightarrow> same_identity st st''"
  by (auto simp: same_identity_def)

lemma constructors_identity [simp]:
  "same_identity st (snd (ConnectPackage st))" "same_identity st (snd (QueryLastEventPackage st))"
  "same_identity st (snd (ReturnLastEventPackage n st))" "same_identity st (snd (AcceptLastEventPackage n st))"
  "same_identity st (snd (LogPackage ac st))"
  by (auto simp: same_identity_def constructor_defs)

lemma same_identity_update [simp]: "same_identity st (st\<lparr>next_id := i\<rparr>)"
  by (auto simp: same_identity_def)

lemma nextID_identity: "nextID st = (i, st') \<Longrightarrow> same_identity st st'"
  by (auto simp: nextID_def)

lemma BuildObj_identity: "BuildObj en core st = Inr (mo, st') \<Longrightarrow> same_identity st st'"
proof -
  assume a: "BuildObj en core st = Inr (mo, st')"
  then obtain mo1 st1 where n: "new_from_core en core st = Inr (mo1, st1)"
    by (auto simp: BuildObj_def bind_out_Inr_iff)
  have "same_identity st st1"
    using n by (auto simp: new_from_core_def constructor_defs bind_out_Inr_iff Let_def
        split: pb_operation.splits)
  moreover have "same_identity st1 st'"
    using a n by (auto simp: BuildObj_def copy_core_fields_def nextID_def Let_def
        split: option.splits if_splits)
  ultimately show ?thesis by (rule same_identity_trans)
qed

lemma open_body_identity: "open_body en st a b h d = Inr (mo, st') \<Longrightarrow> same_identity st st'"
  by (auto simp: open_body_def parseFromArray_def bind_out_Inr_iff split: if_splits option.splits prod.splits
      dest: BuildObj_identity)

lemma consume_identity: "consume en st q bs = Inr (st', q', r) \<Longrightarrow> same_identity st st'"
proof (induction bs arbitrary: st q rule: length_induct)
  case (1 bs)
  let ?size = "load_be32 (drop 4 bs)"
  consider "length bs \<le> 40" | "40 < length bs" "?size = 0"
    | "40 < length bs" "?size \<noteq> 0" "length bs < 40 + unat ?size"
    | "40 < length bs" "?size \<noteq> 0" "40 + unat ?size \<le> length bs"
    by linarith
  then show ?case
  proof cases
    case 4
    with "1.prems" obtain ret st1 where
      b: "open_body en st (load_be32 bs) ?size (take 40 bs) (take (unat ?size) (drop 40 bs)) = Inr (ret, st1)"
      and c: "consume en st1 (q @ [ret]) (drop (40 + unat ?size) bs) = Inr (st', q', r)"
      by (auto simp: consume_frame [OF 4] bind_out_Inr_iff)
    have "length (drop (40 + unat ?size) bs) < length bs" using 4 by simp
    with "1.IH" c have "same_identity st1 st'" by blast
    with open_body_identity [OF b] show ?thesis by (rule same_identity_trans)
  qed (use "1.prems" in \<open>auto simp: consume_wait consume_zero\<close>)
qed

text \<open>A decoder between two packets.\<close>

definition idle :: "decoder \<Rightarrow> bool" where
  "idle d \<longleftrightarrow> decoder_inv d \<and> pending d = [] \<and> vec d = []"

lemma idle_new [simp]: "idle new_decoder"
  by (simp add: idle_def decoder_inv_new) (simp add: new_decoder_def)

lemma idle_pop: "decoder_inv d \<Longrightarrow> pending d = [] \<Longrightarrow> idle (d\<lparr>vec := []\<rparr>)"
  by (simp add: idle_def decoder_inv_def pending_def split: if_splits)

lemma read_one:
  assumes "sendable en (stm, m)" and "idle d"
  shows "\<exists>x st' d' m'. decoder_read en st d (sent_bytes en stm m) = Inr (x, st', d')
    \<and> vec d' = [Some m'] \<and> delivered stm m m' \<and> idle (d'\<lparr>vec := []\<rparr>) \<and> same_identity st st'"
proof -
  obtain x st' d' ms where r: "decoder_read en st d (sent_bytes en stm m) = Inr (x, st', d')"
      "vec d' = vec d @ map Some ms" "pending d' = []" "decoder_inv d'"
      "list_all2 (\<lambda>(st, m) m'. delivered st m m') [(stm, m)] ms"
    using read_sent [of "[(stm, m)]" en d st] assms by (auto simp: idle_def)
  then obtain m' where ms: "ms = [m']" "delivered stm m m'"
    by (auto simp: list_all2_Cons1)
  have ne: "sent_bytes en stm m \<noteq> []" by (rule sent_bytes_nonempty [OF assms(1)])
  have "simulates (feed_decoder en (st, d) (sent_bytes en stm m))
      (stream_feed en (stream_of (st, d)) (sent_bytes en stm m))"
    using assms(2) ne by (intro feed_decoder_simulates) (simp_all add: idle_def)
  then have "consume en st (vec d) (pending d @ sent_bytes en stm m) = Inr (st', vec d', pending d')"
    using r(1) by (simp add: feed_decoder_def stream_feed_def stream_of_def)
  then have "same_identity st st'" by (rule consume_identity)
  moreover have "vec d' = [Some m']" using r(2) ms(1) assms(2) by (simp add: idle_def)
  ultimately show ?thesis
    using r(1) ms(2) idle_pop [OF r(4,3)] by blast
qed

section \<open>One message in each direction\<close>

lemma server_receives:
  assumes "sendable (h_env h) (stm, m)" and "map_find c (sv_heap s) = Some cl" and "idle (cl_decoder cl)"
    and "\<not> sv_dbConnected s"
  shows "\<exists>st' dec m'. readFromNetwork h c (sent_bytes (h_env h) stm m) s =
      handle_message h c (cl\<lparr>cl_decoder := dec\<rparr>) m'
        (set_client c (cl\<lparr>cl_decoder := dec\<rparr>) (s\<lparr>sv_statics := st'\<rparr>))
    \<and> delivered stm m m' \<and> idle dec \<and> same_identity (sv_statics s) st'"
proof -
  obtain x st' d' m' where r: "decoder_read (h_env h) (sv_statics s) (cl_decoder cl)
        (sent_bytes (h_env h) stm m) = Inr (x, st', d')"
      "vec d' = [Some m']" "delivered stm m m'" "idle (d'\<lparr>vec := []\<rparr>)" "same_identity (sv_statics s) st'"
    using read_one [OF assms(1,3), of "sv_statics s"] by blast
  show ?thesis
    using r assms(4) readFromNetwork_eq [OF assms(2) r(1,2)]
    by (intro exI [of _ st'] exI [of _ "d'\<lparr>vec := []\<rparr>"] exI [of _ m']) (simp add: Let_def)
qed

lemma client_receives:
  assumes "sendable en (stm, m)" and "idle (ds_decoder d)"
  shows "\<exists>st' dec m'. uvNetworkReadCB en (sent_bytes en stm m) d =
      (if msg_op m = CONNECT then NetworkStartFinished en (d\<lparr>ds_decoder := dec, ds_statics := st'\<rparr>)
       else Inr (SubmitProtobufPackage m' (d\<lparr>ds_decoder := dec, ds_statics := st'\<rparr>)))
    \<and> delivered stm m m' \<and> idle dec \<and> same_identity (ds_statics d) st'"
proof -
  obtain x st' d' m' where r: "decoder_read en (ds_statics d) (ds_decoder d) (sent_bytes en stm m) = Inr (x, st', d')"
      "vec d' = [Some m']" "delivered stm m m'" "idle (d'\<lparr>vec := []\<rparr>)" "same_identity (ds_statics d) st'"
    using read_one [OF assms, of "ds_statics d"] by blast
  have "msg_op m' = msg_op m" using r(3) by (simp add: delivered_def)
  then show ?thesis
    using r sent_bytes_nonempty [OF assms(1)]
    by (intro exI [of _ st'] exI [of _ "d'\<lparr>vec := []\<rparr>"] exI [of _ m'])
      (simp add: uvNetworkReadCB_def GetProtobufMessage_simps)
qed

lemma answer_sendable:
  assumes "sendable (h_env h) (snd mst, fst mst)"
  shows "answer h c mst s = Inr (s\<lparr>sv_statics := snd mst,
    sv_sending := sv_sending s @ [\<lparr>so_buf = sent_bytes (h_env h) (snd mst) (fst mst), so_sock = c\<rparr>],
    sv_writeAsync := True\<rparr>)"
  using assms WriteToNetwork_sendable [of h "s\<lparr>sv_statics := snd mst\<rparr>" "fst mst" c]
  by (simp add: answer_def)

text \<open>A process all of whose short packages can be sent, whatever ids they get.\<close>

definition session_ok :: "env \<Rightarrow> statics \<Rightarrow> bool" where
  "session_ok en st \<longleftrightarrow>
     (\<forall>st' n. same_identity st st' \<longrightarrow>
        sendable en (snd (ConnectPackage st'), fst (ConnectPackage st'))
        \<and> sendable en (snd (QueryLastEventPackage st'), fst (QueryLastEventPackage st'))
        \<and> sendable en (snd (ReturnLastEventPackage n st'), fst (ReturnLastEventPackage n st'))
        \<and> sendable en (snd (AcceptLastEventPackage n st'), fst (AcceptLastEventPackage n st')))"

lemma session_okD:
  assumes "session_ok en st" and "same_identity st st'"
  shows "sendable en (snd (ConnectPackage st'), fst (ConnectPackage st'))"
    and "sendable en (snd (QueryLastEventPackage st'), fst (QueryLastEventPackage st'))"
    and "sendable en (snd (ReturnLastEventPackage n st'), fst (ReturnLastEventPackage n st'))"
    and "sendable en (snd (AcceptLastEventPackage n st'), fst (AcceptLastEventPackage n st'))"
  using assms unfolding session_ok_def by blast+

lemma session_ok_later: "session_ok en st \<Longrightarrow> same_identity st st' \<Longrightarrow> session_ok en st'"
  unfolding session_ok_def by (meson same_identity_trans)

lemma short_session_ok:
  assumes "length (myClientName st0) + length (myOsVersion st0) + length (myMachineID st0) + length (timeBias st0) < 500"
  shows "session_ok (sample_env nd pf) st0"
proof -
  have put: "length (put_string s) = 2 * length s + 1" for s
    by (induction s) (simp_all add: put_string_def)
  have op: "length (put_op x) = 1" for x by (cases x) simp_all
  have ok: "sendable (sample_env nd pf) (st, m)"
    if "same_identity st0 st" "wf_message m" "receivable (msg_op m)" "msg_timeStamp m = []"
      "length (msg_description m) < 100" "\<And>es ac. msg_body m \<noteq> Log_body es ac" for st m
  proof -
    have "length (getTimeStamp pf (clock (sample_env nd pf)) (timeBias st) []) < 1000"
      using that(1) assms by (cases pf) (auto simp: getTimeStamp_def sample_env_def
          same_identity_def pad_left_def dec_nat.simps)
    then have "wire_ok (sample_env nd pf) (snd (core_of_message (sample_env nd pf) st m))"
      using that(1,4,5,6) assms
      by (intro sample_wire_ok) (cases "msg_body m"; auto simp: transfer_defs sample_serialize_def put op
          same_identity_def sample_env_def)
    with that(2,3) show ?thesis by (simp add: sendable_def)
  qed
  have st: "same_identity st0 (st'\<lparr>next_id := next_id st' + 1\<rparr>)"
    if "same_identity st0 st'" for st'
    using that by (auto simp: same_identity_def)
  show ?thesis
    unfolding session_ok_def
    by (intro allI impI conjI; rule ok)
      (simp_all add: constructors_wf constructor_defs receivable_def wf_message_def st)
qed

lemma sample_session_ok: "session_ok (sample_env nd pf) sample_statics"
  by (rule short_session_ok) (simp add: sample_statics_def)

section \<open>The handshake\<close>

text \<open>What of a connection matters for the messages that follow.\<close>

definition serving :: "'db host \<Rightarrow> nat \<Rightarrow> dbclient option \<Rightarrow> 'db database \<Rightarrow> 'db server \<Rightarrow> bool" where
  "serving h c dc db s \<longleftrightarrow>
     (\<exists>cl. map_find c (sv_heap s) = Some cl \<and> idle (cl_decoder cl) \<and> (dc = None \<or> cl_client cl = dc))
     \<and> \<not> sv_dbConnected s \<and> sv_db s = db \<and> session_ok (h_env h) (sv_statics s)"

lemma session_ok_sent:
  "session_ok en st \<Longrightarrow> same_identity st st' \<Longrightarrow> session_ok en (snd (ConnectPackage st'))"
  "session_ok en st \<Longrightarrow> same_identity st st' \<Longrightarrow> session_ok en (snd (QueryLastEventPackage st'))"
  "session_ok en st \<Longrightarrow> same_identity st st' \<Longrightarrow> session_ok en (snd (ReturnLastEventPackage n st'))"
  by (rule session_ok_later, assumption, erule same_identity_trans, simp)+

lemma server_connects:
  assumes "serving h c dc0 db s" and "sendable (h_env h) (stm, m)" and "msg_op m = CONNECT"
    and known: "\<And>m'. msg_machineID m' = myMachineID stm \<Longrightarrow>
      \<exists>db1. GetClient (h_px h) (ndebug (h_env h)) (h_raw_clientID h) m' db = Inr (dc, db1) \<and> P db1"
  shows "\<exists>s1 b st db1. readFromNetwork h c (sent_bytes (h_env h) stm m) s = Inr s1
    \<and> sv_sending s1 = sv_sending s @ [\<lparr>so_buf = b, so_sock = c\<rparr>]
    \<and> b = sent_bytes (h_env h) (snd (ConnectPackage st)) (fst (ConnectPackage st))
    \<and> sendable (h_env h) (snd (ConnectPackage st), fst (ConnectPackage st))
    \<and> P db1 \<and> serving h c (Some dc) db1 s1"
proof -
  from assms(1) obtain cl where cl: "map_find c (sv_heap s) = Some cl" "idle (cl_decoder cl)"
      and s: "\<not> sv_dbConnected s" "sv_db s = db" "session_ok (h_env h) (sv_statics s)"
    by (auto simp: serving_def)
  obtain st dec m' where r: "readFromNetwork h c (sent_bytes (h_env h) stm m) s =
      handle_message h c (cl\<lparr>cl_decoder := dec\<rparr>) m'
        (set_client c (cl\<lparr>cl_decoder := dec\<rparr>) (s\<lparr>sv_statics := st\<rparr>))"
    and d: "delivered stm m m'" "idle dec" "same_identity (sv_statics s) st"
    using server_receives [OF assms(2) cl s(1)] by blast
  from d(1) assms(3) have m': "msg_op m' = CONNECT" "msg_machineID m' = myMachineID stm"
    by (simp_all add: delivered_def)
  from known [OF m'(2)] obtain db1 where
    g: "GetClient (h_px h) (ndebug (h_env h)) (h_raw_clientID h) m' db = Inr (dc, db1)" "P db1" by blast
  let ?s = "set_client c (cl\<lparr>cl_decoder := dec, cl_client := Some dc\<rparr>)
    ((set_client c (cl\<lparr>cl_decoder := dec\<rparr>) (s\<lparr>sv_statics := st\<rparr>))\<lparr>sv_db := db1\<rparr>)"
  note ok = session_okD(1) [OF s(3) d(3)]
  let ?b = "sent_bytes (h_env h) (snd (ConnectPackage st)) (fst (ConnectPackage st))"
  let ?s1 = "?s\<lparr>sv_statics := snd (ConnectPackage st),
    sv_sending := sv_sending s @ [\<lparr>so_buf = ?b, so_sock = c\<rparr>], sv_writeAsync := True\<rparr>"
  have "readFromNetwork h c (sent_bytes (h_env h) stm m) s = Inr ?s1"
    using m'(1) g(1) s(2) answer_sendable [OF ok, of c ?s]
    by (simp add: r handle_message_def)
  moreover have "serving h c (Some dc) db1 ?s1"
    using d(2) s(1) session_ok_sent(1) [OF s(3) d(3)] by (simp add: serving_def set_client_def clients.find_assign)
  ultimately show ?thesis
    using ok g(2) by (intro exI [of _ ?s1] exI [of _ ?b] exI [of _ st] exI [of _ db1]) simp
qed

lemma server_answers_query:
  assumes "serving h c (Some dc) db s" and "sendable (h_env h) (stm, m)" and "msg_op m = QUERY_LAST_EVENT"
    and "GetLastEventRecordID (h_px h) dc db = Inr newest"
  shows "\<exists>s1 b st. readFromNetwork h c (sent_bytes (h_env h) stm m) s = Inr s1
    \<and> sv_sending s1 = sv_sending s @ [\<lparr>so_buf = b, so_sock = c\<rparr>]
    \<and> b = sent_bytes (h_env h) (snd (ReturnLastEventPackage (word_of_int newest + 1) st))
            (fst (ReturnLastEventPackage (word_of_int newest + 1) st))
    \<and> sendable (h_env h) (snd (ReturnLastEventPackage (word_of_int newest + 1) st),
            fst (ReturnLastEventPackage (word_of_int newest + 1) st))"
proof -
  from assms(1) obtain cl where cl: "map_find c (sv_heap s) = Some cl" "idle (cl_decoder cl)"
      "cl_client cl = Some dc"
      and s: "\<not> sv_dbConnected s" "sv_db s = db" "session_ok (h_env h) (sv_statics s)"
    by (auto simp: serving_def)
  obtain st dec m' where r: "readFromNetwork h c (sent_bytes (h_env h) stm m) s =
      handle_message h c (cl\<lparr>cl_decoder := dec\<rparr>) m'
        (set_client c (cl\<lparr>cl_decoder := dec\<rparr>) (s\<lparr>sv_statics := st\<rparr>))"
    and d: "delivered stm m m'" "same_identity (sv_statics s) st"
    using server_receives [OF assms(2) cl(1,2) s(1)] by blast
  from d(1) assms(3) have m': "msg_op m' = QUERY_LAST_EVENT"
    by (simp add: delivered_def)
  let ?lid = "word_of_int newest :: u32"
  let ?r = "ReturnLastEventPackage (?lid + 1) st"
  let ?s = "set_client c (cl\<lparr>cl_decoder := dec, cl_lid := ?lid\<rparr>)
    (set_client c (cl\<lparr>cl_decoder := dec\<rparr>) (s\<lparr>sv_statics := st\<rparr>))"
  note ok = session_okD(3) [OF s(3) d(2), of "?lid + 1"]
  let ?s1 = "?s\<lparr>sv_statics := snd ?r, sv_sending := sv_sending s @
    [\<lparr>so_buf = sent_bytes (h_env h) (snd ?r) (fst ?r), so_sock = c\<rparr>], sv_writeAsync := True\<rparr>"
  have "readFromNetwork h c (sent_bytes (h_env h) stm m) s = Inr ?s1"
    using m' cl(3) assms(4) s(2) answer_sendable [OF ok, of c ?s]
    by (simp add: r handle_message_def deref_dbclient_def Let_def)
  then show ?thesis
    using ok by (intro exI [of _ ?s1] exI [of _ "sent_bytes (h_env h) (snd ?r) (fst ?r)"] exI [of _ st]) simp
qed

text \<open>The client's part: what it sends on connecting and on the answer, and what it does with the
  answer to its query.\<close>

lemma client_connects:
  assumes "session_ok en (ds_statics d)"
  shows "uvNetworkConnectCB en 0 d = Inr (d\<lparr>
    ds_out := ds_out d @ [sent_bytes en (snd (ConnectPackage (ds_statics d))) (fst (ConnectPackage (ds_statics d)))],
    ds_statics := snd (ConnectPackage (ds_statics d))\<rparr>)"
  using send_package_sendable [OF session_okD(1) [OF assms same_identity_refl]]
  by (simp add: uvNetworkConnectCB_def)

lemma client_queries:
  assumes "sendable en (stm, m)" and "msg_op m = CONNECT" and "idle (ds_decoder d)"
    and "session_ok en (ds_statics d)" and "ds_services d = [f]"
  shows "\<exists>d' st. uvNetworkReadCB en (sent_bytes en stm m) d = Inr d'
    \<and> ds_out d' = ds_out d @ [sent_bytes en (snd (QueryLastEventPackage st)) (fst (QueryLastEventPackage st))]
    \<and> sendable en (snd (QueryLastEventPackage st), fst (QueryLastEventPackage st))
    \<and> idle (ds_decoder d') \<and> ds_services d' = [f]"
proof -
  obtain st dec m2 where r: "uvNetworkReadCB en (sent_bytes en stm m) d =
        NetworkStartFinished en (d\<lparr>ds_decoder := dec, ds_statics := st\<rparr>)"
      and st: "idle dec" "same_identity (ds_statics d) st"
    using client_receives [OF assms(1,3)] by (auto simp: assms(2))
  note ok = session_okD(2) [OF assms(4) st(2)]
  let ?b = "sent_bytes en (snd (QueryLastEventPackage st)) (fst (QueryLastEventPackage st))"
  let ?d = "d\<lparr>ds_decoder := dec, ds_statics := snd (QueryLastEventPackage st), ds_out := ds_out d @ [?b]\<rparr>"
  have "uvNetworkReadCB en (sent_bytes en stm m) d = Inr ?d"
    using r assms(5) send_package_sendable [OF ok]
    by (simp add: NetworkStartFinished_def service_NetworkStartFinished_def)
  then show ?thesis using st(1) ok assms(5) by (intro exI [of _ ?d] exI [of _ st]) simp
qed

lemma client_resumes:
  assumes "sendable en (stm, m)" and "msg_op m = RETURN_LAST_EVENT" and "msg_body m = Return_body lid"
    and "idle (ds_decoder d)" and "ds_services d = [f]" and "fw_lastEventIDUploaded f = 0"
    and "fw_thread f = Suspended"
  shows "\<exists>d'. uvNetworkReadCB en (sent_bytes en stm m) d = Inr d'
    \<and> ds_services d' = [f\<lparr>fw_lastEventIDUploaded := lid, fw_thread := Running\<rparr>]"
proof -
  obtain st dec m' where r: "uvNetworkReadCB en (sent_bytes en stm m) d =
        Inr (SubmitProtobufPackage m' (d\<lparr>ds_decoder := dec, ds_statics := st\<rparr>))"
      and "delivered stm m m'"
    using client_receives [OF assms(1,4)] by (auto simp: assms(2))
  then have "GetProtobufPackage m' f = f\<lparr>fw_lastEventIDUploaded := lid, fw_thread := Running\<rparr>"
    using assms(2,3,6,7) by (simp add: GetProtobufPackage_def delivered_def resume_thread_def)
  with r assms(5) show ?thesis by (simp add: SubmitProtobufPackage_def)
qed

text \<open>C5. A handshake between a client with one service and a server that knows the machine, every
  step on the bytes the step before has sent: connect, its answer, the query, and the answer to
  that. It ends with the service's thread resumed and reading from the record after the last one
  the server has stored.\<close>

theorem handshake_resumes:
  assumes "ds_services d = [f]" and "fw_lastEventIDUploaded f = 0" and "fw_thread f = Suspended"
    and "idle (ds_decoder d)"
    and "session_ok (h_env h) (ds_statics d)"
    and "map_find c (sv_heap s) = Some cl" and "idle (cl_decoder cl)" and "\<not> sv_dbConnected s"
    and "session_ok (h_env h) (sv_statics s)"
    and "\<And>m. msg_machineID m = myMachineID (ds_statics d) \<Longrightarrow>
      \<exists>db1. GetClient (h_px h) (ndebug (h_env h)) (h_raw_clientID h) m (sv_db s) = Inr (dc, db1)
        \<and> GetLastEventRecordID (h_px h) dc db1 = Inr newest"
  shows "\<exists>d1 b1 s1 b2 d2 b3 s2 b4 d3.
    uvNetworkConnectCB (h_env h) 0 d = Inr d1 \<and> ds_out d1 = ds_out d @ [b1]
    \<and> readFromNetwork h c b1 s = Inr s1 \<and> sv_sending s1 = sv_sending s @ [\<lparr>so_buf = b2, so_sock = c\<rparr>]
    \<and> uvNetworkReadCB (h_env h) b2 d1 = Inr d2 \<and> ds_out d2 = ds_out d1 @ [b3]
    \<and> readFromNetwork h c b3 s1 = Inr s2 \<and> sv_sending s2 = sv_sending s1 @ [\<lparr>so_buf = b4, so_sock = c\<rparr>]
    \<and> uvNetworkReadCB (h_env h) b4 d2 = Inr d3
    \<and> ds_services d3 = [f\<lparr>fw_lastEventIDUploaded := word_of_int newest + 1, fw_thread := Running\<rparr>]"
proof -
  let ?en = "h_env h" and ?c = "ConnectPackage (ds_statics d)"
  let ?b1 = "sent_bytes ?en (snd ?c) (fst ?c)"
  let ?d1 = "d\<lparr>ds_out := ds_out d @ [?b1], ds_statics := snd ?c\<rparr>"
  note d1 = client_connects [OF assms(5)]
  have serving: "serving h c None (sv_db s) s"
    using assms(6-9) by (auto simp: serving_def)
  have op: "msg_op (fst ?c) = CONNECT" "myMachineID (snd ?c) = myMachineID (ds_statics d)"
    by (simp_all add: constructor_defs)
  obtain s1 b2 st1 db1 where s1: "readFromNetwork h c ?b1 s = Inr s1"
      "sv_sending s1 = sv_sending s @ [\<lparr>so_buf = b2, so_sock = c\<rparr>]"
      and b2: "b2 = sent_bytes ?en (snd (ConnectPackage st1)) (fst (ConnectPackage st1))"
        "sendable ?en (snd (ConnectPackage st1), fst (ConnectPackage st1))"
      and db1: "GetLastEventRecordID (h_px h) dc db1 = Inr newest" "serving h c (Some dc) db1 s1"
    using server_connects [OF serving session_okD(1) [OF assms(5) same_identity_refl] op(1), of dc
        "\<lambda>db1. GetLastEventRecordID (h_px h) dc db1 = Inr newest"] assms(10) op(2) by auto
  have "session_ok ?en (ds_statics ?d1)"
    using session_ok_sent(1) [OF assms(5) same_identity_refl] by simp
  then obtain d2 st2 where d2: "uvNetworkReadCB ?en b2 ?d1 = Inr d2" "ds_out d2 = ds_out ?d1 @
        [sent_bytes ?en (snd (QueryLastEventPackage st2)) (fst (QueryLastEventPackage st2))]"
      "sendable ?en (snd (QueryLastEventPackage st2), fst (QueryLastEventPackage st2))"
      "idle (ds_decoder d2)" "ds_services d2 = [f]"
    using client_queries [OF b2(2), of ?d1 f] assms(1,4) by (auto simp: b2(1) constructor_defs)
  have "msg_op (fst (QueryLastEventPackage st2)) = QUERY_LAST_EVENT" by (simp add: constructor_defs)
  from server_answers_query [OF db1(2) d2(3) this db1(1)] obtain s2 b4 st3 where
    s2: "readFromNetwork h c (sent_bytes ?en (snd (QueryLastEventPackage st2))
          (fst (QueryLastEventPackage st2))) s1 = Inr s2"
      "sv_sending s2 = sv_sending s1 @ [\<lparr>so_buf = b4, so_sock = c\<rparr>]"
    and b4: "b4 = sent_bytes ?en (snd (ReturnLastEventPackage (word_of_int newest + 1) st3))
        (fst (ReturnLastEventPackage (word_of_int newest + 1) st3))"
      "sendable ?en (snd (ReturnLastEventPackage (word_of_int newest + 1) st3),
        fst (ReturnLastEventPackage (word_of_int newest + 1) st3))" by blast
  obtain d3 where "uvNetworkReadCB ?en b4 d2 = Inr d3"
      "ds_services d3 = [f\<lparr>fw_lastEventIDUploaded := word_of_int newest + 1, fw_thread := Running\<rparr>]"
    using client_resumes [OF b4(2) _ _ d2(4,5) assms(2,3)] by (auto simp: b4(1) constructor_defs)
  moreover have "ds_out ?d1 = ds_out d @ [?b1]" by simp
  ultimately show ?thesis using d1 s1 d2(1,2) s2 by blast
qed

section \<open>Batches\<close>

text \<open>C38. When the client has no event left it sends a log package without events, and the server that
  reads it follows a null pointer: it takes the first of the events.\<close>

theorem empty_package_stops_server:
  assumes "woken (ds_services d ! i)" and "ch_env ch = h_env h"
    and "sendable (h_env h) (snd (LogPackage False (ds_statics d)), fst (LogPackage False (ds_statics d)))"
    and "map_find c (sv_heap s) = Some cl" and "idle (cl_decoder cl)" and "\<not> sv_dbConnected s"
  shows "\<exists>d' b. forward_round ch (Next_failed ERROR_NO_MORE_ITEMS) i d = Inr d'
    \<and> ds_out d' = ds_out d @ [b] \<and> readFromNetwork h c b s = Inl (Undefined Null_deref)"
proof -
  let ?lp = "LogPackage False (ds_statics d)"
  let ?b = "sent_bytes (h_env h) (snd ?lp) (fst ?lp)"
  obtain st dec m' where r: "readFromNetwork h c ?b s = handle_message h c (cl\<lparr>cl_decoder := dec\<rparr>) m'
      (set_client c (cl\<lparr>cl_decoder := dec\<rparr>) (s\<lparr>sv_statics := st\<rparr>))"
    and "delivered (snd ?lp) (fst ?lp) m'"
    using server_receives [OF assms(3-6)] by blast
  then have "msg_op m' = UPDATE_LOG" "GetEvents m' = []"
    by (simp_all add: delivered_def GetEvents_def constructor_defs)
  with r have "readFromNetwork h c ?b s = Inl (Undefined Null_deref)"
    by (simp add: handle_message_def)
  moreover have enum: "EnumerateResults ch (Next_failed ERROR_NO_MORE_ITEMS)
      (fw_lastEventIDUploaded (ds_services d ! i)) [] (fw_metadata (ds_services d ! i))
      = Inr (259, [], fw_metadata (ds_services d ! i))"
    by (simp add: EnumerateResults_def ERROR_NO_MORE_ITEMS_def)
  moreover have "AddLogEvents [] (fst ?lp) = fst ?lp"
    by (simp add: AddLogEvents_def constructor_defs)
  ultimately show ?thesis
    using forward_round_sends [OF assms(1) enum] assms(2,3) by (simp add: eventsPerSend_def)
qed

text \<open>C16. A batch that asks for acceptance, from the bytes the client sends through the worker to the
  client that reads the acceptance. Whatever the database made of the batch, the client resumes
  at one more than the number that lies behind the last event in the server's memory, not one
  more than the last event of the batch.\<close>

theorem accepted_batch_resumes:
  assumes "ds_services d = [f]" and "idle (ds_decoder d)"
    and "sendable (h_env h) (stm, lp)" and "msg_op lp = UPDATE_LOG" and "msg_body lp = Log_body es True"
    and "es \<noteq> []"
    and "map_find c (sv_heap s) = Some cl" and "idle (cl_decoder cl)" and "cl_client cl = Some dc"
    and "\<not> sv_dbConnected s" and "sv_work s = []" and "session_ok (h_env h) (sv_statics s)"
    and "h_past_end h = Some rid"
    and "DB_InsertWindowsEvents (h_px h) dc (map received_event es) (sv_db s) = Inr (n, db)"
  shows "\<exists>s1 s2 b d'. readFromNetwork h c (sent_bytes (h_env h) stm lp) s = Inr s1
    \<and> run_event h (Work_runs 0) s1 = Inr s2 \<and> sv_db s2 = db
    \<and> sv_sending s2 = sv_sending s @ [\<lparr>so_buf = b, so_sock = c\<rparr>]
    \<and> uvNetworkReadCB (h_env h) b d = Inr d'
    \<and> ds_services d' = [f\<lparr>fw_lastEventIDUploaded := rid + 1, fw_upload := True\<rparr>]"
proof -
  obtain st dec m' where r: "readFromNetwork h c (sent_bytes (h_env h) stm lp) s =
      handle_message h c (cl\<lparr>cl_decoder := dec\<rparr>) m'
        (set_client c (cl\<lparr>cl_decoder := dec\<rparr>) (s\<lparr>sv_statics := st\<rparr>))"
    and dl: "delivered stm lp m'" "same_identity (sv_statics s) st"
    using server_receives [OF assms(3,7,8,10)] by blast
  have m': "msg_op m' = UPDATE_LOG" "GetEvents m' = map received_event es" "NeedAccept m'"
    using dl(1) assms(4,5) by (simp_all add: delivered_def GetEvents_def NeedAccept_def)
  let ?s1 = "set_client c (cl\<lparr>cl_decoder := dec, cl_lid := rid\<rparr>)
    ((set_client c (cl\<lparr>cl_decoder := dec\<rparr>) (s\<lparr>sv_statics := st\<rparr>))\<lparr>sv_work := [(c, m')]\<rparr>)"
  have s1: "readFromNetwork h c (sent_bytes (h_env h) stm lp) s = Inr ?s1"
    using m' assms(6,11,13) by (simp add: r handle_message_def)
  let ?a = "AcceptLastEventPackage (rid + 1) st"
  let ?b = "sent_bytes (h_env h) (snd ?a) (fst ?a)"
  note ok = session_okD(4) [OF assms(12) dl(2), of "rid + 1"]
  let ?s2 = "?s1\<lparr>sv_work := [], sv_db := db, sv_statics := snd ?a,
    sv_sending := sv_sending s @ [\<lparr>so_buf = ?b, so_sock = c\<rparr>], sv_writeAsync := True\<rparr>"
  have s2: "run_event h (Work_runs 0) ?s1 = Inr ?s2"
    using m' assms(9,14) answer_sendable [OF ok, of c "?s1\<lparr>sv_work := [], sv_db := db\<rparr>"]
    by (simp add: run_work_def deref_client_def deref_dbclient_def set_client_def clients.find_assign Let_def)
  obtain st4 dec4 m4 where d': "uvNetworkReadCB (h_env h) ?b d =
        Inr (SubmitProtobufPackage m4 (d\<lparr>ds_decoder := dec4, ds_statics := st4\<rparr>))"
      and m4: "delivered (snd ?a) (fst ?a) m4"
    using client_receives [OF ok assms(2)] by (auto simp: constructor_defs)
  have "GetProtobufPackage m4 f = f\<lparr>fw_lastEventIDUploaded := rid + 1, fw_upload := True\<rparr>"
    using m4 by (simp add: GetProtobufPackage_def delivered_def constructor_defs)
  then have "ds_services (SubmitProtobufPackage m4 (d\<lparr>ds_decoder := dec4, ds_statics := st4\<rparr>))
      = [f\<lparr>fw_lastEventIDUploaded := rid + 1, fw_upload := True\<rparr>]"
    using assms(1) by (simp add: SubmitProtobufPackage_def)
  moreover have "sv_db ?s2 = db" "sv_sending ?s2 = sv_sending s @ [\<lparr>so_buf = ?b, so_sock = c\<rparr>]"
    by simp_all
  ultimately show ?thesis using s1 s2 d' by blast
qed

section \<open>The sample client and the sample server\<close>

lemma sample_client_fields:
  "ds_services sample_dispatcher = [EventForwardHandler]" "ds_out sample_dispatcher = []"
  "ds_statics sample_dispatcher = sample_statics" "ds_decoder sample_dispatcher = new_decoder"
  by (simp_all add: sample_dispatcher_def start_client_def AddServiceHandler_def HandlerDispatcher_def)

lemma sample_host_fields:
  "h_env (sample_host nd raw) = sample_env nd Unix" "h_px (sample_host nd raw) = sample_px"
  "h_past_end (sample_host nd raw) = Some 0"
  by (simp_all add: sample_host_def)

lemma sample_session: "session_ok (h_env (sample_host nd raw)) sample_statics"
  by (simp add: sample_host_fields sample_session_ok)

lemma one_client_idle: "\<not> sv_dbConnected one_client" "sv_work one_client = []" "sv_sending one_client = []"
  by (simp_all add: one_client_def sample_server_def new_server_def)

text \<open>The machine of the sample client is known, and has stored a record with id 31.\<close>

definition known_machine :: "sample_tables server" where
  "known_machine = one_client\<lparr>sv_db := sample_database\<lparr>
     db_clients := [(''m1'', sample_dbclient)],
     db_data := \<lparr>tab_clients = [], tab_events = [[''1'', ''1'', ''info'', ''t'', ''s'', ''m'', ''31'']]\<rparr>\<rparr>\<rparr>"

lemma known_machine_fields:
  "map_find 0 (sv_heap known_machine) = Some (new_client\<lparr>cl_client := Some sample_dbclient\<rparr>)"
  "sv_statics known_machine = sample_statics" "\<not> sv_dbConnected known_machine"
  by (simp_all add: known_machine_def one_client_fields one_client_idle)

lemma known_machine_last:
  assumes "msg_machineID m = ''m1''"
  shows "\<exists>db1. GetClient (h_px (sample_host nd raw)) nd' cid m (sv_db known_machine) = Inr (sample_dbclient, db1)
    \<and> GetLastEventRecordID (h_px (sample_host nd raw)) sample_dbclient db1 = Inr 31"
proof -
  let ?db = "sv_db known_machine"
  have live: "db_conn ?db = Conn_live True"
    "map_find ''m1'' (db_clients ?db) = Some sample_dbclient"
    by (simp_all add: known_machine_def map_find_def sample_database_def with_statements_def)
  have exec: "exec_sql sample_px sql tx = Inr ([], tx)" if "take 6 sql = ''UPDATE''" for sql tx
  proof -
    have "sql \<noteq> ''SELECT * from \"Client\"''" "take 6 sql \<noteq> ''select''" using that by auto
    then show ?thesis by (simp add: exec_sql_def sample_px_def sample_exec_def)
  qed
  have update: "exec_sql sample_px (update_version_sql v k) tx = Inr ([], tx)"
    "exec_sql sample_px (update_last_connect_sql k) tx = Inr ([], tx)" for v k tx
    by (rule exec, simp add: update_version_sql_def, rule exec, simp add: update_last_connect_sql_def)
  have commit: "commit_work sample_px ?db (db_data ?db) = Inr ?db"
    by (simp add: commit_work_def sample_px_def)
  have "GetClient (h_px (sample_host nd raw)) nd' cid m ?db = Inr (sample_dbclient, ?db)"
    using assms live(2) begin_work_live [OF live(1)] update commit
    by (simp add: GetClient_def sample_host_fields Let_def)
  moreover have "GetLastEventRecordID sample_px sample_dbclient ?db = Inr (Max (insert 0 (set [31])))"
    by (rule GetLastEventRecordID_rows [where ts = "[''31'']"])
      (simp_all add: known_machine_def sample_database_def sample_px_def sample_exec_def
        last_event_sql_def is_digit_def sample_dbclient_def)
  ultimately show ?thesis by (simp add: sample_host_fields)
qed

theorem handshake_resumes_witness:
  "\<exists>d1 b1 s1 b2 d2 b3 s2 b4 d3.
    uvNetworkConnectCB (h_env (sample_host True None)) 0 sample_dispatcher = Inr d1
    \<and> ds_out d1 = ds_out sample_dispatcher @ [b1]
    \<and> readFromNetwork (sample_host True None) 0 b1 known_machine = Inr s1
    \<and> sv_sending s1 = sv_sending known_machine @ [\<lparr>so_buf = b2, so_sock = 0\<rparr>]
    \<and> uvNetworkReadCB (h_env (sample_host True None)) b2 d1 = Inr d2 \<and> ds_out d2 = ds_out d1 @ [b3]
    \<and> readFromNetwork (sample_host True None) 0 b3 s1 = Inr s2
    \<and> sv_sending s2 = sv_sending s1 @ [\<lparr>so_buf = b4, so_sock = 0\<rparr>]
    \<and> uvNetworkReadCB (h_env (sample_host True None)) b4 d2 = Inr d3
    \<and> ds_services d3 = [EventForwardHandler\<lparr>fw_lastEventIDUploaded := word_of_int 31 + 1, fw_thread := Running\<rparr>]"
proof (rule handshake_resumes [OF sample_client_fields(1) _ _ _ _ known_machine_fields(1) _ known_machine_fields(3)])
  show "\<exists>db1. GetClient (h_px (sample_host True None)) (ndebug (h_env (sample_host True None)))
        (h_raw_clientID (sample_host True None)) m (sv_db known_machine) = Inr (sample_dbclient, db1)
      \<and> GetLastEventRecordID (h_px (sample_host True None)) sample_dbclient db1 = Inr 31"
    if "msg_machineID m = myMachineID (ds_statics sample_dispatcher)" for m
    using that by (intro known_machine_last) (simp add: sample_client_fields sample_statics_def)
qed (simp_all add: sample_client_fields known_machine_fields sample_session new_client_def EventForwardHandler_def)

theorem empty_package_stops_server_witness:
  "\<exists>d' b. forward_round sample_client_host (Next_failed ERROR_NO_MORE_ITEMS) 0 sample_dispatcher = Inr d'
    \<and> ds_out d' = [b]
    \<and> readFromNetwork (sample_host False None\<lparr>h_env := sample_env False Windows\<rparr>) 0 b one_client
        = Inl (Undefined Null_deref)"
proof -
  have "sendable (sample_env False Windows)
      (snd (LogPackage False sample_statics), fst (LogPackage False sample_statics))"
    using sample_log_sendable [of "[]" False Windows False] by (simp add: AddLogEvents_def constructor_defs)
  then show ?thesis
    using empty_package_stops_server [of sample_dispatcher 0 sample_client_host
        "sample_host False None\<lparr>h_env := sample_env False Windows\<rparr>" 0 one_client
        "new_client\<lparr>cl_client := Some sample_dbclient\<rparr>"]
    by (simp add: sample_client_fields one_client_fields one_client_idle new_client_def
        sample_client_host_def EventForwardHandler_def woken_def)
qed

definition sample_batch :: message where
  "sample_batch = AddLogEvents [Event_number ''<e/>'' ''f'' ''p'' ''t'' 3 9]
     (fst (LogPackage True sample_statics))"

lemma sample_batch_fields:
  "msg_op sample_batch = UPDATE_LOG"
  "msg_body sample_batch = Log_body [Event_number ''<e/>'' ''f'' ''p'' ''t'' 3 9] True"
  by (simp_all add: sample_batch_def AddLogEvents_def constructor_defs)

lemma sample_batch_sendable:
  "sendable (sample_env nd pf) (snd (LogPackage True sample_statics), sample_batch)"
  unfolding sample_batch_def by (rule sample_log_sendable) (simp_all add: Event_number_def)

theorem accepted_batch_resumes_witness:
  "\<exists>s1 s2 b d' f. readFromNetwork (sample_host True None) 0
      (sent_bytes (sample_env True Unix) (snd (LogPackage True sample_statics)) sample_batch) one_client = Inr s1
    \<and> run_event (sample_host True None) (Work_runs 0) s1 = Inr s2
    \<and> sv_sending s2 = [\<lparr>so_buf = b, so_sock = 0\<rparr>]
    \<and> uvNetworkReadCB (sample_env True Unix) b sample_dispatcher = Inr d'
    \<and> ds_services d' = [f] \<and> fw_lastEventIDUploaded f = 1"
proof -
  let ?h = "sample_host True None"
  let ?es = "[Event_number ''<e/>'' ''f'' ''p'' ''t'' 3 9]"
  obtain db where db: "DB_InsertWindowsEvents sample_px sample_dbclient (map received_event ?es)
      sample_database = Inr (0, db)"
  proof -
    have live: "begin_work sample_database = Inr (db_data sample_database)"
      by (rule begin_work_live) (simp add: sample_database_def with_statements_def)
    have "insert_event sample_px s k tx e = Inl f \<Longrightarrow> f = Uncaught Sql_error" for s k tx e f
      by (auto simp: insert_event_def exec_prepared_def sample_px_def raise_exn_def bind_out_Inl_iff Let_def
          split: option.splits sum.splits if_splits elim!: sample_insert.elims)
    then show thesis
      using that by (cases "insert_event sample_px sample_database (dc_clientID sample_dbclient)
          (db_data sample_database) (received_event (hd ?es))")
        (auto simp: InsertWindowsEvents_eq [OF live] commit_work_def sample_px_def)
  qed
  show ?thesis
    using accepted_batch_resumes [of sample_dispatcher EventForwardHandler ?h
        "snd (LogPackage True sample_statics)" sample_batch ?es 0 one_client
        "new_client\<lparr>cl_client := Some sample_dbclient\<rparr>" sample_dbclient 0 0 db]
      db sample_batch_sendable [of True Unix] sample_session [of True None]
    by (fastforce simp: sample_client_fields one_client_fields one_client_idle new_client_def
        sample_batch_fields sample_host_fields)
qed

theorem received_messages_typed_witness:
  "\<exists>s m. server_reach (sample_host True (Some sample_dbclient)) sample_server s \<and> sv_work s = [(0, m)]
    \<and> (\<exists>es ac. msg_body m = Log_body es ac)"
proof -
  let ?h = "sample_host True (Some sample_dbclient)"
  let ?b = "sent_bytes (sample_env True Unix) (snd (LogPackage True sample_statics)) sample_batch"
  obtain s where s: "run_event ?h (New_connection 0 True) sample_server = Inr s"
    by (simp add: uvConnectCB_def AddClient_def sample_host_def sample_env_def Let_def)
  then have f: "map_find 0 (sv_heap s) = Some new_client" "\<not> sv_dbConnected s" "sv_work s = []" "sv_closing s = []"
    by (auto simp: uvConnectCB_def AddClient_def sample_host_def sample_env_def Let_def
        sample_server_def new_server_def set_client_def clients.find_assign)
  obtain s2 m where s2: "readFromNetwork ?h 0 ?b s = Inr s2" "sv_work s2 = [(0, m)]"
    using server_receives [of ?h "snd (LogPackage True sample_statics)" sample_batch 0 s new_client]
      sample_batch_sendable [of True Unix] f
    by (fastforce simp: sample_host_fields new_client_def handle_message_def delivered_def sample_batch_fields
        GetEvents_def)
  have ne: "?b \<noteq> []" by (rule sent_bytes_nonempty [OF sample_batch_sendable])
  have "run_event ?h (Readable 0 (Read_bytes ?b) False) s = Inr s2"
    using ne f s2 by (simp add: uvReadCB_def deref_client_def deref_dbclient_def sample_host_def new_client_def)
  then have "server_step ?h s s2" by (intro step [of "Readable 0 (Read_bytes ?b) False"]) (use f in \<open>simp_all add: clients.find_vacant\<close>)
  moreover have "server_step ?h sample_server s" by (rule step [OF _ s]) simp
  ultimately have reach: "server_reach ?h sample_server s2"
    by (blast intro: server_reach.intros)
  from received_messages_typed [OF reach [unfolded sample_server_def]] s2(2)
  show ?thesis using reach s2(2) by auto
qed

end
