(* ===== verification/Server_Config.thy ===== *)
theory Server_Config
  imports Prelude
begin

text \<open>
  \<open>ReadConfig\<close> of \<open>ClientServiceServer/config.cpp\<close>: reading the file, taking the settings out of
  the JSON document, and the text of the database connection. The file system and the JSON
  library are parameters.
\<close>

section \<open>State and inputs\<close>

record config =
  cfg_host :: string
  cfg_password :: string
  cfg_username :: string
  cfg_connectionString :: string
  cfg_port :: u32

definition DEFAULT_DB_NAME :: string where
  "DEFAULT_DB_NAME = ''ClientMonitorService''"

text \<open>
  The file as the code sees it: the size \<open>stat\<close> reports or a failure, the status of \<open>read\<close>, and
  the bytes that are in the buffer afterwards.
\<close>

record config_file =
  cf_stat :: "nat option"
  cf_read_status :: int
  cf_contents :: string

text \<open>
  What the code observes of a JSON value: it is a string, it is an \<open>int\<close>, or neither. \<open>'doc\<close> is
  the parsed document; \<open>jl_parse\<close> is \<open>Parse\<close> with \<open>HasParseError\<close>, and \<open>jl_member\<close> is the
  subscript operator, which the library guards by an assertion of its own.
\<close>

datatype json_value = Json_string string | Json_int int | Json_other

record 'doc json_library =
  jl_parse :: "string \<Rightarrow> 'doc option"
  jl_member :: "'doc \<Rightarrow> string \<Rightarrow> json_value outcome"

section \<open>Operations\<close>

text \<open>
  Filling the buffer. On Unix a short read, like a file that cannot be opened, ends the process;
  elsewhere an unreadable file gives an empty buffer.
\<close>

definition read_config_file :: "platform \<Rightarrow> config_file \<Rightarrow> string outcome" where
  "read_config_file pf f =
     (case pf of
        Unix \<Rightarrow>
          (case cf_stat f of
             None \<Rightarrow> Inl (Exit 1)
           | Some s \<Rightarrow>
               if cf_read_status f \<noteq> int s then Inl (Exit 1) else Inr (take s (cf_contents f)))
      | Windows \<Rightarrow> Inr (case cf_stat f of None \<Rightarrow> [] | Some s \<Rightarrow> take s (cf_contents f)))"

text \<open>\<open>BUILD_JSON_STRING_STATEMENT\<close>: the C string of a string member, or the default.\<close>

definition json_string_setting :: "'doc json_library \<Rightarrow> 'doc \<Rightarrow> string \<Rightarrow> string \<Rightarrow> string outcome" where
  "json_string_setting lib doc path defaultValue =
     bind_out (jl_member lib doc path) (\<lambda>v.
       Inr (case v of Json_string s \<Rightarrow> c_str s | _ \<Rightarrow> defaultValue))"

text \<open>The port is an \<open>unsigned int\<close>, so a negative number is a large one when it is compared.\<close>

definition port_setting :: "json_value \<Rightarrow> u32" where
  "port_setting v =
     (case v of
        Json_int i \<Rightarrow>
          (let p = word_of_int i :: u32 in if unat p > 65535 \<or> unat p \<le> 0 then 5432 else p)
      | _ \<Rightarrow> 5432)"

definition connection_string :: "string \<Rightarrow> string \<Rightarrow> string \<Rightarrow> u32 \<Rightarrow> string" where
  "connection_string username password host port =
     ''postgresql://'' @ username @ '':'' @ password @ ''@'' @ host @ '':'' @ dec_nat (unat port)
     @ ''/'' @ DEFAULT_DB_NAME @ ''?application_name=ClientServiceServer''"

definition ReadConfig :: "platform \<Rightarrow> 'doc json_library \<Rightarrow> config_file \<Rightarrow> config outcome" where
  "ReadConfig pf lib f =
     bind_out (read_config_file pf f) (\<lambda>buffer.
     case jl_parse lib (c_str buffer) of
       None \<Rightarrow> Inl (Exit 1)
     | Some doc \<Rightarrow>
         bind_out (json_string_setting lib doc ''host'' ''localhost'') (\<lambda>host.
         bind_out (json_string_setting lib doc ''username'' ''postgres'') (\<lambda>username.
         bind_out (json_string_setting lib doc ''password'' []) (\<lambda>password.
         bind_out (jl_member lib doc ''port'') (\<lambda>v.
         let port = port_setting v in
         Inr \<lparr>cfg_host = host, cfg_password = password, cfg_username = username,
              cfg_connectionString = c_str (connection_string username password host port),
              cfg_port = port\<rparr>)))))"

section \<open>Facts\<close>

lemma port_setting_range: "1 \<le> unat (port_setting v) \<and> unat (port_setting v) \<le> 65535"
  by (cases v) (simp_all add: port_setting_def Let_def not_less)

lemma json_string_setting_no_nul:
  assumes "json_string_setting lib doc path d = Inr s" and "CHR 0x00 \<notin> set d"
  shows "CHR 0x00 \<notin> set s"
proof -
  from assms(1) obtain v where "s = (case v of Json_string s \<Rightarrow> c_str s | _ \<Rightarrow> d)"
    by (auto simp: json_string_setting_def bind_out_Inr_iff)
  with assms(2) show ?thesis
    by (cases v) (auto simp: c_str_def dest: set_takeWhileD)
qed

lemma is_digit_not_nul: "is_digit c \<Longrightarrow> c \<noteq> CHR 0x00"
  by (auto simp: is_digit_def)

lemma connection_string_no_nul:
  assumes "CHR 0x00 \<notin> set u" "CHR 0x00 \<notin> set p" "CHR 0x00 \<notin> set h"
  shows "CHR 0x00 \<notin> set (connection_string u p h port)"
  using assms is_digit_dec_nat [of "unat port"]
  by (auto simp: connection_string_def DEFAULT_DB_NAME_def list_all_iff dest: is_digit_not_nul)

lemma ReadConfig_cases:
  assumes "ReadConfig pf lib f = Inr c"
  obtains buffer doc v where "read_config_file pf f = Inr buffer"
    and "jl_parse lib (c_str buffer) = Some doc"
    and "json_string_setting lib doc ''host'' ''localhost'' = Inr (cfg_host c)"
    and "json_string_setting lib doc ''username'' ''postgres'' = Inr (cfg_username c)"
    and "json_string_setting lib doc ''password'' [] = Inr (cfg_password c)"
    and "jl_member lib doc ''port'' = Inr v" and "cfg_port c = port_setting v"
    and "cfg_connectionString c =
      c_str (connection_string (cfg_username c) (cfg_password c) (cfg_host c) (cfg_port c))"
  using assms
  by (auto simp: ReadConfig_def bind_out_Inr_iff Let_def split: option.splits)

section \<open>Properties\<close>

text \<open>C37. Whatever the file says, a configuration that is returned has a port between 1 and 65535,
  and its connection string is the complete URL of its own user, password, host and port: nothing
  of it is cut off at a NUL.\<close>

theorem ReadConfig_wellformed:
  assumes "ReadConfig pf lib f = Inr c"
  shows "1 \<le> unat (cfg_port c) \<and> unat (cfg_port c) \<le> 65535
    \<and> cfg_connectionString c =
        connection_string (cfg_username c) (cfg_password c) (cfg_host c) (cfg_port c)"
proof (rule ReadConfig_cases [OF assms])
  fix buffer doc v
  assume s: "json_string_setting lib doc ''host'' ''localhost'' = Inr (cfg_host c)"
      "json_string_setting lib doc ''username'' ''postgres'' = Inr (cfg_username c)"
      "json_string_setting lib doc ''password'' [] = Inr (cfg_password c)"
    and port: "cfg_port c = port_setting v"
    and con: "cfg_connectionString c =
      c_str (connection_string (cfg_username c) (cfg_password c) (cfg_host c) (cfg_port c))"
  have "CHR 0x00 \<notin> set (cfg_host c)" "CHR 0x00 \<notin> set (cfg_username c)"
    "CHR 0x00 \<notin> set (cfg_password c)"
    using json_string_setting_no_nul [OF s(1)] json_string_setting_no_nul [OF s(2)]
      json_string_setting_no_nul [OF s(3)] by auto
  then show ?thesis
    using con port port_setting_range [of v] connection_string_no_nul by (simp add: c_str_id)
qed

text \<open>A library with one document, for the witnesses: the keys of its members and their values.\<close>

definition one_document :: "bool \<Rightarrow> (string \<times> json_value) list \<Rightarrow> unit json_library" where
  "one_document ndbg ms = \<lparr>
     jl_parse = (\<lambda>s. if s = [] then None else Some ()),
     jl_member = (\<lambda>_ k. case map_of ms k of Some v \<Rightarrow> Inr v
                         | None \<Rightarrow> bind_out (c_assert ndbg False) (\<lambda>_. Inr Json_other))\<rparr>"

definition sample_file :: config_file where
  "sample_file = \<lparr>cf_stat = Some 2, cf_read_status = 2, cf_contents = ''{}''\<rparr>"

theorem ReadConfig_wellformed_witness:
  "\<exists>c. ReadConfig Unix (one_document False [(''host'', Json_string ''db''),
        (''username'', Json_string ''u''), (''password'', Json_other), (''port'', Json_int (- 1))])
        sample_file = Inr c
    \<and> cfg_connectionString c =
        connection_string (cfg_username c) (cfg_password c) (cfg_host c) (cfg_port c)"
proof -
  have "\<exists>c. ReadConfig Unix (one_document False [(''host'', Json_string ''db''),
        (''username'', Json_string ''u''), (''password'', Json_other), (''port'', Json_int (- 1))])
        sample_file = Inr c"
    by (simp add: ReadConfig_def read_config_file_def sample_file_def one_document_def c_str_def
        json_string_setting_def Let_def)
  then show ?thesis using ReadConfig_wellformed by blast
qed

text \<open>An integer port setting is used exactly when it is a valid port; every other one,
  negative numbers included, gives 5432.\<close>

theorem port_setting_functional:
  assumes "- (2 ^ 31) \<le> i" and "i < 2 ^ 31"
  shows "int (unat (port_setting (Json_int i))) = (if 1 \<le> i \<and> i \<le> 65535 then i else 5432)"
proof -
  let ?w = "word_of_int i :: u32"
  have w: "int (unat ?w) = (if 0 \<le> i then i else i + 2 ^ 32)"
  proof (cases "0 \<le> i")
    case True
    then show ?thesis using assms(2) by (simp add: uint_word_of_int mod_pos_pos_trivial)
  next
    case False
    have "i mod 2 ^ 32 = (i + 2 ^ 32) mod 2 ^ 32" by simp
    also have "\<dots> = i + 2 ^ 32" using False assms(1) by (intro mod_pos_pos_trivial) simp_all
    finally show ?thesis using False by (simp add: uint_word_of_int)
  qed
  have "unat (port_setting (Json_int i)) =
      (if unat ?w > 65535 \<or> unat ?w = 0 then 5432 else unat ?w)"
    unfolding port_setting_def Let_def json_value.case by (simp only: le_zero_eq if_distrib [of unat]) simp
  then have "int (unat (port_setting (Json_int i))) =
      (if int (unat ?w) > 65535 \<or> int (unat ?w) = 0 then 5432 else int (unat ?w))"
    by (simp only: split: if_split) linarith
  moreover have "65535 < i + 2 ^ 32" using assms(1) by simp
  ultimately show ?thesis
    unfolding w by (cases "0 \<le> i") (auto split: if_splits)
qed

theorem port_setting_functional_witness:
  "int (unat (port_setting (Json_int (- 22)))) = 5432"
  by (subst port_setting_functional) simp_all

text \<open>The parts of the connection string are not quoted: a colon in the user name cannot be
  told from the one that ends it, so different credentials give the same connection.\<close>

theorem connection_string_ambiguous:
  "connection_string (u @ '':'' @ p) q h port = connection_string u (p @ '':'' @ q) h port
   \<and> connection_string u (p @ ''@'' @ h) h' port = connection_string u p (h @ ''@'' @ h') port"
  by (simp add: connection_string_def)

end
