(* ===== verification/Machine_Id.thy ===== *)
theory Machine_Id
  imports Packet_Codec
begin

text \<open>
  The identity of a machine, from \<open>WindowsProtobufLib/utils.cpp\<close>: the UUID in the firmware's
  SMBIOS table, the product id in the registry, their digest, the computer's name and the
  version of its system, and \<open>initProtobufLibrary\<close>, which fills the static variables with
  them. Also the variant of \<open>SHA256\<close> for Windows. Firmware, registry, RPC and BCrypt calls are
  parameters; what the code does with their results, with its buffers and with its pointers
  into the firmware table is translated.
\<close>

section \<open>System calls\<close>

text \<open>
  \<open>fw_size\<close> and \<open>fw_table\<close> are the two calls of \<open>GetSystemFirmwareTable\<close>, the second with the
  bytes it stores. \<open>reg_open\<close> tells whether a key can be opened, \<open>reg_query key name size\<close> is
  \<open>RegQueryValueExA\<close>: success, the bytes it stores and the size it leaves. \<open>uuid_parse\<close> is
  \<open>UuidFromStringA\<close> (its argument may be a null pointer) and \<open>uuid_print\<close> is \<open>UuidToStringA\<close>,
  each \<open>None\<close> on failure.
\<close>

record utsname =
  uts_nodename :: string
  uts_release :: string
  uts_machine :: string
  uts_version :: string

record machine_api =
  fw_size :: u32
  fw_table :: "u32 \<times> byte list"
  reg_open :: "string \<Rightarrow> bool"
  reg_query :: "string \<Rightarrow> string \<Rightarrow> nat \<Rightarrow> bool \<times> string \<times> nat"
  uuid_parse :: "string option \<Rightarrow> byte list option"
  uuid_print :: "byte list \<Rightarrow> string option"
  computer_name :: "nat \<Rightarrow> bool \<times> string"
  uname_result :: "utsname option"
  zone_bias :: int

section \<open>Buffers\<close>

text \<open>
  A buffer is a list of cells, \<open>None\<close> being one nothing was written to. Storing bytes at its
  start, and reading one cell.
\<close>

type_synonym 'a buffer = "'a option list"

definition buf_fill :: "'a list \<Rightarrow> 'a buffer \<Rightarrow> 'a buffer outcome" where
  "buf_fill bs m =
     (if length bs \<le> length m then Inr (map Some bs @ drop (length bs) m)
      else Inl (Undefined Out_of_bounds))"

definition buf_load :: "'a buffer \<Rightarrow> nat \<Rightarrow> 'a outcome" where
  "buf_load m i =
     (if i < length m
      then (case m ! i of None \<Rightarrow> Inl (Undefined Uninit_read) | Some b \<Rightarrow> Inr b)
      else Inl (Undefined Out_of_bounds))"

primrec buf_loads :: "'a buffer \<Rightarrow> nat \<Rightarrow> nat \<Rightarrow> 'a list outcome" where
  "buf_loads m i 0 = Inr []"
| "buf_loads m i (Suc n) =
     bind_out (buf_load m i) (\<lambda>b. bind_out (buf_loads m (Suc i) n) (\<lambda>bs. Inr (b # bs)))"

text \<open>Reading a C string from the start of a buffer.\<close>

primrec buf_string :: "char buffer \<Rightarrow> string outcome" where
  "buf_string [] = Inl (Undefined Out_of_bounds)"
| "buf_string (c # cs) =
     (case c of
        None \<Rightarrow> Inl (Undefined Uninit_read)
      | Some x \<Rightarrow>
          (if x = CHR 0x00 then Inr []
           else bind_out (buf_string cs) (\<lambda>s. Inr (x # s))))"

definition load_le32 :: "byte list \<Rightarrow> u32" where
  "load_le32 bs = load_be32 (rev bs)"

lemma buf_load_at [simp]:
  "length xs = i \<Longrightarrow> buf_load (xs @ Some b # ys) i = Inr b"
  by (auto simp: buf_load_def)

lemma buf_loads_at:
  "length xs = i \<Longrightarrow> buf_loads (xs @ map Some bs @ ys) i (length bs) = Inr bs"
proof (induction bs arbitrary: xs i)
  case (Cons b bs)
  from Cons.IH [of "xs @ [Some b]" "Suc i"] Cons.prems show ?case by simp
qed simp

lemma buf_string_at:
  "CHR 0x00 \<notin> set s \<Longrightarrow> buf_string (map Some s @ Some CHR 0x00 # ys) = Inr s"
  by (induction s) auto

lemma buf_string_shorter:
  assumes "length s < n" and "CHR 0x00 \<notin> set s"
  shows "bind_out (buf_fill s (replicate n (Some CHR 0x00))) buf_string = Inr s"
proof -
  obtain k where k: "n - length s = Suc k"
    using assms(1) by (metis Suc_diff_Suc)
  show ?thesis
    using buf_string_at [OF assms(2)] assms(1) by (simp add: buf_fill_def k)
qed

section \<open>The firmware table\<close>

definition hex_byte :: "byte \<Rightarrow> string" where
  "hex_byte b = [''0123456789ABCDEF'' ! (unat b div 16), ''0123456789ABCDEF'' ! (unat b mod 16)]"

definition uuid_groups :: "byte list \<Rightarrow> string" where
  "uuid_groups bs =
     concat (map hex_byte (take 4 bs)) @ ''-'' @ concat (map hex_byte (take 2 (drop 4 bs)))
     @ ''-'' @ concat (map hex_byte (take 2 (drop 6 bs)))
     @ ''-'' @ concat (map hex_byte (take 2 (drop 8 bs)))
     @ ''-'' @ concat (map hex_byte (drop 10 bs))"

text \<open>The loop at the start of \<open>dmi_system_uuid\<close>, which stops once both flags are down.\<close>

primrec uuid_scan :: "byte buffer \<Rightarrow> nat \<Rightarrow> nat \<Rightarrow> bool \<Rightarrow> bool \<Rightarrow> (bool \<times> bool) outcome" where
  "uuid_scan m p 0 only0 onlyFF = Inr (only0, onlyFF)"
| "uuid_scan m p (Suc n) only0 onlyFF =
     (if only0 \<or> onlyFF
      then bind_out (buf_load m p) (\<lambda>b.
             uuid_scan m (p + 1) n (only0 \<and> b = 0) (onlyFF \<and> b = 0xFF))
      else Inr (only0, onlyFF))"

text \<open>
  \<open>dmi_system_uuid\<close>: from version 2.6 the first three groups are little-endian; in older
  tables they are not, and the format used for those starts with a dash of its own. The
  comparison of \<open>ver\<close>, a \<open>short\<close>, is signed.
\<close>

definition dmi_system_uuid :: "byte buffer \<Rightarrow> nat \<Rightarrow> u16 \<Rightarrow> string option outcome" where
  "dmi_system_uuid m p ver =
     bind_out (uuid_scan m p 16 True True) (\<lambda>(only0, onlyFF).
       if onlyFF \<or> only0 then Inr None
       else bind_out (buf_loads m p 16) (\<lambda>u. Inr (Some (
              if 0x0206 \<le> sint ver
              then uuid_groups (rev (take 4 u) @ rev (take 2 (drop 4 u))
                     @ rev (take 2 (drop 6 u)) @ drop 8 u)
              else ''-'' @ uuid_groups u))))"

text \<open>
  The inner loop of \<open>GetDMIUUID\<close>: it looks for two zero bytes and has no bound. A read past
  the end of the buffer is a fault here, so the recursion ends.
\<close>

function skip_strings :: "byte buffer \<Rightarrow> nat \<Rightarrow> nat outcome" where
  "skip_strings m p =
     bind_out (buf_load m p) (\<lambda>lo. bind_out (buf_load m (p + 1)) (\<lambda>hi.
       if lo = 0 \<and> hi = 0 then Inr p else skip_strings m (p + 1)))"
  by auto
termination
  by (relation "measure (\<lambda>(m, p). length m - p)") (auto simp: buf_load_def split: if_splits)

declare skip_strings.simps [simp del]

text \<open>
  The outer loop: the counter is compared with the length of the table in bytes, although it
  counts structures.
\<close>

primrec walk_structures :: "byte buffer \<Rightarrow> nat \<Rightarrow> nat \<Rightarrow> string option outcome" where
  "walk_structures m 0 p = Inr None"
| "walk_structures m (Suc n) p =
     bind_out (buf_load m p) (\<lambda>ty.
       if ty = 1
       then bind_out (buf_load m 1) (\<lambda>major. bind_out (buf_load m 2) (\<lambda>minor.
              dmi_system_uuid m (p + 8) (push_bit 8 (ucast major) + ucast minor)))
       else bind_out (buf_load m (p + 1)) (\<lambda>len.
              bind_out (skip_strings m (p + unat len)) (\<lambda>q. walk_structures m n (q + 2))))"

definition GetDMIUUID :: "machine_api \<Rightarrow> string option outcome" where
  "GetDMIUUID api =
     (if fw_size api = 0 then Inr None
      else bind_out (buf_fill (snd (fw_table api))
                       (replicate (unat (fw_size api + 1)) None)) (\<lambda>m.
        if fst (fw_table api) = 0 then Inr None
        else bind_out (buf_loads m 4 4) (\<lambda>l.
          if load_le32 l \<noteq> fw_size api - 8 then Inr None
          else walk_structures m (unat (load_le32 l)) 8)))"

section \<open>The registry\<close>

text \<open>
  \<open>GetProductID\<close>. In a release build the results of the calls are not looked at: a key that
  was not opened is an uninitialised handle, a value that was not read leaves the zeros.
\<close>

primrec reg_path :: "string list \<Rightarrow> string" where
  "reg_path [] = []"
| "reg_path (x # xs) = (if xs = [] then x else x @ [CHR 0x5C] @ reg_path xs)"

definition product_key :: string where
  "product_key = reg_path [''SOFTWARE'', ''Microsoft'', ''Cryptography'']"

definition os_version_key :: string where
  "os_version_key = reg_path [''SOFTWARE'', ''Microsoft'', ''Windows NT'', ''CurrentVersion'']"

definition GetProductID :: "bool \<Rightarrow> machine_api \<Rightarrow> string outcome" where
  "GetProductID ndbg api =
     (let opened = reg_open api product_key;
          (ok, data, _) = reg_query api product_key ''MachineGuid'' 40
      in bind_out (c_assert ndbg opened) (\<lambda>_.
           if \<not> opened then Inl (Undefined Uninit_read)
           else bind_out (buf_fill (if ok then data else []) (replicate 40 (Some CHR 0x00))) (\<lambda>m.
             bind_out (c_assert ndbg ok) (\<lambda>_. buf_string m))))"

text \<open>\<open>getComputerName\<close>; \<open>MAX_COMPUTERNAME_LENGTH\<close> is 15.\<close>

definition getComputerName :: "env \<Rightarrow> machine_api \<Rightarrow> string outcome" where
  "getComputerName en api =
     (case target en of
        Windows \<Rightarrow>
          (let (status, name) = computer_name api 16
           in bind_out (buf_fill name (replicate 16 (Some CHR 0x00))) (\<lambda>m.
                bind_out (c_assert (ndebug en) status) (\<lambda>_. buf_string m)))
      | Unix \<Rightarrow>
          (case uname_result api of
             None \<Rightarrow> Inl (Undefined Uninit_read)
           | Some u \<Rightarrow> Inr (uts_nodename u)))"

text \<open>
  One query of \<open>getOsVersion\<close> into its \<open>DWORD\<close>: the cells of the number, the size the call
  leaves, which is the size given to the next one, and the text so far.
\<close>

definition version_number ::
  "machine_api \<Rightarrow> string \<Rightarrow> string \<Rightarrow> byte buffer \<times> nat \<times> string
     \<Rightarrow> (byte buffer \<times> nat \<times> string) outcome" where
  "version_number api key name = (\<lambda>(dword, dwSize, ret).
     let (ok, data, dwSize') = reg_query api key name dwSize in
     if \<not> ok then Inr (dword, dwSize', ret)
     else bind_out (buf_fill (map of_char data) dword) (\<lambda>dword'.
       bind_out (buf_loads dword' 0 4) (\<lambda>bs.
         Inr (dword', dwSize', ret @ dec_nat (unat (load_le32 bs)) @ ''.''))))"

text \<open>One query into the character array, which the next one overwrites from its start.\<close>

definition version_text ::
  "machine_api \<Rightarrow> string \<Rightarrow> string \<Rightarrow> string \<Rightarrow> char buffer \<times> string
     \<Rightarrow> (char buffer \<times> string) outcome" where
  "version_text api key name dot = (\<lambda>(data, ret).
     let (ok, bytes, _) = reg_query api key name 100 in
     if \<not> ok then Inr (data, ret)
     else bind_out (buf_fill bytes data) (\<lambda>data'.
       bind_out (buf_string data') (\<lambda>s. Inr (data', ret @ s @ dot))))"

definition getOsVersion :: "env \<Rightarrow> machine_api \<Rightarrow> string outcome" where
  "getOsVersion en api =
     (case target en of
        Windows \<Rightarrow>
          (let opened = reg_open api os_version_key
           in bind_out (c_assert (ndebug en) opened) (\<lambda>_.
             if \<not> opened then Inl (Undefined Uninit_read)
             else
               bind_out (version_number api os_version_key ''CurrentMajorVersionNumber''
                           (replicate 4 None, 100, [])) (\<lambda>s1.
               bind_out (version_number api os_version_key ''CurrentMinorVersionNumber'' s1) (\<lambda>(_, _, r2).
               bind_out (version_text api os_version_key ''ReleaseId'' ''.''
                           (replicate 100 (Some CHR 0x00), r2)) (\<lambda>s3.
               bind_out (version_text api os_version_key ''CurrentBuild'' [] s3) (\<lambda>(_, r4). Inr r4))))))
      | Unix \<Rightarrow>
          (case uname_result api of
             None \<Rightarrow> Inl (Undefined Uninit_read)
           | Some u \<Rightarrow> Inr (uts_release u @ ''('' @ uts_machine u @ '')'' @ uts_version u)))"

section \<open>The machine id\<close>

text \<open>
  A status of \<open>UuidFromStringA\<close> or \<open>UuidToStringA\<close> is looked at only by \<open>assert\<close>; a release
  build goes on with the variable the call did not fill.
\<close>

definition rpc_value :: "bool \<Rightarrow> 'a option \<Rightarrow> ub \<Rightarrow> 'a outcome" where
  "rpc_value ndbg r u =
     bind_out (c_assert ndbg (r \<noteq> None)) (\<lambda>_.
       case r of None \<Rightarrow> Inl (Undefined u) | Some x \<Rightarrow> Inr x)"

text \<open>
  The end of \<open>MachineID\<close>: the two texts are joined in a buffer of 74 bytes, digested up to the
  length \<open>snprintf\<close> returns, and the first 16 bytes of the digest are printed as a UUID.
\<close>

definition digest_id :: "env \<Rightarrow> machine_api \<Rightarrow> string \<Rightarrow> string \<Rightarrow> string outcome" where
  "digest_id en api b p =
     (let full = b @ ''+'' @ p; l = length full
      in if 74 < l then Inl (Undefined Out_of_bounds)
         else
           (let sha = SHA256 en (map of_char (take l (take 73 full @ [CHR 0x00])))
            in if length sha < 16 then Inl (Undefined Out_of_bounds)
               else case uuid_print api (take 16 sha) of
                      None \<Rightarrow> Inl (Undefined Uninit_pointer)
                    | Some u \<Rightarrow> Inr (take 36 u)))"

definition MachineID :: "env \<Rightarrow> machine_api \<Rightarrow> string outcome" where
  "MachineID en api =
     (case target en of
        Unix \<Rightarrow> Inr ''...''
      | Windows \<Rightarrow>
          bind_out (GetDMIUUID api) (\<lambda>biosUUID.
          bind_out (GetProductID (ndebug en) api) (\<lambda>windowsMachineID.
          bind_out (c_assert (ndebug en) (uuid_parse api biosUUID \<noteq> None)) (\<lambda>_.
          bind_out (c_assert (ndebug en) (uuid_parse api (Some windowsMachineID) \<noteq> None)) (\<lambda>_.
          bind_out (rpc_value (ndebug en) (uuid_parse api biosUUID) Uninit_read) (\<lambda>bios.
          bind_out (rpc_value (ndebug en) (uuid_print api bios) Uninit_pointer) (\<lambda>b.
          bind_out (rpc_value (ndebug en) (uuid_parse api (Some windowsMachineID)) Uninit_read)
            (\<lambda>product.
          bind_out (rpc_value (ndebug en) (uuid_print api product) Uninit_pointer) (\<lambda>p.
            digest_id en api b p)))))))))"

text \<open>\<open>initProtobufLibrary\<close> fills the static variables of the library.\<close>

definition initProtobufLibrary :: "env \<Rightarrow> machine_api \<Rightarrow> statics \<Rightarrow> statics outcome" where
  "initProtobufLibrary en api st =
     bind_out (getComputerName en api) (\<lambda>name.
     bind_out (getOsVersion en api) (\<lambda>version.
     bind_out (MachineID en api) (\<lambda>mid.
       Inr (st\<lparr>myClientName := name, myOsVersion := version, myMachineID := mid,
               timeBias := initGetTimestamp (target en) (zone_bias api) (timeBias st)\<rparr>))))"

section \<open>The digest on Windows\<close>

text \<open>
  BCrypt: a status (0 is \<open>STATUS_SUCCESS\<close>) and what each call hands out. Handles are numbers, 0
  the null handle; \<open>bc_property\<close> stores no number when it fails.
\<close>

record bcrypt =
  bc_open :: "int \<times> nat"
  bc_property :: "nat \<Rightarrow> string \<Rightarrow> int \<times> u32 option"
  heap_alloc :: "u32 \<Rightarrow> bool"
  bc_create :: "nat \<Rightarrow> int \<times> nat"
  bc_hash :: "nat \<Rightarrow> byte list \<Rightarrow> int"
  bc_finish :: "nat \<Rightarrow> byte list \<Rightarrow> nat \<Rightarrow> int \<times> byte list"

text \<open>
  The result is the new array of \<open>cbHash\<close> bytes; the status of \<open>BCryptFinishHash\<close> is stored
  and not looked at. The length goes through a \<open>ULONG\<close>.
\<close>

definition SHA256_BCrypt :: "bool \<Rightarrow> bcrypt \<Rightarrow> byte list \<Rightarrow> byte buffer outcome" where
  "SHA256_BCrypt ndbg bc data =
     (let (s_open, hAlg) = bc_open bc;
          (s_obj, obj) = bc_property bc hAlg ''ObjectLength'';
          cbHashObject = (case obj of None \<Rightarrow> 0 | Some n \<Rightarrow> n);
          (s_len, len) = bc_property bc hAlg ''HashDigestLength'';
          cbHash = (case len of None \<Rightarrow> 0 | Some n \<Rightarrow> n);
          (s_create, hHash) = bc_create bc hAlg;
          input = take (length data mod 2 ^ 32) data;
          (_, digest) = bc_finish bc hHash input (unat cbHash)
      in bind_out (c_assert ndbg (s_open = 0)) (\<lambda>_.
         bind_out (c_assert ndbg (s_obj = 0)) (\<lambda>_.
         bind_out (c_assert ndbg (heap_alloc bc cbHashObject)) (\<lambda>_.
         bind_out (c_assert ndbg (s_len = 0)) (\<lambda>_.
         bind_out (c_assert ndbg (s_create = 0)) (\<lambda>_.
         bind_out (c_assert ndbg (bc_hash bc hHash input = 0)) (\<lambda>_.
           buf_fill digest (replicate (unat cbHash) None))))))))"

end
