(* ===== verification/Machine_Properties.thy ===== *)
theory Machine_Properties
  imports Machine_Id Sample_Env
begin

text \<open>
  What \<open>GetDMIUUID\<close> makes of a firmware table. The table is specified independently of the
  code, as a list of SMBIOS structures and their encoding; the walk of the code is then related
  to the first structure of type 1 in that list. Also the identity \<open>initProtobufLibrary\<close> sets up.
\<close>

section \<open>SMBIOS tables\<close>

text \<open>
  A structure has a type, a handle, a formatted section and a set of strings that ends with two
  zero bytes and has no two adjacent zeros before them.
\<close>

record smbios =
  sm_type :: byte
  sm_handle :: "byte \<times> byte"
  sm_fields :: "byte list"
  sm_strings :: "byte list"

fun string_set :: "byte list \<Rightarrow> bool" where
  "string_set [] \<longleftrightarrow> True"
| "string_set [a] \<longleftrightarrow> a \<noteq> 0"
| "string_set (a # b # bs) \<longleftrightarrow> (a \<noteq> 0 \<or> b \<noteq> 0) \<and> string_set (b # bs)"

definition wf_smbios :: "smbios \<Rightarrow> bool" where
  "wf_smbios s \<longleftrightarrow> length (sm_fields s) < 252 \<and> string_set (sm_strings s)"

definition encode_smbios :: "smbios \<Rightarrow> byte list" where
  "encode_smbios s =
     [sm_type s, of_nat (4 + length (sm_fields s)), fst (sm_handle s), snd (sm_handle s)]
     @ sm_fields s @ sm_strings s @ [0, 0]"

text \<open>The result of the second firmware call: the head of \<open>RawSMBIOSData\<close> and the table.\<close>

definition raw_smbios :: "byte \<Rightarrow> byte \<Rightarrow> byte \<Rightarrow> byte \<Rightarrow> byte list \<Rightarrow> byte list" where
  "raw_smbios method major minor revision table =
     [method, major, minor, revision] @ rev (store_be32 (of_nat (length table))) @ table"

text \<open>The text of a system UUID, all zeros and all ones standing for no UUID.\<close>

definition system_uuid :: "bool \<Rightarrow> byte list \<Rightarrow> string option" where
  "system_uuid new u =
     (if list_all (\<lambda>b. b = 0) u \<or> list_all (\<lambda>b. b = 0xFF) u then None
      else Some (if new
             then uuid_groups (rev (take 4 u) @ rev (take 2 (drop 4 u)) @ rev (take 2 (drop 6 u))
                    @ drop 8 u)
             else ''-'' @ uuid_groups u))"

section \<open>Reading the table\<close>

lemma skip_strings_at:
  "string_set s \<Longrightarrow> length xs = p \<Longrightarrow>
     skip_strings (xs @ map Some (s @ [0, 0]) @ ys) p = Inr (p + length s)"
proof (induction s arbitrary: xs p rule: string_set.induct)
  case 1
  have "buf_load (xs @ Some 0 # Some 0 # ys) (p + 1) = Inr 0"
    using buf_load_at [of "xs @ [Some 0]" "p + 1" 0 ys] 1 by simp
  with 1 show ?case by (subst skip_strings.simps) simp
next
  case (2 a)
  have "buf_load (xs @ Some a # Some 0 # Some 0 # ys) (p + 1) = Inr 0"
    "buf_load (xs @ Some a # Some 0 # Some 0 # ys) (p + 2) = Inr 0"
    using buf_load_at [of "xs @ [Some a]" "p + 1" 0 "Some 0 # ys"]
      buf_load_at [of "xs @ [Some a, Some 0]" "p + 2" 0 ys] 2 by simp_all
  with 2 show ?case
    by (subst skip_strings.simps) (simp add: skip_strings.simps [of _ "Suc p"])
next
  case (3 a b bs)
  have "buf_load (xs @ Some a # Some b # map Some (bs @ [0, 0]) @ ys) (p + 1) = Inr b"
    using buf_load_at [of "xs @ [Some a]" "p + 1" b "map Some (bs @ [0, 0]) @ ys"] 3 by simp
  moreover have "skip_strings ((xs @ [Some a]) @ map Some ((b # bs) @ [0, 0]) @ ys) (p + 1)
      = Inr (p + 1 + length (b # bs))"
    using 3 by (intro 3) simp_all
  ultimately show ?case
    using 3 by (subst skip_strings.simps) auto
qed

lemma uuid_scan_at:
  "length xs = p \<Longrightarrow> \<exists>z f. uuid_scan (xs @ map Some u @ ys) p (length u) z0 f0 = Inr (z, f)
     \<and> (z \<or> f \<longleftrightarrow> z0 \<and> list_all (\<lambda>b. b = 0) u \<or> f0 \<and> list_all (\<lambda>b. b = 0xFF) u)"
proof (induction u arbitrary: xs p z0 f0)
  case (Cons b u)
  show ?case
  proof (cases "z0 \<or> f0")
    case True
    from Cons.prems have "length (xs @ [Some b]) = p + 1" by simp
    from Cons.IH [OF this, of "z0 \<and> b = 0" "f0 \<and> b = 0xFF"] Cons.prems True
    show ?thesis by auto
  qed auto
qed auto

lemma dmi_system_uuid_at:
  assumes "length xs = p" and "length u = 16"
  shows "dmi_system_uuid (xs @ map Some u @ ys) p ver = Inr (system_uuid (0x0206 \<le> sint ver) u)"
proof -
  from uuid_scan_at [OF assms(1), of u ys True True] assms(2)
  obtain z f where "uuid_scan (xs @ map Some u @ ys) p 16 True True = Inr (z, f)"
    and "z \<or> f \<longleftrightarrow> list_all (\<lambda>b. b = 0) u \<or> list_all (\<lambda>b. b = 0xFF) u" by auto
  moreover have "buf_loads (xs @ map Some u @ ys) p 16 = Inr u"
    using buf_loads_at [OF assms(1), of u ys] assms(2) by simp
  ultimately show ?thesis
    by (auto simp: dmi_system_uuid_def system_uuid_def)
qed

lemma length_encode_smbios:
  "length (encode_smbios s) = 6 + length (sm_fields s) + length (sm_strings s)"
  by (simp add: encode_smbios_def)

text \<open>One turn of the walk over a structure of another type.\<close>

lemma walk_skips:
  assumes "wf_smbios s" and "sm_type s \<noteq> 1" and "length xs = p"
  shows "walk_structures (xs @ map Some (encode_smbios s) @ ys) (Suc n) p
    = walk_structures (xs @ map Some (encode_smbios s) @ ys) n (p + length (encode_smbios s))"
proof -
  let ?m = "xs @ map Some (encode_smbios s) @ ys"
  let ?h = "[sm_type s, of_nat (4 + length (sm_fields s)), fst (sm_handle s), snd (sm_handle s)]
    @ sm_fields s"
  have m: "?m = (xs @ map Some ?h) @ map Some (sm_strings s @ [0, 0]) @ ys"
    by (simp add: encode_smbios_def)
  have len: "unat (of_nat (4 + length (sm_fields s)) :: byte) = 4 + length (sm_fields s)"
    using assms(1) by (simp add: wf_smbios_def unat_of_nat del: of_nat_add of_nat_numeral)
  have "buf_load ?m p = Inr (sm_type s)"
    using assms(3) by (simp add: encode_smbios_def)
  moreover have "buf_load ?m (p + 1) = Inr (of_nat (4 + length (sm_fields s)))"
    using buf_load_at [of "xs @ [Some (sm_type s)]" "p + 1"] assms(3)
    by (simp add: encode_smbios_def)
  moreover have "skip_strings ?m (p + (4 + length (sm_fields s)))
      = Inr (p + (4 + length (sm_fields s)) + length (sm_strings s))"
    unfolding m using assms by (intro skip_strings_at) (simp_all add: wf_smbios_def)
  ultimately show ?thesis
    using assms(2)
    by (simp add: len length_encode_smbios del: of_nat_add of_nat_numeral) (simp add: ac_simps)
qed

lemma walk_skips_all:
  assumes "\<forall>s \<in> set ss. wf_smbios s \<and> sm_type s \<noteq> 1" and "length xs = p"
  shows "walk_structures (xs @ map Some (concat (map encode_smbios ss)) @ ys) (length ss + n) p
    = walk_structures (xs @ map Some (concat (map encode_smbios ss)) @ ys) n
        (p + length (concat (map encode_smbios ss)))"
  using assms
proof (induction ss arbitrary: xs p)
  case (Cons s ss)
  let ?r = "map Some (concat (map encode_smbios ss)) @ ys"
  have "walk_structures (xs @ map Some (encode_smbios s) @ ?r) (Suc (length ss + n)) p
      = walk_structures (xs @ map Some (encode_smbios s) @ ?r) (length ss + n)
          (p + length (encode_smbios s))"
    using Cons.prems by (intro walk_skips) simp_all
  also have "\<dots> = walk_structures ((xs @ map Some (encode_smbios s)) @ ?r) n
      (p + length (encode_smbios s) + length (concat (map encode_smbios ss)))"
    using Cons.IH [of "xs @ map Some (encode_smbios s)" "p + length (encode_smbios s)"] Cons.prems
    by simp
  finally show ?case by (simp add: ac_simps)
qed simp

section \<open>GetDMIUUID\<close>

text \<open>A firmware interface that delivers a table, with both calls agreeing on its size.\<close>

definition firmware_delivers ::
  "machine_api \<Rightarrow> byte \<times> byte \<times> byte \<times> byte \<Rightarrow> byte list \<Rightarrow> bool" where
  "firmware_delivers api = (\<lambda>(method, major, minor, revision) table.
     8 + length table < 2 ^ 32 - 1
     \<and> fw_size api = of_nat (8 + length table)
     \<and> fw_table api = (of_nat (8 + length table), raw_smbios method major minor revision table))"

lemma raw_smbios_length:
  "load_le32 (rev (store_be32 w)) = w" "length (rev (store_be32 w)) = 4"
  using load_store_be32 [of w "[]"] by (simp_all add: load_le32_def)

lemma GetDMIUUID_walk:
  assumes "firmware_delivers api (method, major, minor, revision) table"
  shows "GetDMIUUID api = walk_structures
    (map Some ([method, major, minor, revision] @ rev (store_be32 (of_nat (length table))))
       @ map Some table @ [None]) (length table) 8"
proof -
  let ?l = "of_nat (length table) :: u32"
  let ?h = "[method, major, minor, revision]"
  let ?m = "map Some (?h @ rev (store_be32 ?l)) @ map Some table @ [None]"
  from assms have small: "8 + length table < 2 ^ 32 - 1"
    and size: "fw_size api = of_nat (8 + length table)"
    and tab: "fw_table api = (of_nat (8 + length table), raw_smbios method major minor revision table)"
    by (simp_all add: firmware_delivers_def)
  have "unat (of_nat (9 + length table) :: u32) = 9 + length table"
    using small by (simp add: unat_of_nat del: of_nat_add of_nat_numeral)
  then have n: "unat (fw_size api + 1) = 9 + length table"
    by (simp add: size)
  have len: "unat ?l = length table"
    using small by (simp add: unat_of_nat)
  have "unat (fw_size api) = 8 + length table"
    using small by (simp add: size unat_of_nat del: of_nat_add of_nat_numeral)
  then have pos: "fw_size api \<noteq> 0" by auto
  have fill: "buf_fill (raw_smbios method major minor revision table)
      (replicate (9 + length table) None) = Inr ?m"
    by (simp add: buf_fill_def raw_smbios_def)
  have "buf_loads (map Some ?h @ map Some (rev (store_be32 ?l)) @ map Some table @ [None]) 4 4
      = Inr (rev (store_be32 ?l))"
    using buf_loads_at [of "map Some ?h" 4 "rev (store_be32 ?l)" "map Some table @ [None]"] by simp
  then have loads: "buf_loads ?m 4 4 = Inr (rev (store_be32 ?l))" by simp
  have minus: "of_nat (8 + length table) - 8 = ?l" by simp
  show ?thesis
    unfolding GetDMIUUID_def tab fst_conv snd_conv n fill bind_out_simps loads
    using pos by (simp add: raw_smbios_length minus len size del: of_nat_add of_nat_numeral)
qed

lemma concat_encode_length: "6 * length ss \<le> length (concat (map encode_smbios ss))"
  by (induction ss) (simp_all add: length_encode_smbios)

lemma first_system_structure:
  assumes "firmware_delivers api (method, major, minor, revision) table"
    and "table = concat (map encode_smbios ss) @ encode_smbios s @ rest"
    and "\<forall>x \<in> set ss. wf_smbios x \<and> sm_type x \<noteq> 1"
    and "sm_type s = 1" and "20 \<le> length (sm_fields s)"
  shows "GetDMIUUID api = Inr (system_uuid
    (0x0206 \<le> sint (push_bit 8 (ucast major) + ucast minor :: u16))
    (take 16 (drop 4 (sm_fields s))))"
proof -
  let ?pre = "map Some ([method, major, minor, revision] @ rev (store_be32 (of_nat (length table))))"
  let ?cs = "concat (map encode_smbios ss)"
  let ?m = "?pre @ map Some ?cs @ map Some (encode_smbios s @ rest) @ [None]"
  let ?u = "take 16 (drop 4 (sm_fields s))"
  let ?ver = "push_bit 8 (ucast major) + ucast minor :: u16"
  let ?x = "?pre @ map Some ?cs @ map Some ([1, of_nat (4 + length (sm_fields s)),
    fst (sm_handle s), snd (sm_handle s)] @ take 4 (sm_fields s))"
  let ?y = "map Some (drop 20 (sm_fields s) @ sm_strings s @ [0, 0] @ rest) @ [None]"
  have more: "length table = length ss + Suc (length table - length ss - 1)"
    using concat_encode_length [of ss] by (simp add: assms(2) length_encode_smbios)
  have fields: "sm_fields s = take 4 (sm_fields s) @ ?u @ drop 20 (sm_fields s)"
    using append_take_drop_id [of 16 "drop 4 (sm_fields s)"] by simp
  have "map Some (encode_smbios s @ rest) @ [None] = map Some ([1, of_nat (4 + length (sm_fields s)),
      fst (sm_handle s), snd (sm_handle s)] @ (take 4 (sm_fields s) @ ?u @ drop 20 (sm_fields s))
      @ sm_strings s @ [0, 0] @ rest) @ [None]"
    by (simp only: fields [symmetric]) (simp add: encode_smbios_def assms(4))
  then have m: "?m = ?x @ map Some ?u @ ?y" by simp
  have "GetDMIUUID api = walk_structures ?m (length table) 8"
    using GetDMIUUID_walk [OF assms(1)] by (simp add: assms(2))
  also have "\<dots> = walk_structures ?m (Suc (length table - length ss - 1)) (8 + length ?cs)"
    by (subst more, rule walk_skips_all [OF assms(3)]) simp
  also have "\<dots> = dmi_system_uuid ?m (8 + length ?cs + 8) ?ver"
  proof -
    have "buf_load ?m (8 + length ?cs) = Inr 1"
      using buf_load_at [of "?pre @ map Some ?cs" "8 + length ?cs" 1
        "map Some (tl (encode_smbios s) @ rest) @ [None]"]
      by (simp add: encode_smbios_def assms(4))
    moreover have "buf_load ?m 1 = Inr major" "buf_load ?m 2 = Inr minor"
      by (simp_all add: buf_load_def)
    ultimately show ?thesis by simp
  qed
  also have "\<dots> = Inr (system_uuid (0x0206 \<le> sint ?ver) ?u)"
    unfolding m using assms(5) by (intro dmi_system_uuid_at) simp_all
  finally show ?thesis .
qed

text \<open>C23. The walk over a well-formed firmware table finds the first structure of type 1,
  whatever structures are before and whatever bytes are behind it, and the result is the text
  of the UUID at offset 8 of that structure: with the byte order of version 2.6 from that
  version on, no text when it is all zeros or all ones.\<close>

theorem system_uuid_found:
  assumes "firmware_delivers api (method, major, minor, revision) table"
    and "table = concat (map encode_smbios ss) @ encode_smbios s @ rest"
    and "\<forall>x \<in> set ss. wf_smbios x \<and> sm_type x \<noteq> 1"
    and "sm_type s = 1" and "20 \<le> length (sm_fields s)"
  shows "GetDMIUUID api = Inr (system_uuid
    (0x0206 \<le> sint (push_bit 8 (ucast major) + ucast minor :: u16))
    (take 16 (drop 4 (sm_fields s))))"
  by (rule first_system_structure [OF assms])

text \<open>A well-formed firmware table without a structure of type 1 is not the end of the walk: it
  goes on behind the last structure, because the loop counts structures up to a number of
  bytes, and reads a byte nothing was written to.\<close>

theorem no_system_structure:
  assumes "firmware_delivers api (method, major, minor, revision) table"
    and "table = concat (map encode_smbios ss)" and "ss \<noteq> []"
    and "\<forall>x \<in> set ss. wf_smbios x \<and> sm_type x \<noteq> 1"
  shows "GetDMIUUID api = Inl (Undefined Uninit_read)"
proof -
  let ?pre = "map Some ([method, major, minor, revision] @ rev (store_be32 (of_nat (length table))))"
  let ?cs = "concat (map encode_smbios ss)"
  let ?m = "?pre @ map Some ?cs @ [None]"
  have more: "length table = length ss + Suc (length table - length ss - 1)"
    using concat_encode_length [of ss] assms(3) by (cases ss) (auto simp: assms(2))
  have "GetDMIUUID api = walk_structures ?m (length table) 8"
    using GetDMIUUID_walk [OF assms(1)] by (simp add: assms(2))
  also have "\<dots> = walk_structures ?m (Suc (length table - length ss - 1)) (8 + length ?cs)"
    by (subst more, rule walk_skips_all [OF assms(4)]) simp
  also have "\<dots> = Inl (Undefined Uninit_read)"
  proof -
    have "buf_load ?m (8 + length ?cs) = Inl (Undefined Uninit_read)"
      by (simp add: buf_load_def nth_append)
    then show ?thesis by simp
  qed
  finally show ?thesis .
qed

section \<open>The machine id\<close>

text \<open>A machine whose firmware follows a version before 2.6 gets no machine id: the UUID text of
  such a table starts with a dash, which the parser of UUIDs does not accept, and that is only
  noticed by an \<open>assert\<close>. A release build goes on with an uninitialised UUID.\<close>

theorem old_firmware_no_machine_id:
  assumes "target en = Windows"
    and "firmware_delivers api (method, major, minor, revision) table"
    and "table = concat (map encode_smbios ss) @ encode_smbios s @ rest"
    and "\<forall>x \<in> set ss. wf_smbios x \<and> sm_type x \<noteq> 1"
    and "sm_type s = 1" and "20 \<le> length (sm_fields s)"
    and "sint (push_bit 8 (ucast major) + ucast minor :: u16) < 0x0206"
    and "\<exists>b \<in> set (take 16 (drop 4 (sm_fields s))). b \<noteq> 0"
    and "\<exists>b \<in> set (take 16 (drop 4 (sm_fields s))). b \<noteq> 0xFF"
    and "GetProductID (ndebug en) api = Inr product" and "uuid_parse api (Some product) \<noteq> None"
    and "\<And>t. uuid_parse api (Some (CHR ''-'' # t)) = None"
  shows "MachineID en api = Inl (if ndebug en then Undefined Uninit_read else Assert_failed)"
proof -
  let ?u = "take 16 (drop 4 (sm_fields s))"
  have "system_uuid False ?u = Some (CHR ''-'' # uuid_groups ?u)"
    using assms(8,9) by (auto simp: system_uuid_def list_all_iff)
  with first_system_structure [OF assms(2-6)] assms(7)
  have "GetDMIUUID api = Inr (Some (CHR ''-'' # uuid_groups ?u))" by simp
  with assms show ?thesis
    by (simp add: MachineID_def rpc_value_def)
qed

text \<open>
  When every call succeeds the id is the start of the digest of both identifiers, and the
  library's static variables are the name, the version and the id of this machine.
\<close>

lemma MachineID_windows:
  assumes "target en = Windows"
    and "GetDMIUUID api = Inr bios" and "GetProductID (ndebug en) api = Inr product"
    and "uuid_parse api bios = Some u" and "uuid_parse api (Some product) = Some v"
    and "uuid_print api u = Some b" and "uuid_print api v = Some p"
  shows "MachineID en api = digest_id en api b p"
  using assms by (simp add: MachineID_def rpc_value_def)

lemma digest_id_text:
  assumes "length b = 36" and "length p = 36" and "16 \<le> length (sha256 en (map of_char (b @ ''+'' @ p)))"
    and "uuid_print api (take 16 (sha256 en (map of_char (b @ ''+'' @ p)))) = Some t"
  shows "digest_id en api b p = Inr (take 36 t)"
  using assms by (simp add: digest_id_def SHA256_def)

lemma MachineID_length: "MachineID en api = Inr t \<Longrightarrow> length t \<le> 36"
  by (auto simp: MachineID_def digest_id_def bind_out_Inr_iff Let_def
      split: platform.splits if_splits option.splits)

text \<open>The value of a \<open>REG_DWORD\<close> as the registry stores it.\<close>

definition dword_text :: "u32 \<Rightarrow> string" where
  "dword_text w = map (\<lambda>b. char_of (unat b)) (rev (store_be32 w))"

lemma of_char_of_byte: "of_char (char_of (unat b)) = (b :: byte)"
proof -
  have "unat b < 256" using unsigned_less [of b] by simp
  then have "of_char (char_of (unat b)) = unat b" by (simp add: of_char_of)
  then have "of_nat (of_char (char_of (unat b))) = b" by simp
  then show ?thesis by (simp only: of_nat_of_char)
qed

lemma of_char_dword_text: "map of_char (dword_text w) = rev (store_be32 w)"
  by (simp add: dword_text_def comp_def of_char_of_byte)

lemma length_dword_text [simp]: "length (dword_text w) = 4"
  by (simp add: dword_text_def)

lemma version_number_stored:
  assumes "reg_query api key name n = (True, dword_text w, n')" and "length dword = 4"
  shows "version_number api key name (dword, n, r)
    = Inr (map Some (rev (store_be32 w)), n', r @ dec_nat (unat w) @ ''.'')"
  using assms buf_loads_at [of "[]" 0 "rev (store_be32 w)" "[]"]
  by (simp add: version_number_def of_char_dword_text buf_fill_def raw_smbios_length)

text \<open>C1. On a registry that answers as documented the version of the system is the major and
  the minor number, the release and the build, separated by dots, although the size handed to
  the second query is the one the first left.\<close>

theorem getOsVersion_text:
  assumes "target en = Windows"
    and "reg_open api os_version_key"
    and "reg_query api os_version_key ''CurrentMajorVersionNumber'' 100 = (True, dword_text major, 4)"
    and "reg_query api os_version_key ''CurrentMinorVersionNumber'' 4 = (True, dword_text minor, 4)"
    and "reg_query api os_version_key ''ReleaseId'' 100 = (True, release @ [CHR 0x00], n)"
    and "reg_query api os_version_key ''CurrentBuild'' 100 = (True, build @ [CHR 0x00], k)"
    and "CHR 0x00 \<notin> set release \<union> set build" and "length release < 100" and "length build < 100"
  shows "getOsVersion en api = Inr (dec_nat (unat major) @ ''.'' @ dec_nat (unat minor) @ ''.''
    @ release @ ''.'' @ build)"
proof -
  define data where "data = map Some (release @ [CHR 0x00]) @ drop (length (release @ [CHR 0x00]))
    (replicate 100 (Some CHR 0x00))"
  have "length data = 100"
    using assms(8) by (simp add: data_def)
  have fill: "buf_fill (release @ [CHR 0x00]) (replicate 100 (Some CHR 0x00)) = Inr data"
    "buf_fill (build @ [CHR 0x00]) data
      = Inr (map Some build @ Some CHR 0x00 # drop (Suc (length build)) data)"
    using assms(8,9) \<open>length data = 100\<close> by (simp_all add: buf_fill_def data_def)
  have "buf_string data = Inr release"
    using buf_string_at [of release] assms(7) by (simp add: data_def)
  then have release: "version_text api os_version_key ''ReleaseId'' ''.'' (replicate 100 (Some CHR 0x00), r)
      = Inr (data, r @ release @ ''.'')" for r
    using fill(1) by (simp add: version_text_def assms(5))
  have build: "version_text api os_version_key ''CurrentBuild'' [] (data, r)
      = Inr (map Some build @ Some CHR 0x00 # drop (Suc (length build)) data, r @ build)" for r
    using fill(2) buf_string_at [of build] assms(7) by (simp add: version_text_def assms(6))
  show ?thesis
    using assms(1,2)
    by (simp add: getOsVersion_def release build
        version_number_stored [OF assms(3)] version_number_stored [OF assms(4)])
qed

section \<open>Sample machines\<close>

text \<open>
  A firmware of a given version with a BIOS structure before the system structure, a registry,
  and a reader of UUID texts that accepts 36 characters with a dash at the ninth. The printer
  prints the sixteen bytes in order.
\<close>

definition bios_structure :: smbios where
  "bios_structure = \<lparr>sm_type = 0, sm_handle = (0, 0), sm_fields = replicate 14 7,
     sm_strings = [65, 0, 66]\<rparr>"

definition system_structure :: smbios where
  "system_structure = \<lparr>sm_type = 1, sm_handle = (1, 0),
     sm_fields = [1, 2, 3, 4] @ map of_nat [16..<32] @ [6], sm_strings = [67]\<rparr>"

definition sample_table :: "byte list" where
  "sample_table = concat (map encode_smbios [bios_structure]) @ encode_smbios system_structure @ []"

definition hex_digit_value :: "char \<Rightarrow> nat" where
  "hex_digit_value c = length (takeWhile (\<lambda>d. d \<noteq> c) ''0123456789ABCDEF'')"

fun hex_pairs :: "string \<Rightarrow> byte list" where
  "hex_pairs (a # b # cs) = of_nat (16 * hex_digit_value a + hex_digit_value b) # hex_pairs cs"
| "hex_pairs _ = []"

definition sample_uuid_parse :: "string option \<Rightarrow> byte list option" where
  "sample_uuid_parse s = (case s of
     None \<Rightarrow> Some (replicate 16 0)
   | Some t \<Rightarrow> if length t = 36 \<and> t ! 8 = CHR ''-'' \<and> t ! 0 \<noteq> CHR ''-''
       then Some (hex_pairs (filter (\<lambda>c. c \<noteq> CHR ''-'') t)) else None)"

definition sample_product :: string where
  "sample_product = ''0A1B2C3D-4E5F-6071-8293-A4B5C6D7E8F9''"

definition sample_query :: "string \<Rightarrow> string \<Rightarrow> nat \<Rightarrow> bool \<times> string \<times> nat" where
  "sample_query key name n =
     (if name = ''MachineGuid'' then (True, sample_product @ [CHR 0x00], 37)
      else if name = ''CurrentMajorVersionNumber'' then (True, dword_text 10, 4)
      else if name = ''CurrentMinorVersionNumber'' then (True, dword_text 0, 4)
      else if name = ''ReleaseId'' then (True, ''1809'' @ [CHR 0x00], 5)
      else if name = ''CurrentBuild'' then (True, ''17763'' @ [CHR 0x00], 6)
      else (False, [], n))"

definition sample_machine :: "byte list \<Rightarrow> byte \<Rightarrow> byte \<Rightarrow> machine_api" where
  "sample_machine table major minor = \<lparr>
     fw_size = of_nat (8 + length table),
     fw_table = (of_nat (8 + length table), raw_smbios 0 major minor 0 table),
     reg_open = (\<lambda>_. True), reg_query = sample_query,
     uuid_parse = sample_uuid_parse, uuid_print = (\<lambda>u. Some (uuid_groups u)),
     computer_name = (\<lambda>_. (True, ''PC'' @ [CHR 0x00])), uname_result = None,
     zone_bias = - 480\<rparr>"

lemma sample_firmware:
  "length table < 1000 \<Longrightarrow>
     firmware_delivers (sample_machine table major minor) (0, major, minor, 0) table"
  by (simp add: firmware_delivers_def sample_machine_def)

lemma sample_structures [simp]:
  "wf_smbios bios_structure" "sm_type bios_structure = 0" "sm_type system_structure = 1"
  "length (encode_smbios bios_structure) = 23" "length (sm_fields system_structure) = 21"
  "take 16 (drop 4 (sm_fields system_structure)) = map of_nat [16..<32]"
  by (simp_all add: wf_smbios_def bios_structure_def system_structure_def encode_smbios_def)

lemma sample_table_length: "length sample_table = 51"
  by (simp add: sample_table_def length_encode_smbios)
    (simp add: bios_structure_def system_structure_def)

lemma sample_product_read: "GetProductID ndbg (sample_machine table major minor) = Inr sample_product"
proof -
  have "buf_fill (sample_product @ [CHR 0x00]) (replicate 40 (Some CHR 0x00))
      = Inr (map Some sample_product @ Some CHR 0x00 # replicate 3 (Some CHR 0x00))"
    by (simp add: buf_fill_def sample_product_def)
  moreover have "CHR 0x00 \<notin> set sample_product"
    by (simp add: sample_product_def)
  ultimately show ?thesis
    by (simp add: GetProductID_def sample_machine_def sample_query_def buf_string_at)
qed

theorem system_uuid_found_witness:
  "GetDMIUUID (sample_machine sample_table 2 8)
     = Inr (Some ''13121110-1514-1716-1819-1A1B1C1D1E1F'')"
proof -
  have "GetDMIUUID (sample_machine sample_table 2 8)
      = Inr (system_uuid (0x0206 \<le> sint (push_bit 8 (ucast (2 :: byte)) + ucast (8 :: byte) :: u16))
          (take 16 (drop 4 (sm_fields system_structure))))"
    by (rule system_uuid_found [OF sample_firmware sample_table_def])
      (simp_all add: sample_table_length)
  also have "\<dots> = Inr (Some ''13121110-1514-1716-1819-1A1B1C1D1E1F'')"
    by (simp add: system_uuid_def uuid_groups_def hex_byte_def upt_rec numeral_2_eq_2 [symmetric])
  finally show ?thesis .
qed

theorem no_system_structure_witness:
  "GetDMIUUID (sample_machine (encode_smbios bios_structure) 2 8) = Inl (Undefined Uninit_read)"
  by (rule no_system_structure [OF sample_firmware, where ss = "[bios_structure]"])
    simp_all

theorem old_firmware_no_machine_id_witness:
  "MachineID (sample_env False Windows) (sample_machine sample_table 2 5) = Inl Assert_failed"
proof -
  let ?api = "sample_machine sample_table 2 5"
  have "MachineID (sample_env False Windows) ?api
      = Inl (if ndebug (sample_env False Windows) then Undefined Uninit_read else Assert_failed)"
  proof (rule old_firmware_no_machine_id [OF _ sample_firmware sample_table_def])
    show "GetProductID (ndebug (sample_env False Windows)) ?api = Inr sample_product"
      by (rule sample_product_read)
    show "uuid_parse ?api (Some sample_product) \<noteq> None"
      by (simp add: sample_machine_def sample_uuid_parse_def sample_product_def)
    show "uuid_parse ?api (Some (CHR ''-'' # t)) = None" for t
      by (simp add: sample_machine_def sample_uuid_parse_def)
  qed (simp_all add: sample_table_length sample_env_def upt_rec)
  then show ?thesis by (simp add: sample_env_def)
qed

theorem getOsVersion_text_witness:
  "getOsVersion (sample_env False Windows) (sample_machine sample_table 2 8)
     = Inr ''10.0.1809.17763''"
proof -
  have "getOsVersion (sample_env False Windows) (sample_machine sample_table 2 8)
      = Inr (dec_nat (unat (10 :: u32)) @ ''.'' @ dec_nat (unat (0 :: u32)) @ ''.''
          @ ''1809'' @ ''.'' @ ''17763'')"
    by (rule getOsVersion_text [where n = 5 and k = 6])
      (simp_all add: sample_env_def sample_machine_def sample_query_def)
  then show ?thesis by (simp add: dec_nat.simps digit_char_def)
qed

end
