(* ===== verification/Notify.thy ===== *)
theory Notify
  imports Packet_Codec
begin

text \<open>
  The notification client \<open>ProtobufSendingTest/notify.cpp\<close>: it waits for changes of an event log,
  reads the new records, formats their messages and sends a package for each. The event log,
  message, heap and wait functions of Windows are parameters, with a state \<open>'h\<close> of their own;
  lines written to the console are left out.
\<close>

section \<open>Parameters\<close>

text \<open>
  A wide string is the list of its 16-bit units, without the NUL that ends it. The fields of an
  \<open>EVENTLOGRECORD\<close> and the units behind its string offset.
\<close>

type_synonym wchar = "16 word"
type_synonym wstring = "wchar list"

record eventlog_record =
  RecordNumber :: u32
  EventID :: u32
  EventType :: u32
  NumStrings :: nat
  EventCategory :: u32
  record_strings :: wstring

text \<open>The insert arguments a call of \<open>FormatMessage\<close> is given.\<close>

datatype inserts = No_array | Array "wstring list" | Ignore_inserts

text \<open>\<open>ReadEventLog\<close>: a record, or the last error and the number of bytes needed.\<close>

datatype log_read = Read_record eventlog_record | Read_failed u32 nat

text \<open>
  \<open>nt_malloc\<close> tells whether an allocation, named by its variable, succeeds; \<open>nt_oldest\<close> and
  \<open>nt_number\<close> are a number or an error.
\<close>

record 'h notify_api =
  nt_malloc :: "string \<Rightarrow> nat \<Rightarrow> bool"
  nt_format :: "inserts \<Rightarrow> u32 \<Rightarrow> wstring option"
  nt_utf8 :: "wstring \<Rightarrow> string"
  nt_codecvt :: "wstring \<Rightarrow> string option"
  nt_read :: "'h \<Rightarrow> bool \<Rightarrow> u32 \<Rightarrow> nat \<Rightarrow> log_read \<times> 'h"
  nt_oldest :: "'h \<Rightarrow> u32 + u32"
  nt_number :: "'h \<Rightarrow> u32 + u32"
  nt_wait :: "'h \<Rightarrow> u32 \<times> 'h"
  nt_reset :: "'h \<Rightarrow> 'h"

definition ERROR_OUTOFMEMORY :: u32 where "ERROR_OUTOFMEMORY = 14"
definition ERROR_HANDLE_EOF :: u32 where "ERROR_HANDLE_EOF = 38"
definition ERROR_INVALID_PARAMETER :: u32 where "ERROR_INVALID_PARAMETER = 87"
definition ERROR_INSUFFICIENT_BUFFER :: u32 where "ERROR_INSUFFICIENT_BUFFER = 122"

lemmas status_defs = ERROR_SUCCESS_def ERROR_OUTOFMEMORY_def ERROR_HANDLE_EOF_def
  ERROR_INVALID_PARAMETER_def ERROR_INSUFFICIENT_BUFFER_def

section \<open>Conversions\<close>

text \<open>\<open>dispatch(int)\<close> has no return statement behind its \<open>switch\<close>.\<close>

definition dispatch_type :: "int \<Rightarrow> logLevel outcome" where
  "dispatch_type ff =
     (if ff = 0 then Inr error else if ff = 1 then Inr warning
      else if ff = 2 then Inr info else if ff = 3 then Inr verbose
      else if ff = 4 then Inr fatal else Inl (Undefined Missing_return))"

text \<open>
  \<open>find_last_not_of\<close> line ends, and the cut both conversions make with it: \<open>resize(pos)\<close> keeps
  the characters before \<open>pos\<close>.
\<close>

definition find_last_not_of :: "'a set \<Rightarrow> 'a list \<Rightarrow> nat option" where
  "find_last_not_of bad xs =
     (let n = length (dropWhile (\<lambda>c. c \<in> bad) (rev xs)) in if n = 0 then None else Some (n - 1))"

definition cut_line_end :: "'a set \<Rightarrow> 'a list \<Rightarrow> 'a list" where
  "cut_line_end bad xs =
     (case find_last_not_of bad xs of None \<Rightarrow> xs | Some pos \<Rightarrow> take pos xs)"

definition UnicodeToUTF8 :: "'h notify_api \<Rightarrow> wstring \<Rightarrow> string" where
  "UnicodeToUTF8 api str = nt_utf8 api (cut_line_end {0x0D, 0x0A} str)"

definition convert :: "'h notify_api \<Rightarrow> wstring \<Rightarrow> string outcome" where
  "convert api str =
     (case nt_codecvt api str of
        None \<Rightarrow> Inl (Uncaught Conversion_error)
      | Some out \<Rightarrow> Inr (cut_line_end {CHR 0x0D, CHR 0x0A} out))"

text \<open>The types are powers of two; any other value is index 0.\<close>

definition GetEventTypeName :: "u32 \<Rightarrow> nat" where
  "GetEventTypeName ty =
     (if ty = 1 then 0 else if ty = 2 then 1 else if ty = 4 then 2 else if ty = 8 then 3
      else if ty = 16 then 4 else 0)"

section \<open>Messages\<close>

text \<open>The loop over the strings behind the record: \<open>argc\<close> times up to the next NUL.\<close>

primrec read_args :: "nat \<Rightarrow> wstring \<Rightarrow> wstring list outcome" where
  "read_args 0 buf = Inr []"
| "read_args (Suc n) buf =
     (let s = takeWhile (\<lambda>c. c \<noteq> 0) buf
      in if s = buf then Inl (Undefined Out_of_bounds)
         else bind_out (read_args n (drop (length s + 1) buf)) (\<lambda>ss. Inr (s # ss)))"

definition NotifyMessageString ::
  "'h notify_api \<Rightarrow> u32 \<Rightarrow> nat \<Rightarrow> wstring \<Rightarrow> wstring option outcome" where
  "NotifyMessageString api MessageId argc argv =
     (if argc = 0 then Inr (nt_format api No_array MessageId)
      else if nt_malloc api ''pArgs'' (8 * argc)
      then bind_out (read_args argc argv) (\<lambda>ss. Inr (nt_format api (Array ss) MessageId))
      else Inr (nt_format api Ignore_inserts MessageId))"

section \<open>Parameter strings\<close>

definition percent :: wchar where "percent = 0x25"

definition wdigit :: "wchar \<Rightarrow> bool" where
  "wdigit c \<longleftrightarrow> 0x30 \<le> unat c \<and> unat c \<le> 0x39"

text \<open>
  \<open>isdigit\<close> is defined for the values of an unsigned character. Past the end of the text it sees
  the NUL.
\<close>

definition c_isdigit :: "wstring \<Rightarrow> bool outcome" where
  "c_isdigit s =
     (case s of [] \<Rightarrow> Inr False
      | c # _ \<Rightarrow> if unat c < 256 then Inr (wdigit c) else Inl (Undefined Out_of_bounds))"

text \<open>\<open>_wtoi\<close> stops at the largest \<open>int\<close>.\<close>

definition wtoi :: "wstring \<Rightarrow> u32" where
  "wtoi s = of_nat (min (2 ^ 31 - 1)
     (foldl (\<lambda>v c. 10 * v + (unat c - 0x30)) 0 (takeWhile wdigit s)))"

text \<open>The first loop counts the percent signs.\<close>

function count_percent :: "wstring \<Rightarrow> nat" where
  "count_percent s =
     (case dropWhile (\<lambda>c. c \<noteq> percent) s of [] \<Rightarrow> 0 | _ # r \<Rightarrow> Suc (count_percent r))"
  by auto
termination
proof (relation "measure length")
  fix s c r assume "dropWhile (\<lambda>c. c \<noteq> percent) s = c # (r :: wstring)"
  then show "(r, s) \<in> measure length"
    using length_dropWhile_le [of "\<lambda>c. c \<noteq> percent" s] by simp
qed simp

declare count_percent.simps [simp del]

text \<open>\<open>while (isdigit(*++p));\<close>: how many digits are passed.\<close>

primrec pass_digits :: "wstring \<Rightarrow> nat outcome" where
  "pass_digits [] = Inr 0"
| "pass_digits (c # cs) =
     (if 256 \<le> unat c then Inl (Undefined Out_of_bounds)
      else if wdigit c then bind_out (pass_digits cs) (\<lambda>n. Inr (Suc n)) else Inr 0)"

text \<open>
  The second loop: \<open>p\<close> is the offset of \<open>pTempMessage\<close>, \<open>acc\<close> the starts, ends and identifiers
  found. At a percent sign that no digit follows nothing is advanced, so the loop goes on with
  the same offset; \<open>None\<close> is a loop that does not end.
\<close>

partial_function (option) find_params ::
  "wstring \<Rightarrow> nat \<Rightarrow> (nat \<times> nat \<times> u32) list \<Rightarrow> (nat \<times> nat \<times> u32) list outcome option" where
  "find_params msg p acc =
     (let q = p + length (takeWhile (\<lambda>c. c \<noteq> percent) (drop p msg)) in
      if length msg \<le> q then Some (Inr acc)
      else (case c_isdigit (drop (q + 1) msg) of
              Inl f \<Rightarrow> Some (Inl f)
            | Inr digit \<Rightarrow>
                (if \<not> digit then find_params msg q acc
                 else case pass_digits (drop (q + 2) msg) of
                   Inl f \<Rightarrow> Some (Inl f)
                 | Inr n \<Rightarrow>
                     find_params msg (q + 2 + n)
                       (acc @ [(q, q + 2 + n, wtoi (drop (q + 1) msg))]))))"

text \<open>The loop that fetches the parameter strings; \<open>None\<close> when one of them is missing.\<close>

fun fetch_params :: "'h notify_api \<Rightarrow> u32 list \<Rightarrow> wstring list option outcome" where
  "fetch_params api [] = Inr (Some [])"
| "fetch_params api (i # is) =
     bind_out (NotifyMessageString api i 0 []) (\<lambda>m.
       case m of
         None \<Rightarrow> Inr None
       | Some s \<Rightarrow>
           bind_out (fetch_params api is) (\<lambda>r. Inr (map_option (\<lambda>ss. s # ss) r)))"

text \<open>
  Copying into the new buffer: a copy that leaves no room for the NUL calls the handler for
  invalid parameters, which ends the process.
\<close>

definition bounded_copy :: "nat \<Rightarrow> wstring \<Rightarrow> wstring outcome" where
  "bounded_copy room s = (if length s < room then Inr s else Inl (Exit (- 1073740777)))"

fun build_final ::
  "wstring \<Rightarrow> (nat \<times> nat) list \<Rightarrow> wstring list \<Rightarrow> nat \<Rightarrow> nat \<Rightarrow> wstring \<Rightarrow> wstring outcome" where
  "build_final msg ((s, e) # ads) (param # params) room p out =
     bind_out (bounded_copy room (take (s - p) (drop p msg))) (\<lambda>seg.
       bind_out (bounded_copy (room - (s - p)) param) (\<lambda>par.
         build_final msg ads params (room - (s - p) - length par) e (out @ seg @ par)))"
| "build_final msg ads params room p out =
     bind_out (bounded_copy room (drop p msg)) (\<lambda>seg. Inr (out @ seg))"

text \<open>The pointer handed back: null, a new buffer, or the message itself.\<close>

datatype final_message = Final_null | Final_new wstring | Final_same

text \<open>
  \<open>ApplyParameterStringsToMessage\<close>. Its cleanup reads \<open>pParameters[i]\<close> whenever there is a
  percent sign, also when that array was never allocated.
\<close>

definition ApplyParameterStringsToMessage ::
  "'h notify_api \<Rightarrow> wstring \<Rightarrow> (u32 \<times> final_message) outcome option" where
  "ApplyParameterStringsToMessage api msg =
     (let n = count_percent msg; arr = 8 * n in
      if n = 0 then Some (Inr (ERROR_SUCCESS, Final_null))
      else if \<not> nt_malloc api ''pStartingAddresses'' arr
           \<or> \<not> nt_malloc api ''pEndingAddresses'' arr
           \<or> \<not> nt_malloc api ''pParameters'' arr
      then Some (Inl (Undefined Null_deref))
      else if \<not> nt_malloc api ''pParameterIDs'' arr
      then Some (Inr (ERROR_OUTOFMEMORY, Final_same))
      else (case find_params msg 0 [] of
              None \<Rightarrow> None
            | Some r \<Rightarrow> Some (bind_out r (\<lambda>found.
                bind_out (fetch_params api (map (\<lambda>t. snd (snd t)) found)) (\<lambda>ps.
                  case ps of
                    None \<Rightarrow> Inr (ERROR_INVALID_PARAMETER, Final_same)
                  | Some params \<Rightarrow>
                      (let room = length msg + length (concat params) + 1 in
                       if \<not> nt_malloc api ''pFinalMessage'' (2 * room)
                       then Inr (ERROR_OUTOFMEMORY, Final_same)
                       else bind_out
                              (build_final msg (map (\<lambda>t. (fst t, fst (snd t))) found) params room 0 [])
                              (\<lambda>out. Inr (ERROR_SUCCESS, Final_new out))))))))"

section \<open>Reading the log\<close>

text \<open>
  \<open>ReadRecord\<close>: its status and what \<open>pBuffer\<close> then points to, \<open>None\<close> being a buffer without a
  record. The status of a failed \<open>realloc\<close> is success.
\<close>

definition ReadRecord ::
  "'h notify_api \<Rightarrow> 'h \<Rightarrow> u32 \<Rightarrow> bool \<Rightarrow> (u32 \<times> eventlog_record option \<times> 'h) outcome" where
  "ReadRecord api h dwRecordNumber seek =
     (if \<not> nt_malloc api ''pBuffer'' 56 then Inl (Undefined Null_deref)
      else case nt_read api h seek dwRecordNumber 56 of
             (Read_record r, h') \<Rightarrow> Inr (ERROR_SUCCESS, Some r, h')
           | (Read_failed err needed, h') \<Rightarrow>
               (if err \<noteq> ERROR_INSUFFICIENT_BUFFER then Inr (err, None, h')
                else if \<not> nt_malloc api ''pTemp'' needed then Inr (ERROR_SUCCESS, None, h')
                else case nt_read api h' seek dwRecordNumber needed of
                       (Read_record r, h'') \<Rightarrow> Inr (ERROR_SUCCESS, Some r, h'')
                     | (Read_failed err' _, h'') \<Rightarrow> Inr (err', None, h'')))"

text \<open>\<open>GetLastRecordNumber\<close>: a sum of \<open>DWORD\<close>s, which wraps for an empty log numbered from 0.\<close>

definition GetLastRecordNumber :: "'h notify_api \<Rightarrow> 'h \<Rightarrow> u32 \<times> u32" where
  "GetLastRecordNumber api h =
     (case nt_oldest api h of
        Inl err \<Rightarrow> (err, 0)
      | Inr oldest \<Rightarrow>
          (case nt_number api h of
             Inl err \<Rightarrow> (err, 0)
           | Inr number \<Rightarrow> (ERROR_SUCCESS, oldest + number - 1)))"

definition SeekToLastRecord :: "'h notify_api \<Rightarrow> 'h \<Rightarrow> (u32 \<times> 'h) outcome" where
  "SeekToLastRecord api h =
     (let (status, last) = GetLastRecordNumber api h in
      if status \<noteq> ERROR_SUCCESS then Inr (status, h)
      else bind_out (ReadRecord api h last True) (\<lambda>(status', _, h'). Inr (status', h')))"

section \<open>Sending what was read\<close>

text \<open>
  The process: the static variables of the library and the packets handed to \<open>send\<close>, whose
  result is only printed.
\<close>

record notify_state =
  ny_statics :: statics
  ny_sent :: "byte list list"

definition sendPackage :: "env \<Rightarrow> message \<Rightarrow> notify_state \<Rightarrow> notify_state outcome" where
  "sendPackage en lp s =
     bind_out (toBytes en (ny_statics s) lp) (\<lambda>(_, buf, _). Inr (s\<lparr>ny_sent := ny_sent s @ [buf]\<rparr>))"

text \<open>
  The body of the loop of \<open>DumpNewRecords\<close> for one record. The package sent is a new
  \<open>LogPackage\<close> without events; category and message are converted and not used. \<open>LocalFree\<close> of
  the message comes before \<open>free\<close> of the final message.
\<close>

definition dump_record ::
  "'h notify_api \<Rightarrow> env \<Rightarrow> eventlog_record option \<Rightarrow> notify_state \<Rightarrow> notify_state outcome option" where
  "dump_record api en rec s =
     (case rec of
        None \<Rightarrow> Some (Inl (Undefined Uninit_read))
      | Some r \<Rightarrow>
          (case NotifyMessageString api (EventCategory r) 0 [] of
             Inl f \<Rightarrow> Some (Inl f)
           | Inr None \<Rightarrow> Some (Inl (Undefined Null_deref))
           | Inr (Some category) \<Rightarrow>
               (case NotifyMessageString api (EventID r) (NumStrings r) (record_strings r) of
                  Inl f \<Rightarrow> Some (Inl f)
                | Inr None \<Rightarrow> Some (Inr s)
                | Inr (Some message) \<Rightarrow>
                    (case ApplyParameterStringsToMessage api message of
                       None \<Rightarrow> None
                     | Some applied \<Rightarrow> Some (bind_out applied (\<lambda>(status, final).
                         let (log, st) = LogPackage False (ny_statics s) in
                         bind_out (sendPackage en log (s\<lparr>ny_statics := st\<rparr>)) (\<lambda>s'.
                           if final = Final_same then Inl (Undefined Double_free)
                           else Inr s')))))))"

text \<open>The loop, from the status and the buffer of the last read on.\<close>

partial_function (option) dump_loop ::
  "'h notify_api \<Rightarrow> env \<Rightarrow> u32 \<Rightarrow> eventlog_record option \<Rightarrow> 'h \<Rightarrow> notify_state
     \<Rightarrow> (u32 \<times> 'h \<times> notify_state) outcome option" where
  "dump_loop api en status rec h s =
     (if status = ERROR_HANDLE_EOF then Some (Inr (ERROR_SUCCESS, h, s))
      else (case dump_record api en rec s of
              None \<Rightarrow> None
            | Some (Inl f) \<Rightarrow> Some (Inl f)
            | Some (Inr s') \<Rightarrow>
                (case ReadRecord api h 0 False of
                   Inl f \<Rightarrow> Some (Inl f)
                 | Inr (status', rec', h') \<Rightarrow>
                     (if status' \<noteq> ERROR_SUCCESS \<and> status' \<noteq> ERROR_HANDLE_EOF
                      then Some (Inr (status', h', s'))
                      else dump_loop api en status' rec' h' s'))))"

definition DumpNewRecords ::
  "'h notify_api \<Rightarrow> env \<Rightarrow> 'h \<Rightarrow> notify_state \<Rightarrow> (u32 \<times> 'h \<times> notify_state) outcome option" where
  "DumpNewRecords api en h s =
     (case ReadRecord api h 0 False of
        Inl f \<Rightarrow> Some (Inl f)
      | Inr (status, rec, h') \<Rightarrow>
          (if status \<noteq> ERROR_SUCCESS \<and> status \<noteq> ERROR_HANDLE_EOF
           then Some (Inr (status, h', s))
           else dump_loop api en status rec h' s))"

section \<open>Setting up and waiting\<close>

text \<open>
  The results of the calls of \<open>init\<close>, a handle each (0 is null), and the module's handles. \<open>init\<close>
  returns nothing: after a failure the handles not yet set stay null.
\<close>

record init_results =
  in_resources :: int
  in_console :: int
  in_event :: int
  in_log :: int

record handles =
  g_hResources :: int
  h_console :: int
  h_notification :: int
  h_eventLog :: int

definition no_handles :: handles where
  "no_handles = \<lparr>g_hResources = 0, h_console = 0, h_notification = 0, h_eventLog = 0\<rparr>"

definition init ::
  "'h notify_api \<Rightarrow> init_results \<Rightarrow> 'h \<Rightarrow> handles \<Rightarrow> (handles \<times> 'h) outcome" where
  "init api r h st0 =
     (let st1 = st0\<lparr>g_hResources := in_resources r\<rparr>;
          st2 = st1\<lparr>h_console := in_console r\<rparr>;
          st3 = st2\<lparr>h_notification := in_event r\<rparr>;
          st4 = st3\<lparr>h_eventLog := in_log r\<rparr>
      in if in_resources r = 0 then Inr (st1, h)
         else if in_console r = - 1 then Inr (st2, h)
         else if in_event r = 0 then Inr (st3, h)
         else if in_log r = 0 then Inr (st4, h)
         else bind_out (SeekToLastRecord api h) (\<lambda>(_, h'). Inr (st4, h')))"

text \<open>
  \<open>begin\<close>: object 0 is the console, whose key test is commented out, object 1 the notification;
  any other result ends the loop, as does a dump that fails.
\<close>

partial_function (option) begin_loop ::
  "'h notify_api \<Rightarrow> env \<Rightarrow> 'h \<Rightarrow> notify_state \<Rightarrow> ('h \<times> notify_state) outcome option" where
  "begin_loop api en h s =
     (case nt_wait api h of (reason, h') \<Rightarrow>
        (if reason = 0 then begin_loop api en h' s
         else if reason = 1 then
           (case DumpNewRecords api en h' s of
              None \<Rightarrow> None
            | Some (Inl f) \<Rightarrow> Some (Inl f)
            | Some (Inr (status, h'', s')) \<Rightarrow>
                (if status \<noteq> ERROR_SUCCESS then Some (Inr (h'', s'))
                 else begin_loop api en (nt_reset api h'') s'))
         else Some (Inr (h', s))))"

text \<open>\<open>IsKeyEvent\<close>: the event types read from the console, or no result; 1 is \<open>KEY_EVENT\<close>.\<close>

definition IsKeyEvent :: "u32 list option \<Rightarrow> bool" where
  "IsKeyEvent rs = (case rs of None \<Rightarrow> False | Some types \<Rightarrow> list_ex (\<lambda>t. t = 1) types)"

end
