(* ===== verification/Notify_Properties.thy ===== *)
theory Notify_Properties
  imports Notify Sample_Env
begin

text \<open>
  What \<open>ApplyParameterStringsToMessage\<close> makes of a message, by comparison with a substitution
  defined on the text alone; for which messages it does not return; and what reading new records
  sends. Also the cut at the end of converted texts.
\<close>

section \<open>Parameter insertions in a text\<close>

text \<open>After the digits of an insertion the code may look at one unit more.\<close>

definition readable_next :: "wstring \<Rightarrow> bool" where
  "readable_next s \<longleftrightarrow> (case dropWhile wdigit s of [] \<Rightarrow> True | e # _ \<Rightarrow> unat e < 256)"

text \<open>Every percent sign starts an insertion.\<close>

function expandable :: "wstring \<Rightarrow> bool" where
  "expandable [] \<longleftrightarrow> True"
| "expandable (c # cs) \<longleftrightarrow>
     (if c \<noteq> percent then expandable cs
      else case cs of [] \<Rightarrow> False
        | d # ds \<Rightarrow> wdigit d \<and> readable_next ds \<and> expandable (dropWhile wdigit ds))"
  by pat_completeness auto
termination
  by (relation "measure length") (auto simp: length_dropWhile_le le_imp_less_Suc le_SucI)

text \<open>Reading from the left, a percent sign that starts no insertion comes before any unit the
  code cannot classify.\<close>

function stuck :: "wstring \<Rightarrow> bool" where
  "stuck [] \<longleftrightarrow> False"
| "stuck (c # cs) \<longleftrightarrow>
     (if c \<noteq> percent then stuck cs
      else case cs of [] \<Rightarrow> True
        | d # ds \<Rightarrow> unat d < 256 \<and>
            (wdigit d \<longrightarrow> readable_next ds \<and> stuck (dropWhile wdigit ds)))"
  by pat_completeness auto
termination
  by (relation "measure length") (auto simp: length_dropWhile_le le_imp_less_Suc le_SucI)

text \<open>The text with every insertion replaced.\<close>

function expand :: "(u32 \<Rightarrow> wstring) \<Rightarrow> wstring \<Rightarrow> wstring" where
  "expand f [] = []"
| "expand f (c # cs) =
     (if c \<noteq> percent then c # expand f cs else f (wtoi cs) @ expand f (dropWhile wdigit cs))"
  by pat_completeness auto
termination
  by (relation "measure (length \<circ> snd)") (auto simp: length_dropWhile_le le_imp_less_Suc)

text \<open>Where the insertions are and which messages they name.\<close>

function insertions :: "wstring \<Rightarrow> nat \<Rightarrow> (nat \<times> nat \<times> u32) list" where
  "insertions [] p = []"
| "insertions (c # cs) p =
     (if c \<noteq> percent then insertions cs (p + 1)
      else (p, p + 1 + length (takeWhile wdigit cs), wtoi cs)
           # insertions (dropWhile wdigit cs) (p + 1 + length (takeWhile wdigit cs)))"
  by pat_completeness auto
termination
  by (relation "measure (length \<circ> fst)") (auto simp: length_dropWhile_le le_imp_less_Suc)

lemma count_percent_zero: "count_percent s = 0 \<longleftrightarrow> percent \<notin> set s"
proof (cases "dropWhile (\<lambda>c. c \<noteq> percent) s")
  case Nil
  then have "percent \<notin> set s" by (auto simp: dropWhile_eq_Nil_conv)
  moreover have "count_percent s = 0"
    by (subst count_percent.simps, subst Nil) simp
  ultimately show ?thesis by simp
next
  case (Cons c r)
  then have "c = percent" using hd_dropWhile [of "\<lambda>c. c \<noteq> percent" s] by simp
  with Cons have "percent \<in> set s"
    using set_dropWhileD [of percent "\<lambda>c. c \<noteq> percent" s] by simp
  with Cons show ?thesis by (subst count_percent.simps) simp
qed

lemma wdigit_small: "wdigit c \<Longrightarrow> unat c < 256"
  by (simp add: wdigit_def)

lemma pass_digits_readable:
  "readable_next s \<Longrightarrow> pass_digits s = Inr (length (takeWhile wdigit s))"
  by (induction s) (auto simp: readable_next_def dest: wdigit_small)

lemma pass_digits_unreadable: "\<not> readable_next s \<Longrightarrow> pass_digits s = Inl (Undefined Out_of_bounds)"
  by (induction s) (auto simp: readable_next_def dest: wdigit_small)

lemma dropWhile_drop: "dropWhile P s = drop (length (takeWhile P s)) s"
  by (rule dropWhile_eq_drop)

text \<open>The loop passes over a unit that is no percent sign.\<close>

lemma find_params_skip:
  "c \<noteq> percent \<Longrightarrow> length pre = p \<Longrightarrow>
     find_params (pre @ c # s) p acc = find_params (pre @ c # s) (p + 1) acc"
  by (subst (1 2) find_params.simps) (simp add: Let_def)

lemma find_params_at_percent:
  assumes "length pre = p" and "unat d < 256"
  shows "find_params (pre @ percent # d # s) p acc =
    (if \<not> wdigit d then find_params (pre @ percent # d # s) p acc
     else case pass_digits s of Inl f \<Rightarrow> Some (Inl f)
       | Inr n \<Rightarrow> find_params (pre @ percent # d # s) (p + 2 + n)
           (acc @ [(p, p + 2 + n, wtoi (d # s))]))"
proof -
  have "drop (p + 1) (pre @ percent # d # s) = d # s" using assms by simp
  then show ?thesis
    using assms by (subst find_params.simps, cases "pass_digits s")
      (simp_all add: Let_def c_isdigit_def)
qed

lemma find_params_end: "length msg = p \<Longrightarrow> find_params msg p acc = Some (Inr acc)"
  by (subst find_params.simps) simp

lemma find_params_expandable:
  assumes "expandable s" and "length pre = p"
  shows "find_params (pre @ s) p acc = Some (Inr (acc @ insertions s p))"
  using assms
proof (induction s arbitrary: pre p acc rule: expandable.induct)
  case 1
  then show ?case by (simp add: find_params_end)
next
  case (2 c cs)
  show ?case
  proof (cases "c = percent")
    case False
    with 2(1) [of "pre @ [c]" "p + 1"] 2(3,4) show ?thesis
      by (simp add: find_params_skip)
  next
    case True
    with 2(3) obtain d ds where cs: "cs = d # ds" "wdigit d" "readable_next ds"
      "expandable (dropWhile wdigit ds)" by (auto split: list.splits)
    let ?n = "length (takeWhile wdigit ds)"
    let ?pre = "pre @ percent # d # takeWhile wdigit ds"
    have "find_params (?pre @ dropWhile wdigit ds) (p + 2 + ?n) (acc @ [(p, p + 2 + ?n, wtoi cs)])
        = Some (Inr ((acc @ [(p, p + 2 + ?n, wtoi cs)])
            @ insertions (dropWhile wdigit ds) (p + 2 + ?n)))"
      using True cs 2(4) by (intro 2(2) [OF _ cs(1)]) simp_all
    then show ?thesis
      using True cs 2(4) find_params_at_percent [of pre p d ds acc]
      by (simp add: wdigit_small pass_digits_readable)
  qed
qed

section \<open>Substitution\<close>

lemma expand_length:
  "length (expand f s) \<le> length s + length (concat (map (\<lambda>t. f (snd (snd t))) (insertions s p)))"
proof (induction f s arbitrary: p rule: expand.induct)
  case (2 f c cs)
  show ?case
  proof (cases "c = percent")
    case True
    with 2(2) [of "p + 1 + length (takeWhile wdigit cs)"] show ?thesis
      using length_dropWhile_le [of wdigit cs] by simp
  next
    case False
    with 2(1) [of "p + 1"] show ?thesis by simp
  qed
qed simp

lemma build_final_expand:
  assumes "length pre = p" and "k \<le> p"
    and "p - k + length s + length (concat (map (\<lambda>t. f (snd (snd t))) (insertions s p))) < room"
  shows "build_final (pre @ s) (map (\<lambda>t. (fst t, fst (snd t))) (insertions s p))
      (map (\<lambda>t. f (snd (snd t))) (insertions s p)) room k out
    = Inr (out @ drop k pre @ expand f s)"
  using assms
proof (induction f s arbitrary: pre p k room out rule: expand.induct)
  case (1 f)
  then show ?case by (simp add: bounded_copy_def)
next
  case (2 f c cs)
  show ?case
  proof (cases "c = percent")
    case False
    with 2(1) [of "pre @ [c]" "p + 1" k room out] 2(3-5) show ?thesis
      by (simp add: Suc_diff_le)
  next
    case True
    let ?n = "length (takeWhile wdigit cs)"
    let ?e = "p + 1 + ?n"
    let ?rest = "dropWhile wdigit cs"
    let ?room = "room - (p - k) - length (f (wtoi cs))"
    have cs: "takeWhile wdigit cs @ ?rest = cs" by simp
    have len: "length cs = ?n + length ?rest"
      using cs by (metis length_append)
    have room: "p - k + 1 + ?n + length ?rest + length (f (wtoi cs))
        + length (concat (map (\<lambda>t. f (snd (snd t))) (insertions ?rest ?e))) < room"
      using 2(5) True by (simp add: len)
    have "build_final ((pre @ c # takeWhile wdigit cs) @ ?rest)
        (map (\<lambda>t. (fst t, fst (snd t))) (insertions ?rest ?e))
        (map (\<lambda>t. f (snd (snd t))) (insertions ?rest ?e)) ?room ?e
        (out @ drop k pre @ f (wtoi cs))
      = Inr ((out @ drop k pre @ f (wtoi cs)) @ drop ?e (pre @ c # takeWhile wdigit cs)
          @ expand f ?rest)"
      using True 2(3) room by (intro 2(2)) simp_all
    moreover obtain j where "p = k + j" using 2(4) le_Suc_ex by blast
    ultimately show ?thesis
      using True 2(3,4) room by (simp add: bounded_copy_def)
  qed
qed

lemma fetch_params_known:
  "\<forall>i \<in> set is. nt_format api No_array i = Some (f i) \<Longrightarrow>
     fetch_params api is = Inr (Some (map f is))"
  by (induction "is") (simp_all add: NotifyMessageString_def)

text \<open>C22. When every percent sign of a message starts an insertion, the messages named exist and
  memory is available, the function returns a new buffer with exactly the text in which every
  insertion is replaced; the buffer is never too small and no run time check fails.\<close>

theorem parameters_substituted:
  assumes "\<And>v n. nt_malloc api v n"
    and "percent \<in> set msg" and "expandable msg"
    and "\<forall>(_, _, i) \<in> set (insertions msg 0). nt_format api No_array i = Some (f i)"
  shows "ApplyParameterStringsToMessage api msg
    = Some (Inr (ERROR_SUCCESS, Final_new (expand f msg)))"
proof -
  let ?ids = "map (\<lambda>t. snd (snd t)) (insertions msg 0)"
  have "fetch_params api ?ids = Inr (Some (map f ?ids))"
    using assms(4) by (intro fetch_params_known) auto
  moreover have "find_params msg 0 [] = Some (Inr (insertions msg 0))"
    using find_params_expandable [OF assms(3), of "[]" 0 "[]"] by simp
  ultimately show ?thesis
    using assms(1,2) build_final_expand [of "[]" 0 0 msg f _ "[]"]
    by (simp add: ApplyParameterStringsToMessage_def count_percent_zero comp_def Let_def)
qed

text \<open>A message that has to be looked up and is missing makes the result the message itself.\<close>

lemma fetch_params_missing:
  "i \<in> set is \<Longrightarrow> nt_format api No_array i = None \<Longrightarrow> fetch_params api is = Inr None"
  by (induction "is") (auto simp: NotifyMessageString_def split: option.splits)

section \<open>Messages that keep the loop going\<close>

lemma stuck_dropWhile [simp]: "stuck (dropWhile (\<lambda>c. c \<noteq> percent) s) = stuck s"
  by (induction s) simp_all

lemma stuck_loops:
  assumes "find_params msg p acc = Some r"
  shows "\<not> stuck (drop p msg)"
proof (rule find_params.raw_induct [where P = "\<lambda>msg p acc r. \<not> stuck (drop p msg)", OF _ assms])
  fix f :: "wstring \<Rightarrow> nat \<Rightarrow> (nat \<times> nat \<times> u32) list \<Rightarrow> (nat \<times> nat \<times> u32) list outcome option"
    and msg p acc r
  assume IH: "\<And>msg p acc r. f msg p acc = Some r \<Longrightarrow> \<not> stuck (drop p msg)"
  let ?q = "p + length (takeWhile (\<lambda>c. c \<noteq> percent) (drop p msg))"
  assume step: "(let q = ?q in
      if length msg \<le> q then Some (Inr acc)
      else (case c_isdigit (drop (q + 1) msg) of
              Inl e \<Rightarrow> Some (Inl e)
            | Inr digit \<Rightarrow>
                (if \<not> digit then f msg q acc
                 else case pass_digits (drop (q + 2) msg) of
                   Inl e \<Rightarrow> Some (Inl e)
                 | Inr n \<Rightarrow>
                     f msg (q + 2 + n) (acc @ [(q, q + 2 + n, wtoi (drop (q + 1) msg))])))) = Some r"
  show "\<not> stuck (drop p msg)"
  proof
    assume "stuck (drop p msg)"
    then have stuck: "stuck (drop ?q msg)"
      using stuck_dropWhile [of "drop p msg"] by (simp add: dropWhile_drop add.commute)
    then have inside: "\<not> length msg \<le> ?q" by auto
    have "drop ?q msg = dropWhile (\<lambda>c. c \<noteq> percent) (drop p msg)"
      by (simp add: dropWhile_drop add.commute)
    with inside hd_dropWhile [of "\<lambda>c. c \<noteq> percent" "drop p msg"]
    have "drop ?q msg \<noteq> []" and "hd (drop ?q msg) = percent"
      by (metis drop_eq_Nil, metis drop_eq_Nil)
    then obtain cs where q: "drop ?q msg = percent # cs"
      by (metis list.collapse)
    have shift: "drop (?q + m) msg = drop m (percent # cs)" for m
      unfolding q [symmetric] by (simp only: drop_drop add.commute)
    have rest: "drop (?q + 1) msg = cs" "drop (?q + 2) msg = tl cs"
      using shift [of 1] shift [of 2] by (simp_all add: drop_Suc numeral_2_eq_2)
    have rest3: "drop (?q + 2 + n) msg = drop n (tl cs)" for n
      using shift [of "2 + n"] by (simp add: drop_Suc add.assoc)
    show False
    proof (cases cs)
      case Nil
      with step inside rest(1) have "f msg ?q acc = Some r" by (simp add: Let_def c_isdigit_def)
      with IH stuck show False by blast
    next
      case (Cons d ds)
      show False
      proof (cases "wdigit d")
        case True
        with stuck q Cons have ds: "readable_next ds" "stuck (dropWhile wdigit ds)" by auto
        let ?n = "length (takeWhile wdigit ds)"
        have "f msg (?q + 2 + ?n) (acc @ [(?q, ?q + 2 + ?n, wtoi cs)]) = Some r"
          using step inside rest Cons True ds(1)
          by (simp add: Let_def c_isdigit_def wdigit_small pass_digits_readable)
        then have "\<not> stuck (drop (?q + 2 + ?n) msg)" by (rule IH)
        with rest3 [of ?n] ds(2) Cons show False by (simp add: dropWhile_drop)
      next
        case False
        with stuck q Cons step inside rest(1) have "f msg ?q acc = Some r"
          by (simp add: Let_def c_isdigit_def)
        with IH stuck show False by blast
      qed
    qed
  qed
qed

lemma not_stuck_returns:
  assumes "\<not> stuck s" and "length pre = p"
  shows "\<exists>r. find_params (pre @ s) p acc = Some r"
  using assms
proof (induction s arbitrary: pre p acc rule: stuck.induct)
  case 1
  then show ?case by (simp add: find_params_end)
next
  case (2 c cs)
  show ?case
  proof (cases "c = percent")
    case False
    with 2(1) [of "pre @ [c]" "p + 1"] 2(3,4) show ?thesis by (simp add: find_params_skip)
  next
    case True
    with 2(3) obtain d ds where cs: "cs = d # ds" by (auto split: list.splits)
    show ?thesis
    proof (cases "unat d < 256")
      case False
      with True cs 2(4) show ?thesis
        by (subst find_params.simps) (simp add: Let_def c_isdigit_def)
    next
      case small: True
      with True 2(3) cs have "wdigit d" by auto
      show ?thesis
      proof (cases "readable_next ds")
        case False
        with small True cs 2(4) \<open>wdigit d\<close> show ?thesis
          using find_params_at_percent [of pre p d ds acc] by (simp add: pass_digits_unreadable)
      next
        case readable: True
        let ?n = "length (takeWhile wdigit ds)"
        have "\<exists>r. find_params ((pre @ percent # d # takeWhile wdigit ds) @ dropWhile wdigit ds)
            (p + 2 + ?n) (acc @ [(p, p + 2 + ?n, wtoi cs)]) = Some r"
          using True cs 2(3,4) small readable \<open>wdigit d\<close>
          by (intro 2(2) [OF _ cs]) simp_all
        with small readable True cs 2(4) \<open>wdigit d\<close> show ?thesis
          using find_params_at_percent [of pre p d ds acc] by (simp add: pass_digits_readable)
      qed
    qed
  qed
qed

text \<open>C39. With memory available the function returns for exactly the messages that are not stuck:
  a percent sign without a digit behind it is found again and again.\<close>

theorem percent_without_digit_never_returns:
  assumes "\<And>v n. nt_malloc api v n"
  shows "ApplyParameterStringsToMessage api msg = None \<longleftrightarrow> stuck msg"
proof -
  have "stuck msg \<Longrightarrow> percent \<in> set msg"
    by (induction msg rule: stuck.induct) (auto split: if_splits)
  moreover have "find_params msg 0 [] = None \<longleftrightarrow> stuck msg"
    using stuck_loops [of msg 0 "[]"] not_stuck_returns [of msg "[]" 0 "[]"]
    by (cases "find_params msg 0 []") auto
  ultimately show ?thesis
    using assms by (auto simp: ApplyParameterStringsToMessage_def count_percent_zero Let_def
      split: option.splits)
qed

section \<open>The cut at the end of a text\<close>

text \<open>The cut takes the line ends off, and the last character before them with them.\<close>

lemma cut_line_end_drops_character:
  assumes "set e \<subseteq> bad" and "c \<notin> bad"
  shows "cut_line_end bad (t @ c # e) = t"
proof -
  have "dropWhile (\<lambda>c. c \<in> bad) (rev e @ c # rev t) = c # rev t"
    using assms by (subst dropWhile_append2) auto
  then show ?thesis
    by (simp add: cut_line_end_def find_last_not_of_def)
qed

lemma cut_line_end_only_line_ends: "set e \<subseteq> bad \<Longrightarrow> cut_line_end bad e = e"
proof -
  assume "set e \<subseteq> bad"
  then have "dropWhile (\<lambda>c. c \<in> bad) (rev e) = []"
    by (auto simp: dropWhile_eq_Nil_conv)
  then show ?thesis by (simp add: cut_line_end_def find_last_not_of_def)
qed

lemma UnicodeToUTF8_drops_character:
  "set e \<subseteq> {0x0D, 0x0A} \<Longrightarrow> c \<notin> {0x0D, 0x0A} \<Longrightarrow> UnicodeToUTF8 api (t @ c # e) = nt_utf8 api t"
  unfolding UnicodeToUTF8_def by (simp only: cut_line_end_drops_character not_False_eq_True)

section \<open>New records\<close>

text \<open>A log from which some records can be read one after another, and then no more.\<close>

fun log_reads :: "'h notify_api \<Rightarrow> 'h \<Rightarrow> eventlog_record list \<Rightarrow> 'h \<Rightarrow> bool" where
  "log_reads api h [] h' \<longleftrightarrow> ReadRecord api h 0 False = Inr (ERROR_HANDLE_EOF, None, h')"
| "log_reads api h (r # rs) h' \<longleftrightarrow>
     (case ReadRecord api h 0 False of
        Inl f \<Rightarrow> False
      | Inr (status, rec, h1) \<Rightarrow>
          status = ERROR_SUCCESS \<and> rec = Some r \<and> log_reads api h1 rs h')"

definition message_of :: "'h notify_api \<Rightarrow> eventlog_record \<Rightarrow> wstring option outcome" where
  "message_of api r = NotifyMessageString api (EventID r) (NumStrings r) (record_strings r)"

text \<open>A record whose category and message are found, the message with its parameters.\<close>

definition record_formats :: "'h notify_api \<Rightarrow> eventlog_record \<Rightarrow> bool" where
  "record_formats api r \<longleftrightarrow>
     nt_format api No_array (EventCategory r) \<noteq> None
     \<and> (case message_of api r of
          Inr (Some m) \<Rightarrow> expandable m
            \<and> (\<forall>(_, _, i) \<in> set (insertions m 0). nt_format api No_array i \<noteq> None)
        | _ \<Rightarrow> False)"

definition send_empty_package :: "env \<Rightarrow> notify_state \<Rightarrow> notify_state outcome" where
  "send_empty_package en s =
     (let (log, st) = LogPackage False (ny_statics s) in sendPackage en log (s\<lparr>ny_statics := st\<rparr>))"

text \<open>The result of applying the parameters of a message that is complete.\<close>

lemma apply_complete:
  assumes "\<And>v n. nt_malloc api v n" and "expandable m"
    and "\<forall>(_, _, i) \<in> set (insertions m 0). nt_format api No_array i \<noteq> None"
  shows "\<exists>final. ApplyParameterStringsToMessage api m = Some (Inr (ERROR_SUCCESS, final))
    \<and> final \<noteq> Final_same"
proof (cases "percent \<in> set m")
  case True
  let ?f = "\<lambda>i. the (nt_format api No_array i)"
  have "fetch_params api (map (\<lambda>t. snd (snd t)) (insertions m 0))
      = Inr (Some (map ?f (map (\<lambda>t. snd (snd t)) (insertions m 0))))"
    using assms(3) by (intro fetch_params_known) auto
  moreover have "find_params m 0 [] = Some (Inr (insertions m 0))"
    using find_params_expandable [OF assms(2), of "[]" 0 "[]"] by simp
  ultimately show ?thesis
    using assms(1) True build_final_expand [of "[]" 0 0 m ?f _ "[]"]
    by (simp add: ApplyParameterStringsToMessage_def count_percent_zero comp_def Let_def)
next
  case False
  then show ?thesis
    using count_percent_zero [of m] by (simp add: ApplyParameterStringsToMessage_def)
qed

lemma dump_record_formats:
  assumes "\<And>v n. nt_malloc api v n" and "record_formats api r"
  shows "dump_record api en (Some r) s = Some (send_empty_package en s)"
proof -
  from assms(2) obtain c m where c: "nt_format api No_array (EventCategory r) = Some c"
    and m: "message_of api r = Inr (Some m)" and exp: "expandable m"
    and ids: "\<forall>(_, _, i) \<in> set (insertions m 0). nt_format api No_array i \<noteq> None"
    by (auto simp: record_formats_def split: sum.splits option.splits)
  from apply_complete [OF assms(1) exp ids] obtain final where
    "ApplyParameterStringsToMessage api m = Some (Inr (ERROR_SUCCESS, final))"
    "final \<noteq> Final_same" by blast
  with c m show ?thesis
    by (cases "sendPackage en (fst (LogPackage False (ny_statics s)))
          (s\<lparr>ny_statics := snd (LogPackage False (ny_statics s))\<rparr>)")
      (auto simp: dump_record_def NotifyMessageString_def message_of_def send_empty_package_def
        split: prod.splits)
qed

lemma dump_loop_reads:
  assumes "\<And>v n. nt_malloc api v n" and "\<forall>r \<in> set (r # rs). record_formats api r"
    and "log_reads api h rs h'"
  shows "dump_loop api en ERROR_SUCCESS (Some r) h s
    = Some (bind_out (fold_out (\<lambda>s r. send_empty_package en s) s (r # rs))
        (\<lambda>s'. Inr (ERROR_SUCCESS, h', s')))"
  using assms(2,3)
proof (induction rs arbitrary: r h s)
  case Nil
  have "dump_record api en (Some r) s = Some (send_empty_package en s)"
    using Nil by (intro dump_record_formats assms(1)) simp
  with Nil show ?case
    by (subst dump_loop.simps, cases "send_empty_package en s")
      (simp_all add: status_defs dump_loop.simps [of _ _ 38])
next
  case (Cons r' rs)
  have dump: "dump_record api en (Some r) s = Some (send_empty_package en s)"
    using Cons.prems by (intro dump_record_formats assms(1)) simp
  from Cons.prems(2) obtain h1 where read: "ReadRecord api h 0 False = Inr (ERROR_SUCCESS, Some r', h1)"
    and rest: "log_reads api h1 rs h'"
    by (auto split: sum.splits)
  show ?case
  proof (cases "send_empty_package en s")
    case (Inl f)
    with dump show ?thesis by (subst dump_loop.simps) (simp add: status_defs)
  next
    case (Inr s1)
    have "dump_loop api en ERROR_SUCCESS (Some r') h1 s1
        = Some (bind_out (fold_out (\<lambda>s r. send_empty_package en s) s1 (r' # rs))
            (\<lambda>s'. Inr (ERROR_SUCCESS, h', s')))"
      using Cons.prems by (intro Cons.IH rest) simp
    with Inr dump read show ?thesis by (subst dump_loop.simps) (simp add: status_defs)
  qed
qed

text \<open>C24. When memory can be allocated, the new records of a log can all be read and every one of them
  formats (its category, its message and the parameter messages that it names are found, and each
  percent sign in the message starts an insertion), then reading the new records comes to an end
  and sends one package per record, and every one of these packages is a log package without events:
  nothing that was read from the log is in it. For other records it need not end, and it can release
  memory twice.\<close>

theorem new_records_send_empty_packages:
  assumes "\<And>v n. nt_malloc api v n" and "log_reads api h rs h'"
    and "\<forall>r \<in> set rs. record_formats api r"
  shows "DumpNewRecords api en h s
    = Some (bind_out (fold_out (\<lambda>s r. send_empty_package en s) s rs)
        (\<lambda>s'. Inr (ERROR_SUCCESS, h', s')))"
proof (cases rs)
  case Nil
  with assms(2) show ?thesis
    by (simp add: DumpNewRecords_def dump_loop.simps status_defs)
next
  case (Cons r rs')
  with assms(2) obtain h1 where "ReadRecord api h 0 False = Inr (ERROR_SUCCESS, Some r, h1)"
    and "log_reads api h1 rs' h'" by (auto split: sum.splits)
  with dump_loop_reads [OF assms(1), of r rs' h1 h' en s] assms(3) Cons show ?thesis
    by (simp add: DumpNewRecords_def)
qed

text \<open>When the message of a record names a parameter message that does not exist, the final
  message is the message itself, which is released twice.\<close>

theorem missing_parameter_double_free:
  assumes "\<And>v n. nt_malloc api v n"
    and "log_reads api h (r # rs) h'" and "nt_format api No_array (EventCategory r) \<noteq> None"
    and "message_of api r = Inr (Some m)" and "expandable m"
    and "(p, e, i) \<in> set (insertions m 0)" and "nt_format api No_array i = None"
    and "send_empty_package en s = Inr s'"
  shows "DumpNewRecords api en h s = Some (Inl (Undefined Double_free))"
proof -
  have "insertions m p = [] \<longleftrightarrow> percent \<notin> set m" for p
    by (induction m p rule: insertions.induct) auto
  with assms(6) have "percent \<in> set m" by (metis empty_iff empty_set)
  moreover have "fetch_params api (map (\<lambda>t. snd (snd t)) (insertions m 0)) = Inr None"
    using assms(6,7) by (intro fetch_params_missing [of i]) force+
  moreover have "find_params m 0 [] = Some (Inr (insertions m 0))"
    using find_params_expandable [OF assms(5), of "[]" 0 "[]"] by simp
  ultimately have "ApplyParameterStringsToMessage api m
      = Some (Inr (ERROR_INVALID_PARAMETER, Final_same))"
    using assms(1) by (simp add: ApplyParameterStringsToMessage_def count_percent_zero Let_def)
  then have "dump_record api en (Some r) s = Some (Inl (Undefined Double_free))"
    using assms(3,4,8)
    by (auto simp: dump_record_def NotifyMessageString_def message_of_def send_empty_package_def
        split: prod.splits)
  moreover from assms(2) obtain h1 where "ReadRecord api h 0 False = Inr (ERROR_SUCCESS, Some r, h1)"
    by (auto split: sum.splits)
  ultimately show ?thesis
    by (simp add: DumpNewRecords_def status_defs dump_loop.simps)
qed

section \<open>A sample log\<close>

text \<open>
  A log is the list of the records left, each of 200 bytes; every category has a message, the
  message of event 7 is \<open>a%5c\<close> with the line end of a message, event 8 asks for the message 6
  that does not exist, and event 9 has a percent sign at its end.
\<close>

definition wide :: "string \<Rightarrow> wstring" where
  "wide s = map of_char s"

definition sample_format :: "inserts \<Rightarrow> u32 \<Rightarrow> wstring option" where
  "sample_format ins i =
     (if i = 5 then Some (wide ''bb'') else if i = 6 then None
      else if i = 7 then Some (wide ''a%5c'' @ [0x0D, 0x0A])
      else if i = 8 then Some (wide ''a%6c'')
      else if i = 9 then Some (wide ''99%'')
      else Some (wide ''x''))"

definition sample_read ::
  "eventlog_record list \<Rightarrow> bool \<Rightarrow> u32 \<Rightarrow> nat \<Rightarrow> log_read \<times> eventlog_record list" where
  "sample_read rs seek n bytes =
     (case rs of [] \<Rightarrow> (Read_failed ERROR_HANDLE_EOF 0, [])
      | r # rest \<Rightarrow> if bytes < 200 then (Read_failed ERROR_INSUFFICIENT_BUFFER 200, rs)
          else (Read_record r, rest))"

definition sample_notify :: "eventlog_record list notify_api" where
  "sample_notify = \<lparr>
     nt_malloc = (\<lambda>_ _. True), nt_format = sample_format,
     nt_utf8 = map (\<lambda>c. char_of (unat c)), nt_codecvt = (\<lambda>s. Some (map (\<lambda>c. char_of (unat c)) s)),
     nt_read = sample_read, nt_oldest = (\<lambda>_. Inr 1), nt_number = (\<lambda>rs. Inr (of_nat (length rs))),
     nt_wait = (\<lambda>rs. (2, rs)), nt_reset = id\<rparr>"

definition sample_record :: "u32 \<Rightarrow> eventlog_record" where
  "sample_record i = \<lparr>RecordNumber = 1, EventID = i, EventType = 4, NumStrings = 0,
     EventCategory = 1, record_strings = []\<rparr>"

lemma sample_log_reads: "log_reads sample_notify rs rs []"
  by (induction rs)
    (simp_all add: ReadRecord_def sample_notify_def sample_read_def status_defs)

lemma sample_malloc [simp]: "nt_malloc sample_notify v n"
  by (simp add: sample_notify_def)

lemma sample_format_simp [simp]: "nt_format sample_notify = sample_format"
  by (simp add: sample_notify_def)

lemma sample_message: "message_of sample_notify (sample_record i) = Inr (sample_format No_array i)"
  by (simp add: message_of_def NotifyMessageString_def sample_record_def)

lemmas text_simps = wide_def percent_def wdigit_def readable_next_def wtoi_def of_char_def

theorem parameters_substituted_witness:
  "ApplyParameterStringsToMessage sample_notify (wide ''a%5c'')
     = Some (Inr (ERROR_SUCCESS, Final_new (wide ''abbc'')))"
proof -
  have "ApplyParameterStringsToMessage sample_notify (wide ''a%5c'')
      = Some (Inr (ERROR_SUCCESS, Final_new (expand (\<lambda>_. wide ''bb'') (wide ''a%5c''))))"
    by (rule parameters_substituted) (simp_all add: text_simps sample_format_def)
  then show ?thesis by (simp add: text_simps)
qed

theorem percent_without_digit_never_returns_witness:
  "ApplyParameterStringsToMessage sample_notify (wide ''99%'') = None"
  using percent_without_digit_never_returns [of sample_notify "wide ''99%''"]
  by (simp add: text_simps)

lemma sample_toBytes_result: "\<exists>ok b m'. toBytes (sample_env nd pf) st m = Inr (ok, b, m')"
  by (auto simp: toBytes_def Compress_def sample_env_def Let_def split: prod.splits)

lemma sample_send:
  "\<exists>b st. send_empty_package (sample_env False Windows) s
    = Inr (s\<lparr>ny_statics := st, ny_sent := ny_sent s @ [b]\<rparr>)"
proof -
  obtain log st where "LogPackage False (ny_statics s) = (log, st)" by (rule prod.exhaust)
  moreover obtain ok b m where "toBytes (sample_env False Windows) st log = Inr (ok, b, m)"
    using sample_toBytes_result by blast
  ultimately show ?thesis
    by (auto simp: send_empty_package_def sendPackage_def)
qed

theorem new_records_send_empty_packages_witness:
  "\<exists>s'. DumpNewRecords sample_notify (sample_env False Windows) [sample_record 7]
      \<lparr>ny_statics = sample_statics, ny_sent = []\<rparr> = Some (Inr (ERROR_SUCCESS, [], s'))
    \<and> length (ny_sent s') = 1"
proof -
  let ?s = "\<lparr>ny_statics = sample_statics, ny_sent = []\<rparr>"
  have "record_formats sample_notify (sample_record 7)"
    by (simp add: record_formats_def sample_message sample_format_def) (simp add: text_simps sample_record_def)
  then have "DumpNewRecords sample_notify (sample_env False Windows) [sample_record 7] ?s
    = Some (bind_out (fold_out (\<lambda>s r. send_empty_package (sample_env False Windows) s) ?s
        [sample_record 7]) (\<lambda>s'. Inr (ERROR_SUCCESS, [], s')))"
    by (intro new_records_send_empty_packages sample_log_reads) simp_all
  moreover obtain b st where "send_empty_package (sample_env False Windows) ?s
      = Inr (?s\<lparr>ny_statics := st, ny_sent := ny_sent ?s @ [b]\<rparr>)"
    using sample_send by blast
  ultimately show ?thesis by simp
qed

theorem missing_parameter_double_free_witness:
  "DumpNewRecords sample_notify (sample_env False Windows) [sample_record 8]
     \<lparr>ny_statics = sample_statics, ny_sent = []\<rparr> = Some (Inl (Undefined Double_free))"
proof -
  let ?s = "\<lparr>ny_statics = sample_statics, ny_sent = []\<rparr>"
  obtain s' where "send_empty_package (sample_env False Windows) ?s = Inr s'"
    using sample_send by blast
  then show ?thesis
    by (rule missing_parameter_double_free [where m = "wide ''a%6c''" and i = 6 and p = 1 and e = 3,
          OF _ sample_log_reads, rotated -1])
      (simp_all add: sample_message sample_format_def, simp_all add: text_simps sample_record_def)
qed

end
