(* ===== verification/Client_Network.thy ===== *)
theory Client_Network
  imports Event_Forwarder
begin

text \<open>
  The rest of the client service: how the dispatcher comes by the address of the server
  (\<open>network.cpp\<close>), the single dispatcher and its services' threads (\<open>service.cpp\<close>), texts for
  error codes and conversions between character sets (\<open>utils.cpp\<close>), and the whole forwarding
  thread (\<open>event.cpp\<close>). Winsock, DNS and the message tables of Windows are parameters. Debug
  output is left out.
\<close>

section \<open>Text\<close>

text \<open>
  \<open>ws_system_message\<close> and \<open>ws_module_message\<close> are the two uses of \<open>FormatMessage\<close>, a text of
  at most 511 characters or none. \<open>ws_to_multi\<close> and \<open>ws_to_wide\<close> are \<open>WideCharToMultiByte\<close> and
  \<open>MultiByteToWideChar\<close>, \<open>ws_from_bytes\<close> the converter of the standard library; they fail with
  \<open>None\<close>. \<open>Dns_unset\<close> is a query that does not store a pointer, and \<open>Dns_record\<close> holds the name
  and the address of the first record of the answer.
\<close>

type_synonym wtext = "16 word list"

datatype dns_answer = Dns_unset | Dns_null | Dns_record wtext u32

record sockaddr_in =
  sin_family :: u16
  sin_port :: u16
  sin_addr :: u32

record winsock =
  ws_system_message :: "u32 \<Rightarrow> wtext option"
  ws_module_message :: "u32 \<Rightarrow> wtext option"
  ws_to_multi :: "wtext \<Rightarrow> string option"
  ws_to_wide :: "string \<Rightarrow> wtext option"
  ws_from_bytes :: "string \<Rightarrow> wtext option"
  ws_startup :: int
  ws_string_to_address :: "wtext \<Rightarrow> int \<times> int \<times> sockaddr_in"
  ws_dns_query :: "wtext \<Rightarrow> dns_answer"

definition WSAEINVAL :: int where "WSAEINVAL = 10022"
definition AF_INET :: u16 where "AF_INET = 2"

text \<open>
  The two \<open>Convert\<close> functions that return an array: the size comes from a first call, which
  counts the NUL and is 0 on failure; then the array is empty and has no NUL.
\<close>

definition Convert_to_multi :: "winsock \<Rightarrow> wtext \<Rightarrow> char list" where
  "Convert_to_multi ws t = (case ws_to_multi ws t of None \<Rightarrow> [] | Some s \<Rightarrow> s @ [CHR 0x00])"

definition Convert_to_wide :: "winsock \<Rightarrow> string \<Rightarrow> wtext" where
  "Convert_to_wide ws s = (case ws_to_wide ws s of None \<Rightarrow> [] | Some t \<Rightarrow> t @ [0])"

definition Convert_string :: "winsock \<Rightarrow> string \<Rightarrow> wtext outcome" where
  "Convert_string ws s =
     (case ws_from_bytes ws s of None \<Rightarrow> Inl (Uncaught Conversion_error) | Some t \<Rightarrow> Inr t)"

text \<open>
  \<open>StringCchCopy\<close> into a destination of \<open>n\<close> characters fits when the text and its NUL do;
  otherwise it copies what fits and its result, which only \<open>assert\<close> looks at, is an error.
\<close>

definition StringCchCopy :: "nat \<Rightarrow> wtext \<Rightarrow> bool \<times> wtext" where
  "StringCchCopy n t = (length t < n, take (n - 1) t)"

definition ParseSystemErrorCode :: "bool \<Rightarrow> winsock \<Rightarrow> u32 \<Rightarrow> wtext option outcome" where
  "ParseSystemErrorCode ndbg ws ec =
     (case ws_system_message ws ec of
        None \<Rightarrow> Inr None
      | Some msg \<Rightarrow>
          (let (ok, out) = StringCchCopy (length msg + 1) msg
           in bind_out (c_assert ndbg ok) (\<lambda>_. Inr (Some out))))"

text \<open>\<open>WSAErrorHandler\<close>: which of the three lines it writes.\<close>

datatype error_line = System_error wtext | WSA_error wtext | Not_found u32

definition WSAErrorHandler :: "bool \<Rightarrow> winsock \<Rightarrow> u32 \<Rightarrow> error_line outcome" where
  "WSAErrorHandler ndbg ws dwErr =
     bind_out (ParseSystemErrorCode ndbg ws dwErr) (\<lambda>m. Inr (
       case m of
         Some msg \<Rightarrow> System_error msg
       | None \<Rightarrow> (case ws_module_message ws dwErr of
                    Some msg \<Rightarrow> WSA_error msg | None \<Rightarrow> Not_found dwErr)))"

section \<open>The address of the server\<close>

text \<open>
  The parts of the dispatcher that connecting uses: the address and port it was made with, the
  socket address, the static \<open>wsInitlized\<close>, the number of cleanup functions registered with
  \<open>atexit\<close>, and the addresses handed to \<open>uv_tcp_connect\<close>.
\<close>

record connecting =
  ct_remoteAddress :: string
  ct_remotePort :: u16
  ct_sock :: sockaddr_in
  ct_wsInitlized :: bool
  ct_atexit :: nat
  ct_connects :: "sockaddr_in list"

definition no_address :: sockaddr_in where
  "no_address = \<lparr>sin_family = 0, sin_port = 0, sin_addr = 0\<rparr>"

definition new_connecting :: "string \<Rightarrow> u16 \<Rightarrow> bool \<Rightarrow> connecting" where
  "new_connecting address port ini = \<lparr>ct_remoteAddress = address, ct_remotePort = port,
     ct_sock = no_address, ct_wsInitlized = ini, ct_atexit = 0, ct_connects = []\<rparr>"

definition htons :: "u16 \<Rightarrow> u16" where
  "htons p = push_bit 8 p OR drop_bit 8 p"

text \<open>\<open>initNetworkHandler\<close> registers the cleanup also when starting Winsock has failed.\<close>

definition initNetworkHandler :: "bool \<Rightarrow> winsock \<Rightarrow> u32 \<Rightarrow> connecting \<Rightarrow> connecting outcome" where
  "initNetworkHandler ndbg ws err c =
     bind_out
       (if ws_startup ws = 0 then Inr (c\<lparr>ct_wsInitlized := True\<rparr>)
        else bind_out (WSAErrorHandler ndbg ws err) (\<lambda>_. Inr c)) (\<lambda>c'.
       Inr (c'\<lparr>ct_atexit := ct_atexit c' + 1\<rparr>))"

text \<open>The function registered, run once for each registration.\<close>

definition cleanup_network :: "connecting \<Rightarrow> connecting" where
  "cleanup_network c = (if ct_wsInitlized c then c\<lparr>ct_wsInitlized := False\<rparr> else c)"

text \<open>
  \<open>InitTCP\<close>. When the text is no address it is looked up; an answer whose first record has
  another name is not used, and the function returns before family and port are set. Any other
  error of the conversion is not looked at.
\<close>

definition InitTCP :: "bool \<Rightarrow> winsock \<Rightarrow> u32 \<Rightarrow> connecting \<Rightarrow> connecting outcome" where
  "InitTCP ndbg ws err c0 =
     bind_out (if ct_wsInitlized c0 then Inr c0 else initNetworkHandler ndbg ws err c0) (\<lambda>c1.
     let c2 = c1\<lparr>ct_sock := no_address\<rparr>;
         finish = (\<lambda>c. Inr (c\<lparr>ct_sock := (ct_sock c)\<lparr>sin_family := AF_INET,
                               sin_port := htons (ct_remotePort c)\<rparr>\<rparr>))
     in bind_out (Convert_string ws (ct_remoteAddress c2)) (\<lambda>address.
        let (status, lastError, parsed) = ws_string_to_address ws address;
            c3 = c2\<lparr>ct_sock := parsed\<rparr>
        in if status \<noteq> 0 \<and> lastError = WSAEINVAL
           then (case ws_dns_query ws address of
                   Dns_unset \<Rightarrow> Inl (Undefined Uninit_pointer)
                 | Dns_null \<Rightarrow> Inr c3
                 | Dns_record name ip \<Rightarrow>
                     (if address = name
                      then finish (c3\<lparr>ct_sock := (ct_sock c3)\<lparr>sin_addr := ip\<rparr>\<rparr>)
                      else Inr c3))
           else finish c3))"

text \<open>\<open>Connect\<close> returns true whatever became of the address.\<close>

definition Connect :: "bool \<Rightarrow> winsock \<Rightarrow> u32 \<Rightarrow> connecting \<Rightarrow> (bool \<times> connecting) outcome" where
  "Connect ndbg ws err c =
     bind_out (InitTCP ndbg ws err c) (\<lambda>c'.
       Inr (True, c'\<lparr>ct_connects := ct_connects c' @ [ct_sock c']\<rparr>))"

section \<open>The dispatcher object\<close>

text \<open>
  The static pointer to the dispatcher. Without arguments it is dereferenced, with an address and
  a port it is set on first use, and later arguments are ignored.
\<close>

definition GetHandlerDispatcher :: "'d option \<Rightarrow> 'd outcome" where
  "GetHandlerDispatcher p = (case p of None \<Rightarrow> Inl (Undefined Null_deref) | Some d \<Rightarrow> Inr d)"

definition GetHandlerDispatcher_for ::
  "(string \<Rightarrow> u16 \<Rightarrow> 'd) \<Rightarrow> string \<Rightarrow> u16 \<Rightarrow> 'd option \<Rightarrow> ('d option \<times> 'd) outcome" where
  "GetHandlerDispatcher_for new_dispatcher addr port p =
     (let p' = (if p = None then Some (new_dispatcher addr port) else p)
      in bind_out (GetHandlerDispatcher p') (\<lambda>d. Inr (p', d)))"

text \<open>
  \<open>StartThread\<close>: the thread handle and the stop handle of a service; the forwarder's thread is
  created suspended.
\<close>

datatype service_class = Forward_service | Other_service

definition GetThreadStartFlag :: "service_class \<Rightarrow> u32" where
  "GetThreadStartFlag k = (case k of Forward_service \<Rightarrow> 4 | Other_service \<Rightarrow> 0)"

definition StartThread :: "(u32 \<Rightarrow> nat) \<Rightarrow> service_class \<Rightarrow> nat \<Rightarrow> nat \<times> nat \<times> bool" where
  "StartThread create k stop_handle =
     (create (GetThreadStartFlag k), stop_handle, GetThreadStartFlag k = 0)"

text \<open>\<open>uvNetworkWriteCB\<close>: the buffer, the array and the request are released on either status.\<close>

record write_request =
  wr_base :: "byte list option"
  wr_bufs :: bool

definition uvNetworkWriteCB :: "int \<Rightarrow> write_request option \<Rightarrow> write_request option outcome" where
  "uvNetworkWriteCB status w =
     (case w of
        None \<Rightarrow> Inl (Undefined Use_after_free)
      | Some r \<Rightarrow> if wr_base r = None \<or> \<not> wr_bufs r then Inl (Undefined Double_free) else Inr None)"

section \<open>The forwarding thread\<close>

text \<open>
  What happens to the thread while \<open>Start\<close> runs: its subscription is signalled, or the loop makes a
  pass with a wait that fails or not and an answer of \<open>EvtNext\<close>.
\<close>

datatype thread_input = Signalled | Pass bool next_result

text \<open>
  \<open>Start\<close>: without a subscription it returns 1; otherwise its loop runs on the inputs of a list as
  long as the thread has not left it. At the end it closes the
  handles of a copy of the metadata map that it took before the first pass. The result is the
  return value (\<open>None\<close> while the thread still waits), the dispatcher and the handles closed.
\<close>

primrec start_rounds ::
    "'x client_host \<Rightarrow> nat \<Rightarrow> thread_input list \<Rightarrow> dispatcher \<Rightarrow> dispatcher outcome" where
  "start_rounds ch i [] d = Inr d"
| "start_rounds ch i (x # xs) d =
     (case x of
        Signalled \<Rightarrow> start_rounds ch i xs (signal_subscription i d)
      | Pass failed nr \<Rightarrow>
          if fw_thread (ds_services d ! i) = Running
          then bind_out (forward_pass ch failed nr i d) (start_rounds ch i xs)
          else Inr d)"

definition Start ::
    "'x client_host \<Rightarrow> bool \<Rightarrow> nat \<Rightarrow> thread_input list \<Rightarrow> dispatcher
       \<Rightarrow> (u32 option \<times> dispatcher \<times> nat list) outcome" where
  "Start ch subscribed i inputs d =
     (let copied = fw_metadata (ds_services d ! i);
          f = ds_services d ! i
      in if \<not> subscribed
         then Inr (Some 1, d\<lparr>ds_services := (ds_services d)[i := f\<lparr>fw_thread := Returned\<rparr>]\<rparr>, [])
         else bind_out (start_rounds ch i inputs d) (\<lambda>d'.
           Inr (if fw_thread (ds_services d' ! i) = Running then (None, d', [])
                else (Some 0, d', map snd copied))))"

text \<open>
  \<open>CheckLastEventID\<close>, which nothing calls: the package is serialised inside an assertion, so not at
  all when assertions are compiled out.
\<close>

definition CheckLastEventID :: "env \<Rightarrow> statics \<Rightarrow> statics outcome" where
  "CheckLastEventID en st =
     (let (q, st') = QueryLastEventPackage st in
      if ndebug en then Inr st'
      else bind_out (toBytes en st' q) (\<lambda>(status, _, _).
             bind_out (c_assert False status) (\<lambda>_. Inr st')))"

section \<open>Facts\<close>

text \<open>A text for an error code is complete, and the assertion on the copy never fails.\<close>

lemma ParseSystemErrorCode_total: "ParseSystemErrorCode ndbg ws ec = Inr (ws_system_message ws ec)"
  by (simp add: ParseSystemErrorCode_def StringCchCopy_def split: option.split)

lemma WSAErrorHandler_total: "\<exists>l. WSAErrorHandler ndbg ws e = Inr l"
  by (simp add: WSAErrorHandler_def ParseSystemErrorCode_total)

lemma initNetworkHandler_eq:
  "initNetworkHandler ndbg ws e c
    = Inr (c\<lparr>ct_wsInitlized := ws_startup ws = 0 \<or> ct_wsInitlized c, ct_atexit := ct_atexit c + 1\<rparr>)"
  using WSAErrorHandler_total [of ndbg ws e] by (auto simp: initNetworkHandler_def)

text \<open>
  An address in dotted form is used with the port in network order; so is one that the name server
  knows under the very name that was asked for.
\<close>

lemma InitTCP_cases:
  assumes "ct_wsInitlized c" and "ws_from_bytes ws (ct_remoteAddress c) = Some a"
    and "ws_string_to_address ws a = (status, e, parsed)"
  shows "InitTCP ndbg ws err c =
    (if status = 0 \<or> e \<noteq> WSAEINVAL
     then Inr (c\<lparr>ct_sock := parsed\<lparr>sin_family := AF_INET, sin_port := htons (ct_remotePort c)\<rparr>\<rparr>)
     else case ws_dns_query ws a of
            Dns_unset \<Rightarrow> Inl (Undefined Uninit_pointer)
          | Dns_null \<Rightarrow> Inr (c\<lparr>ct_sock := parsed\<rparr>)
          | Dns_record name ip \<Rightarrow>
              if a = name
              then Inr (c\<lparr>ct_sock := parsed\<lparr>sin_addr := ip, sin_family := AF_INET,
                                  sin_port := htons (ct_remotePort c)\<rparr>\<rparr>)
              else Inr (c\<lparr>ct_sock := parsed\<rparr>))"
  using assms by (auto simp: InitTCP_def Convert_string_def Let_def split: dns_answer.split)

text \<open>
  A name the server answers for under another name, as with every alias, is not used: the client
  connects to the cleared address of family 0 and reports success.
\<close>

lemma Connect_alias:
  assumes "ct_wsInitlized c" and "ws_from_bytes ws (ct_remoteAddress c) = Some a"
    and "ws_string_to_address ws a = (status, WSAEINVAL, no_address)" and "status \<noteq> 0"
    and "ws_dns_query ws a = Dns_record name ip" and "name \<noteq> a"
  shows "Connect ndbg ws err c
    = Inr (True, c\<lparr>ct_sock := no_address, ct_connects := ct_connects c @ [no_address]\<rparr>)"
  using InitTCP_cases [OF assms(1-3)] assms(4-6) by (simp add: Connect_def)

lemma GetHandlerDispatcher_for_twice:
  "GetHandlerDispatcher_for new_dispatcher a p None = Inr (q, d) \<Longrightarrow>
     GetHandlerDispatcher_for new_dispatcher a' p' q = Inr (q, d) \<and> d = new_dispatcher a p"
  by (auto simp: GetHandlerDispatcher_for_def GetHandlerDispatcher_def)

lemma cleanup_once: "cleanup_network (cleanup_network c) = cleanup_network c"
  by (simp add: cleanup_network_def)

end
