(* ===== verification/Processes.thy ===== *)
theory Processes
  imports Server_Properties Server_Config Machine_Properties Client_Network Notify
begin

text \<open>
  The programs: \<open>main\<close> of the server (\<open>ClientServiceServer.cpp\<close>) with the objects there is one of
  (\<open>uv.cpp\<close>, \<open>database.cpp\<close>) and the installation of signal handlers, and \<open>main\<close> of the notification
  client (\<open>ProtobufSendingTest.cpp\<close>) with the printing of messages (\<open>protobufLib.cpp\<close>). Both put
  the components of the other theories together in the order of the code. Log lines are left out.
\<close>

section \<open>The server process\<close>

text \<open>
  \<open>_SetupSignals\<close> with the success of \<open>sigaction\<close>, and \<open>SetupSignals\<close>, which does nothing on
  Windows: the handlers installed.
\<close>

datatype signal = SIGPIPE | SIGTERM

datatype handler = Pipe_handler | Term_handler

definition setup_signal ::
    "(signal \<Rightarrow> bool) \<Rightarrow> signal \<Rightarrow> handler \<Rightarrow> (signal \<times> handler) list \<Rightarrow> (signal \<times> handler) list" where
  "setup_signal sigaction sig func hs = (if sigaction sig then map_assign sig func hs else hs)"

definition SetupSignals ::
    "platform \<Rightarrow> (signal \<Rightarrow> bool) \<Rightarrow> (signal \<times> handler) list \<Rightarrow> (signal \<times> handler) list" where
  "SetupSignals pf sigaction hs =
     (case pf of
        Windows \<Rightarrow> hs
      | Unix \<Rightarrow> setup_signal sigaction SIGTERM Term_handler (setup_signal sigaction SIGPIPE Pipe_handler hs))"

text \<open>\<open>GetUVHandler\<close> creates the only \<open>UvHandler\<close> when it is first asked for.\<close>

definition GetUVHandler ::
    "bool \<Rightarrow> statics \<Rightarrow> 'db database \<Rightarrow> 'db server option \<Rightarrow> 'db server option \<times> 'db server" where
  "GetUVHandler raw st db p =
     (case p of None \<Rightarrow> (Some (new_server raw st db), new_server raw st db) | Some s \<Rightarrow> (Some s, s))"

text \<open>\<open>GetDatabase\<close> hands out the static pointer.\<close>

definition GetDatabase :: "'db database option \<Rightarrow> 'db database option" where
  "GetDatabase p = p"

text \<open>
  What \<open>main\<close> meets: the file and its JSON library, the attempts to connect, the machine, the
  statuses of the network calls, what the memory of \<open>dbConnected\<close> holds, and which calls of
  \<open>sigaction\<close> succeed.
\<close>

record 'doc world =
  w_file :: config_file
  w_json :: "'doc json_library"
  w_attempt :: "nat \<Rightarrow> attempt"
  w_machine :: machine_api
  w_addr :: int
  w_bind :: int
  w_listen :: int
  w_raw :: bool
  w_sigaction :: "signal \<Rightarrow> bool"

text \<open>
  The loop, as the list of what happens to the process while it runs; what cannot happen is passed
  over. A signal is delivered to its handler when that is installed and ends the process otherwise.
\<close>

fun event_signal :: "server_event \<Rightarrow> signal option" where
  "event_signal (Pipe_signal _) = Some SIGPIPE"
| "event_signal Term_signal = Some SIGTERM"
| "event_signal _ = None"

definition handled :: "(signal \<times> handler) list \<Rightarrow> server_event \<Rightarrow> bool" where
  "handled hs e =
     (case event_signal e of None \<Rightarrow> True | Some sig \<Rightarrow> map_find sig hs \<noteq> None)"

primrec UvLoopRun ::
    "'db host \<Rightarrow> (signal \<times> handler) list \<Rightarrow> server_event list \<Rightarrow> 'db server \<Rightarrow> 'db server outcome" where
  "UvLoopRun h hs [] s = Inr s"
| "UvLoopRun h hs (e # es) s =
     (if \<not> event_enabled e s then UvLoopRun h hs es s
      else if \<not> handled hs e then Inl Killed
      else bind_out (run_event h e s) (UvLoopRun h hs es))"

text \<open>
  \<open>main\<close>: the exit status, and the server object as it was when the loop ended, if it was started.
\<close>

definition server_main ::
    "'db host \<Rightarrow> 'doc world \<Rightarrow> statics \<Rightarrow> 'db \<Rightarrow> server_event list \<Rightarrow> (int \<times> 'db server option) outcome" where
  "server_main h w st0 d0 events =
     bind_out (ReadConfig (target (h_env h)) (w_json w) (w_file w)) (\<lambda>conf.
     bind_out (DB_Connect (h_px h) (ndebug (h_env h)) (w_attempt w)
                 (InitDatabase (cfg_connectionString conf) d0)) (\<lambda>(ok, _, db).
     if \<not> ok then Inr (0, None)
     else
       bind_out (initProtobufLibrary (h_env h) (w_machine w) st0) (\<lambda>st.
       let hs = SetupSignals (target (h_env h)) (w_sigaction w) [];
           (p, s0) = GetUVHandler (w_raw w) st db None
       in bind_out (SetupNetwork (w_addr w) (w_bind w) (w_listen w) s0) (\<lambda>s1.
          bind_out (UvLoopRun h hs events s1) (\<lambda>s2.
          bind_out (DestroyUvHandler s2) (\<lambda>_.
          bind_out (DestroyDatabase (sv_db s2)) (\<lambda>_. Inr (0, Some s2))))))))"

section \<open>The notification client\<close>

text \<open>
  \<open>operator<<\<close> for messages. \<open>op_name\<close> is the generated \<open>coreMessage_Operation_Name\<close>. A log
  package adds nothing, its own operator being commented out.
\<close>

definition print_CoreMessage :: "(pb_operation \<Rightarrow> string) \<Rightarrow> message \<Rightarrow> string outcome" where
  "print_CoreMessage op_name core =
     (case msg_osType core of
        None \<Rightarrow> Inl (Undefined Uninit_read)
      | Some os \<Rightarrow> Inr (''CoreMessage: id: '' @ dec_int (sint (msg_id core)) @ [CHR 0x09]
          @ ''Operation: '' @ op_name (dispatch_op_to_pb (msg_op core)) @ [CHR 0x09]
          @ ''Operation System: '' @ (if os = os_windows then ''Windows'' else ''Linux'') @ ''(''
          @ msg_osVersion core @ '')'' @ ''ClientName: '' @ msg_clientName core @ [CHR 0x0A]
          @ ''description: '' @ msg_description core @ [CHR 0x0A]
          @ ''TimeStamp: '' @ msg_timeStamp core @ [CHR 0x0A]))"

text \<open>\<open>parseFromIStream\<close> on the bytes that are left in the stream.\<close>

definition parseFromIStream ::
    "env \<Rightarrow> byte list \<Rightarrow> statics \<Rightarrow> (message option \<times> statics) outcome" where
  "parseFromIStream en is_bytes st =
     (case pb_parse en is_bytes of Some core \<Rightarrow> BuildObj en core st | None \<Rightarrow> Inr (None, st))"

text \<open>\<open>PrintCSBackupAPIErrorMessage\<close>: \<open>loaded\<close> tells whether the resource library can be loaded.\<close>

definition PrintCSBackupAPIErrorMessage :: "winsock \<Rightarrow> bool \<Rightarrow> u32 \<Rightarrow> wtext outcome" where
  "PrintCSBackupAPIErrorMessage ws loaded dwErr =
     (case ws_system_message ws dwErr of
        Some msg \<Rightarrow> Inr msg
      | None \<Rightarrow>
          (if \<not> loaded then Inl (Exit 1)
           else Inr (case ws_module_message ws dwErr of
                       Some msg \<Rightarrow> msg
                     | None \<Rightarrow> map (\<lambda>c. of_nat (of_char c)) ''Error message not found'')))"

definition generateMessage :: "statics \<Rightarrow> message \<times> statics" where
  "generateMessage st = LogPackage False st"

text \<open>
  \<open>main\<close>: the results of the network calls and the last error after a failed one. The socket is
  kept in an \<open>unsigned int\<close>. \<open>None\<close> is a run that does not end.
\<close>

record sending =
  sn_startup :: int
  sn_socket :: u32
  sn_connect :: int
  sn_error :: u32
  sn_loaded :: bool
  sn_init :: init_results

definition give_up :: "winsock \<Rightarrow> sending \<Rightarrow> int \<Rightarrow> 'a outcome" where
  "give_up ws sn code =
     bind_out (PrintCSBackupAPIErrorMessage ws (sn_loaded sn) (sn_error sn)) (\<lambda>_. Inl (Exit code))"

definition sending_main ::
    "(pb_operation \<Rightarrow> string) \<Rightarrow> winsock \<Rightarrow> 'h notify_api \<Rightarrow> env \<Rightarrow> machine_api \<Rightarrow> sending \<Rightarrow> 'h \<Rightarrow> statics
       \<Rightarrow> (int \<times> notify_state) outcome option" where
  "sending_main op_name ws api en machine sn h st0 =
     (case initProtobufLibrary en machine st0 of
        Inl f \<Rightarrow> Some (Inl f)
      | Inr st \<Rightarrow>
          (if sn_startup sn \<noteq> 0 then Some (give_up ws sn 1)
           else if \<not> sn_socket sn > 0 then Some (give_up ws sn 2)
           else if sn_connect sn = - 1 then Some (give_up ws sn 3)
           else (case init api (sn_init sn) h no_handles of
                   Inl f \<Rightarrow> Some (Inl f)
                 | Inr (_, h1) \<Rightarrow>
                     (case begin_loop api en h1 \<lparr>ny_statics = st, ny_sent = []\<rparr> of
                        None \<Rightarrow> None
                      | Some (Inl f) \<Rightarrow> Some (Inl f)
                      | Some (Inr (_, s)) \<Rightarrow>
                          (let (pc, st1) = generateMessage (ny_statics s) in
                           Some (bind_out (print_CoreMessage op_name pc) (\<lambda>_.
                             bind_out (sendPackage en pc (s\<lparr>ny_statics := st1\<rparr>)) (\<lambda>s'.
                               Inr (0, s')))))))))"

end
