(* ===== verification/Connection_Invariant.thy ===== *)
theory Connection_Invariant
  imports Server_Properties
begin

text \<open>
  Once \<open>Connect\<close> has returned there is a connection object, and no step of the server loses it,
  although a lost database leaves it closed.
\<close>

definition has_connection :: "'db database \<Rightarrow> bool" where
  "has_connection s \<longleftrightarrow> (\<exists>b. db_conn s = Conn_live b)"

lemma commit_work_connection: "commit_work px s tx = Inr s' \<Longrightarrow> db_conn s' = db_conn s"
  by (auto simp: commit_work_def split: option.splits)

lemma DB_InsertWindowsEvents_connection:
  assumes "DB_InsertWindowsEvents px c evts s = Inr (n, s')"
  shows "db_conn s' = db_conn s"
proof -
  obtain tx where "begin_work s = Inr tx"
    using assms by (cases "begin_work s") (simp_all add: DB_InsertWindowsEvents_def)
  from InsertWindowsEvents_eq [OF this, of px c evts] assms show ?thesis
    by (auto split: sum.splits if_splits simp: bind_out_Inr_iff dest: commit_work_connection)
qed

lemma GetAllClients_connection: "GetAllClients px ndbg s = Inr s' \<Longrightarrow> db_conn s' = db_conn s"
  by (auto simp: GetAllClients_def bind_out_Inr_iff dest: commit_work_connection)

lemma delete_conn_not_busy: "delete_conn c = Inr c' \<Longrightarrow> c' \<noteq> Conn_busy"
  by (cases c) auto

lemma connect_loop_not_busy:
  "connect_loop attempt time slept c = Inr (conn, k) \<Longrightarrow> time < 5 \<or> c \<noteq> Conn_busy \<Longrightarrow> conn \<noteq> Conn_busy"
proof (induction attempt time slept c arbitrary: conn k rule: connect_loop.induct)
  case (1 attempt time slept c)
  note step = "1.prems"(1) [unfolded connect_loop.simps [of attempt time slept c]]
  show ?case
  proof (cases "time < 5")
    case False
    with step "1.prems"(2) show ?thesis by simp
  next
    case True
    then consider "attempt time = Opens True" | "attempt time = Opens False" | "attempt time = Throws"
      by (metis attempt.exhaust)
    then show ?thesis
    proof cases
      case 1
      with step True show ?thesis by auto
    next
      case 2
      with step True have "connect_loop attempt (time + 1) slept (Conn_live False) = Inr (conn, k)" by simp
      with "1.IH"(2) [OF True 2] show ?thesis by simp
    next
      case 3
      with step True obtain c' where "delete_conn c = Inr c'"
        and "connect_loop attempt (time + 1) (slept + 2 ^ time) c' = Inr (conn, k)"
        by (auto simp: bind_out_Inr_iff)
      with "1.IH"(1) [OF True 3] delete_conn_not_busy show ?thesis by blast
    qed
  qed
qed

lemma prepare_statements_connection:
  "prepare_statements px s = Inr s' \<Longrightarrow> db_conn s' = db_conn s"
  by (auto simp: prepare_statements_def prepare_def bind_out_Inr_iff split: option.splits)

lemma DB_Connect_connection:
  assumes "DB_Connect px ndbg attempt s = Inr (ok, n, s')"
  shows "has_connection s'"
proof -
  obtain conn k where "connect_loop attempt 0 0 (db_conn s) = Inr (conn, k)"
    using assms by (cases "connect_loop attempt 0 0 (db_conn s)") (auto simp: DB_Connect_def)
  with assms connect_loop_not_busy [OF this] show ?thesis
    by (auto simp: DB_Connect_def Let_def bind_out_Inr_iff deref_conn_def has_connection_def
        dest!: GetAllClients_connection prepare_statements_connection split: connection.splits if_splits)
qed

lemma answer_connection: "answer h c mst s = Inr s' \<Longrightarrow> sv_db s' = sv_db s"
  by (drule answer_frame) auto

lemma set_client_db [simp]: "sv_db (set_client c cl s) = sv_db s"
  by (simp add: set_client_def)

lemma handle_message_connection:
  "handle_message h c cl ret s = Inr s' \<Longrightarrow> db_conn (sv_db s') = db_conn (sv_db s)"
  by (auto simp: handle_message_def bind_out_Inr_iff Let_def dest!: answer_connection GetClient_cache
      split: operation.splits option.splits if_splits)

lemma readFromNetwork_connection:
  "readFromNetwork h c buf s = Inr s' \<Longrightarrow> db_conn (sv_db s') = db_conn (sv_db s)"
  by (auto simp: readFromNetwork_def bind_out_Inr_iff Let_def split_def dest!: answer_connection
      handle_message_connection split: option.splits if_splits)

lemma run_work_connection:
  assumes "run_work h w s = Inr s'"
  shows "db_conn (sv_db s') = db_conn (sv_db s)"
proof -
  obtain c p where w: "w = (c, p)" by (cases w)
  from assms obtain cl d where "deref_client c s = Inr cl" "deref_dbclient h cl = Inr d"
    by (auto simp: run_work_def w bind_out_Inr_iff)
  with assms show ?thesis
    by (cases "DB_InsertWindowsEvents (h_px h) d (GetEvents p) (sv_db s)")
      (auto simp: run_work_def w Let_def split: if_splits dest!: answer_connection
        DB_InsertWindowsEvents_connection)
qed

lemma write_loop_connection: "write_loop s = Inr s' \<Longrightarrow> sv_db s' = sv_db s"
proof (induction s arbitrary: s' rule: write_loop.induct)
  case (1 s)
  from "1.prems" have "s' = s \<or> (\<exists>s1. 0 < length (sv_sending s) \<and> uv_write (sendq_front s) s = Inr s1
      \<and> write_loop (sendq_pop s\<lparr>sv_net := sv_net s1\<rparr>) = Inr s')"
    by (subst (asm) write_loop.simps) (auto split: sum.splits if_splits)
  with "1.IH" show ?case by (auto simp: sendq_pop_def)
qed

lemma async_Stop_connection:
  assumes "async_Stop s = Inr s'"
  shows "sv_db s' = sv_db s"
proof (rule fold_out_invariant [OF _ _ assms [unfolded async_Stop_def]])
  show "sv_db u = sv_db s" if "sv_db t = sv_db s" "stop_handle ho t = Inr u" for t u ho
    using that by (auto simp: stop_handle_def RemoveClient_def bind_out_Inr_iff split: option.splits)
qed simp

lemma SIGPIPEHandler_connection:
  assumes "SIGPIPEHandler h a s = Inr s'"
  shows "sv_db s' = sv_db s \<or> has_connection (sv_db s')"
proof -
  obtain b where b: "CheckConnectStatus (sv_db s) = Inr b"
    using assms(1) by (cases "CheckConnectStatus (sv_db s)") (simp_all add: SIGPIPEHandler_def)
  show ?thesis
  proof (cases b)
    case False
    with assms(1) b obtain ok n db where c: "DB_Connect (h_px h) (ndebug (h_env h)) a (sv_db s) = Inr (ok, n, db)"
      by (cases "DB_Connect (h_px h) (ndebug (h_env h)) a (sv_db s)") (auto simp: SIGPIPEHandler_def Let_def)
    have "sv_db s' = db"
      using assms(1) b c False by (cases ok) (auto simp: SIGPIPEHandler_def Let_def StopLoop_def)
    then show ?thesis using DB_Connect_connection [OF c] by simp
  qed (use assms b in \<open>auto simp: SIGPIPEHandler_def\<close>)
qed

text \<open>
  What a step does to the connection: it stays as it is, or it is a live one; and while another
  thread is in a transaction, a step that does not fail leaves the database layer alone.
\<close>

lemma run_event_connection:
  assumes "run_event h e s = Inr s'"
  shows "db_conn (sv_db s') = db_conn (sv_db s) \<or> has_connection (sv_db s')"
proof (cases e)
  case (New_connection st a)
  with assms show ?thesis
    by (auto simp: uvConnectCB_def AddClient_def Let_def bind_out_Inr_iff split: if_splits)
next
  case (Readable c r b)
  with assms show ?thesis
    by (auto simp: uvReadCB_def bind_out_Inr_iff Let_def split: read_result.splits if_splits
        dest: readFromNetwork_connection)
next
  case (Close_due c)
  with assms show ?thesis
    by (auto simp: uvCloseCB_def ClientDisconnect_def bind_out_Inr_iff split: if_splits)
next
  case (Pipe_signal a)
  with assms SIGPIPEHandler_connection show ?thesis by fastforce
qed (use assms in \<open>auto simp: async_WriteToNetwork_def SIGTERMHandler_def StopLoop_def has_connection_def
      dest: write_loop_connection async_Stop_connection run_work_connection\<close>)

lemma server_step_connection:
  assumes "server_step h s s'" and "has_connection (sv_db s)"
  shows "has_connection (sv_db s')"
  using assms run_event_connection by (fastforce elim: server_stepE simp: has_connection_def)

lemma server_reach_connection:
  "server_reach h s0 s \<Longrightarrow> has_connection (sv_db s0) \<Longrightarrow> has_connection (sv_db s)"
  by (induction rule: server_reach.induct) (auto dest: server_step_connection)

end
