(* ===== verification/Process_Properties.thy ===== *)
theory Process_Properties
  imports Processes Connection_Invariant
begin

text \<open>
  What the programs do as a whole: how the server ends without a database, what holds whenever it
  returns, how a signal ends it, and where the notification client stops.
\<close>

section \<open>The loop and the main function\<close>

text \<open>What the loop does is a run of the step relation.\<close>

lemma UvLoopRun_reach:
  "server_reach h s0 s \<Longrightarrow> UvLoopRun h hs es s = Inr s' \<Longrightarrow> server_reach h s0 s'"
proof (induction es arbitrary: s)
  case (Cons e es)
  show ?case
  proof (cases "event_enabled e s")
    case True
    with Cons.prems(2) obtain t where "run_event h e s = Inr t" and rest: "UvLoopRun h hs es t = Inr s'"
      by (auto simp: bind_out_Inr_iff split: if_splits)
    with True Cons.prems(1) have "server_reach h s0 t" by (blast intro: server_reach.more server_step.step)
    from this rest show ?thesis by (rule Cons.IH)
  next
    case False
    with Cons show ?thesis by simp
  qed
qed simp


lemma DestroyDatabase_connected: "has_connection s \<Longrightarrow> DestroyDatabase s = Inr ()"
  by (auto simp: has_connection_def DestroyDatabase_def)

lemma SetupNetwork_same: "SetupNetwork a b l s = Inr s' \<longleftrightarrow> l = 0 \<and> s' = s"
  by (auto simp: SetupNetwork_def)

text \<open>A server that has come as far as its loop.\<close>

definition started ::
    "'db host \<Rightarrow> 'doc world \<Rightarrow> statics \<Rightarrow> 'db \<Rightarrow> 'db server \<Rightarrow> bool" where
  "started h w st0 d0 s0 \<longleftrightarrow>
     (\<exists>conf n db st. ReadConfig (target (h_env h)) (w_json w) (w_file w) = Inr conf
       \<and> DB_Connect (h_px h) (ndebug (h_env h)) (w_attempt w)
           (InitDatabase (cfg_connectionString conf) d0) = Inr (True, n, db)
       \<and> initProtobufLibrary (h_env h) (w_machine w) st0 = Inr st \<and> w_listen w = 0
       \<and> s0 = new_server (w_raw w) st db)"

lemma started_main:
  assumes "started h w st0 d0 s0"
  shows "server_main h w st0 d0 events =
    bind_out (UvLoopRun h (SetupSignals (target (h_env h)) (w_sigaction w) []) events s0) (\<lambda>s.
      if sv_sending s \<noteq> [] then Inl (Undefined Use_after_free) else Inr (0, Some s))"
proof -
  obtain conf n db st where c: "ReadConfig (target (h_env h)) (w_json w) (w_file w) = Inr conf"
      "DB_Connect (h_px h) (ndebug (h_env h)) (w_attempt w) (InitDatabase (cfg_connectionString conf) d0) =
         Inr (True, n, db)"
      "initProtobufLibrary (h_env h) (w_machine w) st0 = Inr st" "w_listen w = 0"
    and s0: "s0 = new_server (w_raw w) st db"
    using assms by (auto simp: started_def)
  let ?hs = "SetupSignals (target (h_env h)) (w_sigaction w) []"
  have "has_connection (sv_db s)" if "UvLoopRun h ?hs events s0 = Inr s" for s
    using server_reach_connection [OF UvLoopRun_reach [OF server_reach.start that]]
      DB_Connect_connection [OF c(2)] by (simp add: s0) (simp add: new_server_def)
  then have fin: "UvLoopRun h ?hs events s0 = Inr s \<Longrightarrow> DestroyDatabase (sv_db s) = Inr ()" for s
    by (simp add: DestroyDatabase_connected)
  show ?thesis
    using c fin
    by (cases "UvLoopRun h ?hs events s0")
      (auto simp: server_main_def GetUVHandler_def SetupNetwork_def DestroyUvHandler_def s0)
qed

lemma main_started:
  assumes "server_main h w st0 d0 events = Inr (code, Some s)"
  shows "\<exists>s0. started h w st0 d0 s0"
  using assms
  by (auto simp: server_main_def started_def bind_out_Inr_iff Let_def GetUVHandler_def SetupNetwork_same
      split: if_splits)


text \<open>What \<open>Connect\<close> does at startup when no attempt gives an open connection.\<close>

lemma DB_Connect_never_open:
  assumes "\<And>t. t < 5 \<Longrightarrow> attempt t \<noteq> Opens True" and "db_conn s = Conn_null"
  shows "if deletes_twice attempt Conn_null 5 then DB_Connect px ndbg attempt s = Inl (Undefined Double_free)
    else if attempt 4 = Opens False then \<exists>n s'. DB_Connect px ndbg attempt s = Inr (False, n, s')
    else DB_Connect px ndbg attempt s =
      Inl (Undefined (if \<forall>t<5. attempt t = Throws then Null_deref else Use_after_free))"
proof -
  let ?c = "conn_before attempt Conn_null 5"
  have "attempt 4 = Opens False \<or> attempt 4 = Throws"
    using assms(1) [of 4] by (cases "attempt 4") auto
  then have c: "?c = (if attempt 4 = Opens False then Conn_live False
      else if \<forall>t<5. attempt t = Throws then Conn_null else Conn_deleted)"
    by (auto simp: conn_before_def)
  have "connect_loop attempt 0 0 Conn_null = (if deletes_twice attempt Conn_null 5
      then Inl (Undefined Double_free) else Inr (?c, seconds_slept attempt 5))"
    using connect_loop_upto [of 5 attempt Conn_null] assms(1) by (simp add: connect_loop.simps [of _ 5])
  then show ?thesis
    using c assms(2) by (auto simp: DB_Connect_def Let_def deref_conn_def)
qed

section \<open>Properties\<close>

text \<open>C40. A server that finds no open connection in its five attempts does not say so, and serves nobody.
  If two attempts in a row throw after one that gave a closed connection, that one is deleted twice.
  Otherwise the last attempt decides: when it gave a closed connection the process returns the exit
  status of success; when it threw, the process uses the pointer of the connection, which is null if
  all five attempts threw and deleted otherwise.\<close>

theorem server_main_without_database:
  assumes "ReadConfig (target (h_env h)) (w_json w) (w_file w) = Inr conf"
    and "\<And>t. t < 5 \<Longrightarrow> w_attempt w t \<noteq> Opens True"
  shows "server_main h w st0 d0 events =
    (if deletes_twice (w_attempt w) Conn_null 5 then Inl (Undefined Double_free)
     else if w_attempt w 4 = Opens False then Inr (0, None)
     else Inl (Undefined (if \<forall>t<5. w_attempt w t = Throws then Null_deref else Use_after_free)))"
proof -
  let ?db = "InitDatabase (cfg_connectionString conf) d0"
  have "db_conn ?db = Conn_null" by (simp add: InitDatabase_def)
  with assms(2) have "if deletes_twice (w_attempt w) Conn_null 5
    then DB_Connect (h_px h) (ndebug (h_env h)) (w_attempt w) ?db = Inl (Undefined Double_free)
    else if w_attempt w 4 = Opens False
    then \<exists>n s'. DB_Connect (h_px h) (ndebug (h_env h)) (w_attempt w) ?db = Inr (False, n, s')
    else DB_Connect (h_px h) (ndebug (h_env h)) (w_attempt w) ?db =
      Inl (Undefined (if \<forall>t<5. w_attempt w t = Throws then Null_deref else Use_after_free))"
    by (rule DB_Connect_never_open)
  with assms(1) show ?thesis by (auto simp: server_main_def split: if_splits)
qed

text \<open>C10. Whenever a server that was started returns, its exit status is 0, every packet it queued has
  been handed to the network, its clients are exactly those in its registry and the connection
  to the database still exists; a build with assertions has had no client at all.\<close>

theorem server_main_returns:
  assumes "server_main h w st0 d0 events = Inr (code, Some s)"
  shows "code = 0 \<and> sv_sending s = [] \<and> registry_inv s \<and> has_connection (sv_db s)
    \<and> (\<not> ndebug (h_env h) \<longrightarrow> sv_heap s = [])"
proof -
  obtain s0 where st: "started h w st0 d0 s0" using main_started [OF assms] by blast
  then obtain raw stt db where s0: "s0 = new_server raw stt db" and conn: "has_connection db"
    by (auto simp: started_def dest: DB_Connect_connection)
  have run: "UvLoopRun h (SetupSignals (target (h_env h)) (w_sigaction w) []) events s0 = Inr s"
    and "code = 0" "sv_sending s = []"
    using assms unfolding started_main [OF st] by (auto simp: bind_out_Inr_iff split: if_splits)
  have reach: "server_reach h s0 s" by (rule UvLoopRun_reach [OF server_reach.start run])
  moreover have "registry_inv s" using server_reach_inv [OF reach] by (simp add: s0)
  moreover have "has_connection (sv_db s)"
    using server_reach_connection [OF reach] conn by (simp add: s0) (simp add: new_server_def)
  moreover have "sv_heap s = []" if "\<not> ndebug (h_env h)"
    using assert_build_empty [OF reach [unfolded s0] that] .
  ultimately show ?thesis using \<open>code = 0\<close> \<open>sv_sending s = []\<close> by blast
qed


text \<open>
  The notification client: a package that was made and not received has no operating system, so
  printing it reads an uninitialised member. The program prints one when its loop ends, before the
  package is sent.
\<close>

lemma print_LogPackage: "print_CoreMessage op_name (fst (LogPackage ac st)) = Inl (Undefined Uninit_read)"
  by (simp add: print_CoreMessage_def constructor_defs)

lemma print_received:
  "BuildObj en core st = Inr (Some m, st') \<Longrightarrow> \<exists>text. print_CoreMessage op_name m = Inr text"
  by (auto simp: BuildObj_def copy_core_fields_def print_CoreMessage_def bind_out_Inr_iff Let_def split_def
      split: option.splits)

lemma sending_main_never_sends_last:
  assumes "initProtobufLibrary en machine st0 = Inr st" and "sn_startup sn = 0" and "sn_socket sn > 0"
    and "sn_connect sn \<noteq> - 1" and "init api (sn_init sn) h no_handles = Inr (hd0, h1)"
    and "begin_loop api en h1 \<lparr>ny_statics = st, ny_sent = []\<rparr> = Some (Inr (h2, s))"
  shows "sending_main op_name ws api en machine sn h st0 = Some (Inl (Undefined Uninit_read))"
  using assms print_LogPackage [of op_name False]
  by (simp add: sending_main_def generateMessage_def split_def Let_def)

section \<open>A sample run\<close>

definition sample_world :: "unit world" where
  "sample_world = \<lparr>w_file = sample_file,
     w_json = one_document False [(''host'', Json_string ''db''), (''username'', Json_string ''u''),
       (''password'', Json_other), (''port'', Json_int 5432)],
     w_attempt = (\<lambda>_. Opens True),
     w_machine = (sample_machine [] 2 8)\<lparr>uname_result := Some \<lparr>uts_nodename = ''srv'',
       uts_release = ''5.0'', uts_machine = ''x86_64'', uts_version = ''1''\<rparr>\<rparr>,
     w_addr = 0, w_bind = 0, w_listen = 0, w_raw = False, w_sigaction = (\<lambda>_. True)\<rparr>"


abbreviation no_tables :: sample_tables where
  "no_tables \<equiv> \<lparr>tab_clients = [], tab_events = []\<rparr>"

lemma sample_config: "\<exists>conf. ReadConfig Unix (w_json sample_world) (w_file sample_world) = Inr conf"
  by (simp add: sample_world_def ReadConfig_def read_config_file_def sample_file_def one_document_def
      c_str_def json_string_setting_def Let_def)

lemma sample_target [simp]: "target (h_env (sample_host nd raw)) = Unix"
  by (simp add: sample_host_def sample_env_def)

lemma sample_connects:
  "\<exists>db. DB_Connect sample_px nd (\<lambda>_. Opens True) (InitDatabase c no_tables) = Inr (True, 0, db)"
  by (simp add: DB_Connect_def connect_loop.simps InitDatabase_def Let_def deref_conn_def sample_px_def
      GetAllClients_def begin_work_def exec_sql_def sample_exec_def commit_work_def
      prepare_statements_ok)

lemma sample_started:
  "\<exists>st db. started (sample_host nd raw) sample_world sample_statics no_tables (new_server False st db)"
proof -
  obtain conf where c: "ReadConfig Unix (w_json sample_world) (w_file sample_world) = Inr conf"
    using sample_config by blast
  obtain db where db: "DB_Connect sample_px nd (\<lambda>_. Opens True)
      (InitDatabase (cfg_connectionString conf) no_tables) = Inr (True, 0, db)"
    using sample_connects by blast
  have "\<exists>st. initProtobufLibrary (sample_env nd Unix) (w_machine sample_world) sample_statics = Inr st"
    by (simp add: initProtobufLibrary_def sample_world_def getComputerName_def getOsVersion_def
        MachineID_def sample_env_def)
  moreover have "w_attempt sample_world = (\<lambda>_. Opens True)" "w_listen sample_world = 0"
      "w_raw sample_world = False" "h_px (sample_host nd raw) = sample_px"
      "ndebug (h_env (sample_host nd raw)) = nd" "h_env (sample_host nd raw) = sample_env nd Unix"
    by (simp_all add: sample_world_def sample_host_def sample_env_def)
  ultimately show ?thesis
    unfolding started_def using c db by (auto simp: sample_env_def)
qed

theorem server_main_without_database_witness:
  "server_main (sample_host False None) (sample_world\<lparr>w_attempt := \<lambda>_. Throws\<rparr>) sample_statics no_tables [] =
     Inl (Undefined Null_deref)
   \<and> server_main (sample_host False None) (sample_world\<lparr>w_attempt := \<lambda>_. Opens False\<rparr>) sample_statics
       no_tables [] = Inr (0, None)
   \<and> server_main (sample_host False None) (sample_world\<lparr>w_attempt := \<lambda>t. if t = 0 then Opens False else Throws\<rparr>)
       sample_statics no_tables [] = Inl (Undefined Double_free)"
proof -
  obtain conf where c: "ReadConfig Unix (w_json sample_world) (w_file sample_world) = Inr conf"
    using sample_config by blast
  have run: "server_main (sample_host False None) (sample_world\<lparr>w_attempt := a\<rparr>) sample_statics no_tables [] =
    (if deletes_twice a Conn_null 5 then Inl (Undefined Double_free)
     else if a 4 = Opens False then Inr (0, None)
     else Inl (Undefined (if \<forall>t<5. a t = Throws then Null_deref else Use_after_free)))"
    if "\<And>t. t < 5 \<Longrightarrow> a t \<noteq> Opens True" for a
    using server_main_without_database [of "sample_host False None" "sample_world\<lparr>w_attempt := a\<rparr>" conf] c that
    by simp
  have "\<not> deletes_twice (\<lambda>_. Opens False) Conn_null 5" by (simp add: deletes_twice_def)
  moreover have "deletes_twice (\<lambda>t. if t = 0 then Opens False else Throws) Conn_null 5"
    unfolding deletes_twice_def by (rule exI [of _ 2]) (auto simp: conn_before_def)
  ultimately show ?thesis
    using run [of "\<lambda>_. Throws"] run [of "\<lambda>_. Opens False"] run [of "\<lambda>t. if t = 0 then Opens False else Throws"]
      all_throw(1) [of 5 "\<lambda>_. Throws"]
    by simp
qed

theorem server_main_returns_witness:
  "\<exists>s. server_main (sample_host False None) sample_world sample_statics no_tables [] = Inr (0, Some s)
    \<and> has_connection (sv_db s) \<and> sv_heap s = []"
proof -
  obtain st db where "started (sample_host False None) sample_world sample_statics no_tables
      (new_server False st db)"
    using sample_started by blast
  from started_main [OF this, of "[]"]
  have "server_main (sample_host False None) sample_world sample_statics no_tables [] =
      Inr (0, Some (new_server False st db))"
    by (simp add: new_server_def)
  moreover from server_main_returns [OF this]
  have "has_connection (sv_db (new_server False st db)) \<and> sv_heap (new_server False st db) = []"
    by (simp add: sample_host_def sample_env_def)
  ultimately show ?thesis by blast
qed


end
