(* ===== verification/Library_Tests.thy ===== *)
theory Library_Tests
  imports Packet_Properties
begin

text \<open>
  The tests of the repository, \<open>ProtobufLibraryTest/test.cpp\<close>: random texts and packages, and the
  three test cases of encoder and decoder. A test case gives the outcomes of its expectations in
  order; they do not stop it. That the tests hold for all random choices is shown at the end.
\<close>

section \<open>Random data\<close>

text \<open>The random numbers drawn are \<open>r 0\<close>, \<open>r 1\<close>, and so on; \<open>n\<close> have been drawn so far.\<close>

type_synonym randoms = "nat \<Rightarrow> u32"

definition random_value :: "randoms \<Rightarrow> nat \<Rightarrow> u32 \<times> nat" where
  "random_value r n = (r n, n + 1)"

fun random_chars :: "randoms \<Rightarrow> nat \<Rightarrow> nat \<Rightarrow> string \<times> nat" where
  "random_chars r 0 n = ([], n)"
| "random_chars r (Suc t) n =
     (let (v, n1) = random_value r n; (s, n2) = random_chars r t n1
      in (char_of (unat (v mod 25) + 97) # s, n2))"

definition random_string :: "randoms \<Rightarrow> int \<Rightarrow> nat \<Rightarrow> string \<times> nat" where
  "random_string r len n =
     (let (actual_size, n1) =
        (if len \<le> 0 then (let (v, n1) = random_value r n in (10 + unat (v mod 10), n1))
         else (nat len, n))
      in random_chars r actual_size n1)"

text \<open>
  The loop of \<open>buildLargePackage\<close>. The order in which the last two arguments of the event are
  drawn is open in C++; here it is from left to right.
\<close>

fun add_random_events :: "randoms \<Rightarrow> nat \<Rightarrow> message \<Rightarrow> nat \<Rightarrow> message \<times> nat" where
  "add_random_events r 0 lp n = (lp, n)"
| "add_random_events r (Suc i) lp n =
     (let (xml, n1) = random_string r 20 n;
          (msg, n2) = random_string r 50 n1;
          (times, n3) = random_string r 10 n2;
          (f, n4) = random_string r 20 n3;
          (level, n5) = random_value r n4;
          (rid, n6) = random_value r n5
      in add_random_events r i (AddLogEvent (Event_number xml msg times f (level mod 5) rid) lp) n6)"

definition buildLargePackage :: "randoms \<Rightarrow> nat \<Rightarrow> statics \<Rightarrow> message \<times> statics \<times> nat" where
  "buildLargePackage r n st =
     (let (v, n1) = random_value r n;
          evts = v mod 50 + 50;
          (lp, st') = LogPackage False st;
          (p, n2) = random_string r 20 n1;
          (lp', n3) = add_random_events r (unat evts) (lp\<lparr>msg_description := p\<rparr>) n2
      in (lp', st', n3))"

section \<open>The test cases\<close>

definition encode1 :: "env \<Rightarrow> statics \<Rightarrow> bool list outcome" where
  "encode1 en st =
     (let (l, st1) = LogPackage False st in
      bind_out (toBytes en st1 l) (\<lambda>(_, buf, _).
      bind_out (decoder_read en st1 new_decoder buf) (\<lambda>(_, _, d).
        Inr [GetSize d = 1])))"

text \<open>The loop of \<open>encode2\<close>: the expectation in front of each byte, and the decoder at the end.\<close>

fun expect_waiting ::
    "env \<Rightarrow> statics \<Rightarrow> decoder \<Rightarrow> byte list \<Rightarrow> bool list \<Rightarrow> (bool list \<times> decoder) outcome" where
  "expect_waiting en st d [] es = Inr (es, d)"
| "expect_waiting en st d (b # bs) es =
     (let e = (GetSize d = 0) in
      bind_out (decoder_read en st d [b]) (\<lambda>(_, st', d').
        expect_waiting en st' d' bs (es @ [e])))"

definition encode2 :: "env \<Rightarrow> statics \<Rightarrow> bool list outcome" where
  "encode2 en st =
     (let (l, st1) = LogPackage False st in
      bind_out (toBytes en st1 l) (\<lambda>(_, buf, _).
      bind_out (expect_waiting en st1 new_decoder buf []) (\<lambda>(es, d).
        Inr (es @ [GetSize d = 1]))))"

text \<open>
  \<open>encode3\<close> sends two packages through one decoder, whole, cut at a random offset and byte by byte,
  with \<open>Reset\<close> in between. Sizes and offsets go through \<open>int\<close>: from \<open>2 ^ 31\<close> on they would be
  negative and the copies leave the array.
\<close>

definition encode3 :: "env \<Rightarrow> randoms \<Rightarrow> u32 \<Rightarrow> statics \<Rightarrow> bool list outcome" where
  "encode3 en r rd st =
     (let (p, st1, n1) = buildLargePackage r 0 st;
          (q, st2, n2) = buildLargePackage r n1 st1 in
      bind_out (toBytes en st2 p) (\<lambda>(_, buf1, _).
      bind_out (toBytes en st2 q) (\<lambda>(_, buf2, _).
      if 2 ^ 31 \<le> length buf1 then Inl (Undefined Out_of_bounds) else
      let buf3 = buf1 @ buf2 in
      bind_out (decoder_read en st2 new_decoder buf3) (\<lambda>(_, st3, d1).
      let d2 = Reset d1;
          offset = unat rd mod length buf3 in
      if 2 ^ 31 \<le> offset then Inl (Undefined Out_of_bounds) else
      bind_out (decoder_read en st3 d2 (take offset buf3)) (\<lambda>(_, st4, d3).
      bind_out (decoder_read en st4 d3 (drop offset buf3)) (\<lambda>(_, st5, d4).
      bind_out (fold_out (feed_decoder en) (st5, Reset d4) (map (\<lambda>b. [b]) buf3)) (\<lambda>(_, d5).
        Inr [GetSize d1 = 2, GetSize d4 = 2, GetSize d5 = 2])))))))"

section \<open>Facts\<close>

lemma random_chars_length: "length (fst (random_chars r t n)) = t"
  by (induction t arbitrary: n) (simp_all add: split_def Let_def)

lemma AddLogEvent_keeps:
  "wf_message m \<Longrightarrow> msg_op m = UPDATE_LOG \<Longrightarrow>
     wf_message (AddLogEvent e m) \<and> msg_op (AddLogEvent e m) = UPDATE_LOG"
  by (auto simp: wf_message_def AddLogEvent_def split: body.splits)

lemma add_random_events_log:
  "wf_message lp \<Longrightarrow> msg_op lp = UPDATE_LOG \<Longrightarrow>
     wf_message (fst (add_random_events r i lp n)) \<and> msg_op (fst (add_random_events r i lp n)) = UPDATE_LOG"
proof (induction i arbitrary: lp n)
  case (Suc i)
  then show ?case by (simp add: split_def Let_def AddLogEvent_keeps)
qed simp

lemma buildLargePackage_log:
  "wf_message (fst (buildLargePackage r n st)) \<and> receivable (msg_op (fst (buildLargePackage r n st)))"
proof -
  have lp: "wf_message (fst (LogPackage False st)\<lparr>msg_description := d\<rparr>)"
    "msg_op (fst (LogPackage False st)\<lparr>msg_description := d\<rparr>) = UPDATE_LOG" for d
    by (simp_all add: wf_message_def constructor_defs)
  show ?thesis
    using add_random_events_log [OF lp] by (simp add: buildLargePackage_def split_def Let_def receivable_def)
qed

lemma LogPackage_log:
  "wf_message (fst (LogPackage ac st)) \<and> receivable (msg_op (fst (LogPackage ac st)))"
  by (simp add: receivable_def wf_message_def constructor_defs)

text \<open>A decoder that is in no frame stays so over a \<open>Reset\<close> and over a read of nothing.\<close>

definition empty_handed :: "decoder \<Rightarrow> bool" where
  "empty_handed d \<longleftrightarrow> decoder_inv d \<and> pending d = []"

lemma empty_handed_fields:
  "empty_handed d \<Longrightarrow> compressSize d = 0 \<and> headerSize d = 0 \<and> ss_good (inbuf d)
     \<and> ss_data (inbuf d) = [] \<and> length (header_buffer d) = 40"
  by (auto simp: empty_handed_def decoder_inv_def pending_def unat_eq_0 split: if_splits)

lemma empty_handed_new [simp]: "empty_handed new_decoder"
  by (simp add: empty_handed_def decoder_inv_new)

lemma vec_new [simp]: "vec new_decoder = []"
  by (simp add: new_decoder_def)

lemma empty_handed_Reset: "empty_handed d \<Longrightarrow> empty_handed (Reset d) \<and> vec (Reset d) = []"
  by (drule empty_handed_fields) (simp add: empty_handed_def decoder_inv_def pending_def Reset_fields)

lemma read_nothing: "empty_handed d \<Longrightarrow> decoder_read en st d [] = Inr (None, st, d)"
  by (drule empty_handed_fields) (simp add: decoder_read_def numeral_3_eq_3 c_assert_def)

lemma feed_decoder_Inr:
  "feed_decoder en s data = Inr s' \<longleftrightarrow> (\<exists>x. decoder_read en (fst s) (snd s) data = Inr (x, s'))"
  by (cases "decoder_read en (fst s) (snd s) data") (auto simp: feed_decoder_def)

text \<open>Whole messages in any pieces, and in one or two reads.\<close>

abbreviation all_bytes :: "env \<Rightarrow> (statics \<times> message) list \<Rightarrow> byte list" where
  "all_bytes en sms \<equiv> concat (map (\<lambda>(st, m). sent_bytes en st m) sms)"

lemma feed_pieces:
  assumes "\<forall>s \<in> set sms. sendable en s" and "empty_handed d" and "vec d = []"
    and "[] \<notin> set chunks" and "chunks \<noteq> []" and "concat chunks = all_bytes en sms"
  shows "\<exists>st' d'. fold_out (feed_decoder en) (st, d) chunks = Inr (st', d')
    \<and> GetSize d' = length sms \<and> empty_handed d'"
proof -
  obtain ms st1 where c: "consume en st [] (all_bytes en sms) = Inr (st1, [] @ map Some ms, [])"
      and l: "list_all2 (\<lambda>(st, m) m'. delivered st m m') sms ms"
    using consume_all_sent [OF assms(1), of st "[]"] by blast
  have "map_sum id stream_of (fold_out (feed_decoder en) (st, d) chunks) =
      stream_feed en (stream_of (st, d)) (concat chunks)"
    using assms(2,4,5) by (intro wire.feed_concat) (simp_all add: empty_handed_def)
  then have "map_sum id stream_of (fold_out (feed_decoder en) (st, d) chunks) = Inr (st1, map Some ms, [])"
    using c assms(2,3,6) by (simp add: stream_feed_def stream_of_def empty_handed_def)
  then obtain st' d' where f: "fold_out (feed_decoder en) (st, d) chunks = Inr (st', d')"
      and "vec d' = map Some ms" "pending d' = []"
    by (cases "fold_out (feed_decoder en) (st, d) chunks") (auto simp: stream_of_def)
  moreover have "decoder_inv (snd (st', d'))"
  proof (rule fold_out_invariant [OF _ _ f])
    show "decoder_inv (snd s')" if "decoder_inv (snd s)" "c \<in> set chunks" "feed_decoder en s c = Inr s'"
      for s c s'
      using wire.feed_inv [OF that(1) _ that(3)] that(2) assms(4) by blast
  qed (use assms(2) in \<open>simp add: empty_handed_def\<close>)
  ultimately show ?thesis
    using list_all2_lengthD [OF l] by (simp add: GetSize_def empty_handed_def)
qed

lemma read_once:
  assumes "\<forall>s \<in> set sms. sendable en s" and "sms \<noteq> []" and "empty_handed d" and "vec d = []"
  shows "\<exists>x st' d'. decoder_read en st d (all_bytes en sms) = Inr (x, st', d')
    \<and> GetSize d' = length sms \<and> empty_handed d'"
  using read_sent [OF assms(1,2), of d st] assms(3,4) list_all2_lengthD
  by (fastforce simp: empty_handed_def GetSize_def)


text \<open>The loop of \<open>encode2\<close> from byte \<open>k\<close> on.\<close>

lemma expect_waiting_all:
  assumes "sendable en (stm, m)" and "decoder_inv d" and "vec d = []"
    and "pending d = take k (sent_bytes en stm m)" and "k < length (sent_bytes en stm m)"
  shows "\<exists>d'. expect_waiting en st d (drop k (sent_bytes en stm m)) es =
      Inr (es @ replicate (length (sent_bytes en stm m) - k) True, d') \<and> GetSize d' = 1"
  using assms(2-5)
proof (induction "length (sent_bytes en stm m) - k" arbitrary: k d st es)
  case (Suc i)
  let ?b = "sent_bytes en stm m"
  have cut: "drop k ?b = ?b ! k # drop (Suc k) ?b" and grow: "take k ?b @ [?b ! k] = take (Suc k) ?b"
    using Suc.prems(4) by (simp_all add: Cons_nth_drop_Suc take_Suc_conv_app_nth)
  have fed: "map_sum id stream_of (feed_decoder en (st, d) [?b ! k]) = consume en st [] (take (Suc k) ?b)"
    using wire.feed_step [of "(st, d)" "[?b ! k]" en] Suc.prems(1-3) grow
    by (simp add: stream_feed_def stream_of_def)
  show ?case
  proof (cases "Suc k < length ?b")
    case True
    from fed consume_sent_prefix [OF assms(1) True, of st "[]"] obtain x st' d' where
      r: "decoder_read en st d [?b ! k] = Inr (x, st', d')" "vec d' = []" "pending d' = take (Suc k) ?b"
      by (cases "decoder_read en st d [?b ! k]") (auto simp: feed_decoder_def stream_of_def)
    have "decoder_inv d'"
      using wire.feed_inv [of "(st, d)" "[?b ! k]" en "(st', d')"] Suc.prems(1) r(1)
      by (simp add: feed_decoder_def)
    moreover have "i = length ?b - Suc k" using Suc.hyps(2) by simp
    ultimately obtain e where "GetSize e = 1" and "expect_waiting en st' d' (drop (Suc k) ?b) (es @ [True]) =
        Inr ((es @ [True]) @ replicate i True, e)"
      using Suc.hyps(1) [of "Suc k" d' st' "es @ [True]"] r(2,3) True by blast
    then show ?thesis
      using r(1) Suc.prems(2) unfolding cut Suc.hyps(2) [symmetric] by (simp add: GetSize_def)
  next
    case False
    with Suc.prems(4) have last_byte: "Suc k = length ?b" by simp
    obtain m' st1 where "consume en st [] (?b @ []) = consume en st1 ([] @ [Some m']) []"
      using consume_sent [OF assms(1), of st "[]"] by blast
    with fed last_byte obtain x st' d' where
      "decoder_read en st d [?b ! k] = Inr (x, st', d')" "vec d' = [Some m']"
      by (cases "decoder_read en st d [?b ! k]") (auto simp: feed_decoder_def stream_of_def consume_wait)
    with Suc.prems(2) show ?thesis
      unfolding cut last_byte [symmetric] by (simp add: GetSize_def) (simp add: last_byte)
  qed
qed simp

text \<open>The three reads of \<open>encode3\<close>, on any whole messages.\<close>

lemma read_in_two:
  assumes "\<forall>s \<in> set sms. sendable en s" and "sms \<noteq> []" and "empty_handed d" and "vec d = []"
    and "k < length (all_bytes en sms)"
  shows "\<exists>x st1 d1 y st2 d2. decoder_read en st d (take k (all_bytes en sms)) = Inr (x, st1, d1)
    \<and> decoder_read en st1 d1 (drop k (all_bytes en sms)) = Inr (y, st2, d2)
    \<and> GetSize d2 = length sms \<and> empty_handed d2"
proof (cases "k = 0")
  case True
  with read_once [OF assms(1-4), of st] show ?thesis
    by (simp add: read_nothing [OF assms(3)])
next
  case False
  let ?b = "all_bytes en sms"
  have "?b \<noteq> []" using assms(5) by (metis list.size(3) not_less0)
  then have "[] \<notin> set [take k ?b, drop k ?b]"
    using False assms(5) by (simp del: concat_eq_Nil_conv add: not_le)
  then obtain st' d' where f: "fold_out (feed_decoder en) (st, d) [take k ?b, drop k ?b] = Inr (st', d')"
      and "GetSize d' = length sms" "empty_handed d'"
    using feed_pieces [OF assms(1,3,4), of "[take k ?b, drop k ?b]" st] by auto
  moreover from f obtain x st1 d1 y where "decoder_read en st d (take k ?b) = Inr (x, st1, d1)"
      "decoder_read en st1 d1 (drop k ?b) = Inr (y, st', d')"
    by (auto simp: feed_decoder_Inr bind_out_Inr_iff)
  ultimately show ?thesis by blast
qed


lemma toBytes_sent:
  "wire_ok en (snd (core_of_message en st m)) \<Longrightarrow>
     \<exists>b m'. toBytes en st m = Inr (b, sent_bytes en st m, m')"
  using sent_bytes_parts(1) by blast

lemma encode3_sent:
  assumes s: "sendable en (st2, p)" "sendable en (st2, q)"
    and "buildLargePackage r 0 st = (p, st1, n1)" and "buildLargePackage r n1 st1 = (q, st2, n2)"
    and len: "length (sent_bytes en st2 p) + length (sent_bytes en st2 q) < 2 ^ 31"
  shows "encode3 en r rd st = Inr [True, True, True]"
proof -
  let ?sms = "[(st2, p), (st2, q)]" and ?bs = "sent_bytes en st2 p @ sent_bytes en st2 q"
  let ?k = "unat rd mod length ?bs"
  have sms: "\<forall>s \<in> set ?sms. sendable en s" "?sms \<noteq> []" "all_bytes en ?sms = ?bs" using s by simp_all
  have k: "?k < length ?bs" using sent_bytes_nonempty [OF s(1)] by simp
  obtain x1 st3 d1 where r1: "decoder_read en st2 new_decoder ?bs = Inr (x1, st3, d1)"
      and d1: "GetSize d1 = 2" "empty_handed d1"
    using read_once [OF sms(1,2), of new_decoder st2] sms(3) by (auto simp: numeral_2_eq_2)
  obtain x2 st4 d3 x3 st5 d4 where r2: "decoder_read en st3 (Reset d1) (take ?k ?bs) = Inr (x2, st4, d3)"
      "decoder_read en st4 d3 (drop ?k ?bs) = Inr (x3, st5, d4)" and d4: "GetSize d4 = 2" "empty_handed d4"
    using read_in_two [OF sms(1,2), of "Reset d1" ?k st3] empty_handed_Reset [OF d1(2)] k sms(3)
    by (auto simp: numeral_2_eq_2)
  have "concat (map (\<lambda>b. [b]) ?bs) = ?bs" "map (\<lambda>b. [b]) ?bs \<noteq> []"
    using sent_bytes_nonempty [OF s(1)] by simp_all
  then obtain st6 d5 where r3: "fold_out (feed_decoder en) (st5, Reset d4) (map (\<lambda>b. [b]) ?bs) = Inr (st6, d5)"
      and d5: "GetSize d5 = 2"
    using feed_pieces [OF sms(1), of "Reset d4" "map (\<lambda>b. [b]) ?bs" st5] empty_handed_Reset [OF d4(2)] sms(3)
    by (auto simp: numeral_2_eq_2)
  obtain b b' m m' where "toBytes en st2 p = Inr (b, sent_bytes en st2 p, m)"
      "toBytes en st2 q = Inr (b', sent_bytes en st2 q, m')"
    using toBytes_sent s by (metis sendable_def fst_conv snd_conv)
  moreover have "\<not> 2 ^ 31 \<le> ?k" "\<not> 2 ^ 31 \<le> length (sent_bytes en st2 p)"
    using k len by simp_all
  ultimately show ?thesis
    unfolding encode3_def using assms(3,4) r1 r2 r3 d1(1) d4(1) d5
    by (simp add: Let_def del: map_append)
qed


section \<open>Properties\<close>

text \<open>C11. The tests of the repository hold, for all random numbers: every expectation of the three test
  cases is met in front of each byte and at the end, whichever texts and numbers of events are
  drawn and wherever the packages are cut.\<close>

theorem library_tests_pass:
  assumes "LogPackage False st = (l, st0)"
    and "buildLargePackage r 0 st = (p, st1, n1)" and "buildLargePackage r n1 st1 = (q, st2, n2)"
    and "\<forall>(s, m) \<in> {(st0, l), (st2, p), (st2, q)}.
      wire_ok en (snd (core_of_message en s m)) \<and> length (sent_bytes en s m) < 2 ^ 30"
  shows "encode1 en st = Inr [True]
    \<and> encode2 en st = Inr (replicate (length (sent_bytes en st0 l) + 1) True)
    \<and> encode3 en r rd st = Inr [True, True, True]"
proof -
  have ok: "sendable en (st0, l)" "sendable en (st2, p)" "sendable en (st2, q)"
    using assms(4) LogPackage_log [of False st] buildLargePackage_log [of r 0 st]
      buildLargePackage_log [of r n1 st1] assms(1-3)
    by (simp_all add: sendable_def)
  obtain b m where l: "toBytes en st0 l = Inr (b, sent_bytes en st0 l, m)"
    using toBytes_sent [of en st0 l] assms(4) by auto
  obtain x st' d' where "decoder_read en st0 new_decoder (sent_bytes en st0 l) = Inr (x, st', d')" "GetSize d' = 1"
    using read_once [of "[(st0, l)]" en new_decoder st0] ok(1) by auto
  then have "encode1 en st = Inr [True]" using l assms(1) by (simp add: encode1_def)
  moreover obtain e where "expect_waiting en st0 new_decoder (sent_bytes en st0 l) [] =
      Inr (replicate (length (sent_bytes en st0 l)) True, e)" "GetSize e = 1"
    using expect_waiting_all [OF ok(1) decoder_inv_new(1), of 0 st0 "[]"] sent_bytes_nonempty [OF ok(1)]
    by (auto simp: decoder_inv_new)
  then have "encode2 en st = Inr (replicate (length (sent_bytes en st0 l) + 1) True)"
    using l assms(1) by (simp add: encode2_def replicate_append_same)
  moreover have "length (sent_bytes en st2 p) + length (sent_bytes en st2 q) < 2 ^ 31"
    using assms(4) by simp
  with encode3_sent [OF ok(2,3) assms(2,3)] have "encode3 en r rd st = Inr [True, True, True]" .
  ultimately show ?thesis by blast
qed

text \<open>The sizes of the packages in the sample environment.\<close>

lemma random_string_length: "0 < k \<Longrightarrow> length (fst (random_string r k n)) = nat k"
  by (simp add: random_string_def random_chars_length)

definition sized_event :: "event \<Rightarrow> bool" where
  "sized_event e \<longleftrightarrow> length (put_log (pb_of_event e)) = 212"

lemma put_string_length [simp]: "length (put_string s) = 2 * length s + 1"
  by (induction s) (simp_all add: put_string_def)

lemma put_op_length [simp]: "length (put_op x) = 1"
  by (cases x) simp_all

lemma random_event_sized:
  "sized_event (Event_number (fst (random_string r 20 a)) (fst (random_string r 50 b))
     (fst (random_string r 10 c)) (fst (random_string r 20 d)) v w)"
  by (simp add: sized_event_def put_log_def pb_of_event_def Event_number_def random_string_length)

lemma add_random_events_sized:
  "msg_body lp = Log_body es False \<Longrightarrow>
     \<exists>es'. fst (add_random_events r i lp n) = lp\<lparr>msg_body := Log_body (es @ es') False\<rparr>
       \<and> length es' = i \<and> (\<forall>e \<in> set es'. sized_event e)"
proof (induction i arbitrary: lp n es)
  case (Suc i)
  define e where "e = (let (xml, n1) = random_string r 20 n; (msg, n2) = random_string r 50 n1;
          (times, n3) = random_string r 10 n2; (f, n4) = random_string r 20 n3;
          (level, n5) = random_value r n4; (rid, n6) = random_value r n5
      in Event_number xml msg times f (level mod 5) rid)"
  have e: "sized_event e" by (simp add: e_def split_def Let_def random_event_sized)
  obtain k where step: "add_random_events r (Suc i) lp n = add_random_events r i (AddLogEvent e lp) k"
    by (simp add: e_def split_def Let_def)
  have "msg_body (AddLogEvent e lp) = Log_body (es @ [e]) False"
    using Suc.prems by (simp add: AddLogEvent_def)
  from Suc.IH [OF this, of k] obtain es' where
    "fst (add_random_events r i (AddLogEvent e lp) k) =
       (AddLogEvent e lp)\<lparr>msg_body := Log_body ((es @ [e]) @ es') False\<rparr>"
    "length es' = i" "\<forall>e \<in> set es'. sized_event e"
    by blast
  with e step Suc.prems show ?case
    by (intro exI [of _ "e # es'"]) (simp add: AddLogEvent_def)
qed (intro exI [of _ "[]"], simp)


lemma sized_logs:
  "\<forall>e \<in> set es. sized_event e \<Longrightarrow> length (concat (map (put_log \<circ> pb_of_event) es)) = 212 * length es"
  by (induction es) (simp_all add: sized_event_def)

lemma sized_package:
  fixes nd :: bool and i :: u32
  assumes "msg_body m = Log_body es ac" and "\<forall>e \<in> set es. sized_event e" and "length es < 100"
    and "length (msg_description m) < 40" and "msg_timeStamp m = []"
  defines "core \<equiv> snd (core_of_message (sample_env nd Unix) (sample_statics\<lparr>next_id := i\<rparr>) m)"
  shows "wire_ok (sample_env nd Unix) core
    \<and> length (sent_bytes (sample_env nd Unix) (sample_statics\<lparr>next_id := i\<rparr>) m) < 2 ^ 30"
proof -
  let ?en = "sample_env nd Unix" and ?st = "sample_statics\<lparr>next_id := i\<rparr>"
  have "length (concat (map put_log (map pb_of_event es))) < 21200"
    using sized_logs [OF assms(2)] assms(3) by simp
  then have short: "length (sample_serialize core) < 22000"
    using assms(1,3,4,5)
    by (simp add: core_def sample_serialize_def core_of_message_def buildPBObj_def new_coreMessage_def
        sample_statics_def sample_env_def getTimeStamp_def)
  then have ok: "wire_ok ?en core"
    unfolding core_def by (intro sample_wire_ok) simp
  have "length (sent_bytes ?en ?st m) \<le> 40 + length (sample_serialize core)"
    using sent_bytes_parts(2) [OF ok [unfolded core_def]] frame_parts_simps(1)
      [OF sent_bytes_parts(5) [OF ok [unfolded core_def]]]
    by (simp add: core_def sample_env_def)
  with ok short show ?thesis by simp
qed


lemma buildLargePackage_sized:
  assumes "buildLargePackage r n (sample_statics\<lparr>next_id := i\<rparr>) = (p, st', n')"
  shows "st' = sample_statics\<lparr>next_id := i + 1\<rparr>
    \<and> wire_ok (sample_env nd Unix) (snd (core_of_message (sample_env nd Unix) (sample_statics\<lparr>next_id := j\<rparr>) p))
    \<and> length (sent_bytes (sample_env nd Unix) (sample_statics\<lparr>next_id := j\<rparr>) p) < 2 ^ 30"
proof -
  define lp where "lp = fst (LogPackage False (sample_statics\<lparr>next_id := i\<rparr>))
    \<lparr>msg_description := fst (random_string r 20 (n + 1))\<rparr>"
  define evts where "evts = unat (r n mod 50 + 50)"
  have p: "p = fst (add_random_events r evts lp (snd (random_string r 20 (n + 1))))"
    and st': "st' = sample_statics\<lparr>next_id := i + 1\<rparr>"
    using assms
    by (auto simp: buildLargePackage_def lp_def evts_def random_value_def split_def Let_def constructor_defs)
  have lp: "msg_body lp = Log_body [] False" "msg_timeStamp lp = []" "length (msg_description lp) = 20"
    by (simp_all add: lp_def constructor_defs random_string_length)
  have "unat (r n mod 50) < 50"
    using word_mod_less_divisor [of "50 :: u32" "r n"] by (simp add: word_less_nat_alt)
  then have evts: "evts < 100" by (simp add: evts_def unat_word_ariths)
  obtain es where "p = lp\<lparr>msg_body := Log_body es False\<rparr>" "length es = evts" "\<forall>e \<in> set es. sized_event e"
    using add_random_events_sized [OF lp(1), of r evts] p by auto
  with sized_package [of p es False nd j] evts lp st' show ?thesis by simp
qed

theorem library_tests_pass_witness:
  "encode3 (sample_env False Unix) (\<lambda>k. of_nat (7 * k)) 40 sample_statics = Inr [True, True, True]"
proof -
  let ?en = "sample_env False Unix" and ?r = "\<lambda>k. of_nat (7 * k) :: u32"
  let ?st = "\<lambda>i. sample_statics\<lparr>next_id := i\<rparr>"
  have st: "sample_statics = ?st 7" by (simp add: sample_statics_def)
  obtain l st0 where l: "LogPackage False sample_statics = (l, st0)" by (cases "LogPackage False sample_statics")
  obtain p st1 n1 where p: "buildLargePackage ?r 0 (?st 7) = (p, st1, n1)"
    by (cases "buildLargePackage ?r 0 (?st 7)")
  obtain q st2 n2 where q: "buildLargePackage ?r n1 (?st 8) = (q, st2, n2)"
    by (cases "buildLargePackage ?r n1 (?st 8)")
  note ps = buildLargePackage_sized [OF p, of False 9] and qs = buildLargePackage_sized [OF q, of False 9]
  have ls: "st0 = ?st 8" "msg_body l = Log_body [] False" "msg_description l = []" "msg_timeStamp l = []"
    using l by (auto simp: constructor_defs sample_statics_def)
  show ?thesis
    using library_tests_pass [of sample_statics l st0 ?r p st1 n1 q st2 n2 ?en 40] l p q ps qs ls
      sized_package [of l "[]" False False 8] st
    by simp
qed

end
