(* ===== verification/Server_Threads.thy ===== *)
theory Server_Threads
  imports Server_Properties
begin

text \<open>
  The server with the threads of libuv's pool. The function that \<open>client.cpp\<close> queues for a batch is
  cut where another thread can come in between: it begins its transaction, runs one statement after
  the other, commits, and acknowledges. The loop goes on in the meantime, and other threads of the
  pool take further batches. All of them share one connection to the database.
\<close>

section \<open>Threads\<close>

text \<open>
  A thread in the middle of a batch: the client and the package of the work item with, inside the
  transaction, the row of the client, the events still to be inserted and what the transaction has
  done; the same after the connection broke; and between the transaction and the answer.
\<close>

datatype 'db worker =
    Inserting nat message dbclient "event list" 'db
  | Broken_off nat message
  | Answering nat message

record 'db threads =
  ts_server :: "'db server"
  ts_workers :: "'db worker list"

definition idle_threads :: "'db server \<Rightarrow> 'db threads" where
  "idle_threads s = \<lparr>ts_server = s, ts_workers = []\<rparr>"

text \<open>The state of the shared connection.\<close>

definition set_conn :: "connection \<Rightarrow> 'db server \<Rightarrow> 'db server" where
  "set_conn k s = s\<lparr>sv_db := (sv_db s)\<lparr>db_conn := k\<rparr>\<rparr>"

text \<open>
  A thread takes a work item: it follows the pointers to the client and to its row and starts the
  transaction, which is outside the \<open>try\<close> of \<open>Database::InsertWindowsEvents\<close>.
\<close>

definition worker_begin :: "'db host \<Rightarrow> nat \<times> message \<Rightarrow> 'db server \<Rightarrow> ('db worker \<times> 'db server) outcome" where
  "worker_begin h w s =
     (case w of (c, p) \<Rightarrow>
        bind_out (deref_client c s) (\<lambda>cl.
        bind_out (deref_dbclient h cl) (\<lambda>d.
        bind_out (begin_work (sv_db s)) (\<lambda>tx.
          Inr (Inserting c p d (GetEvents p) tx, set_conn Conn_busy s)))))"

text \<open>
  The next step of a thread and what becomes of it. An SQL error of a statement or of the commit is
  caught and aborts the transaction; the thread then answers as after a success. Any other exception
  is not caught by anybody.
\<close>

definition end_transaction ::
    "nat \<Rightarrow> message \<Rightarrow> 'db server \<Rightarrow> fault + 'db database \<Rightarrow> ('db worker option \<times> 'db server) outcome" where
  "end_transaction c p s r =
     (case r of
        Inr db \<Rightarrow> Inr (Some (Answering c p), set_conn (Conn_live True) (s\<lparr>sv_db := db\<rparr>))
      | Inl f \<Rightarrow> (if f = Uncaught Sql_error then Inr (Some (Answering c p), set_conn (Conn_live True) s)
                  else Inl f))"

fun worker_step :: "'db host \<Rightarrow> 'db worker \<Rightarrow> 'db server \<Rightarrow> ('db worker option \<times> 'db server) outcome" where
  "worker_step h (Inserting c p d [] tx) s =
     end_transaction c p s (commit_work (h_px h) (sv_db s) tx)"
| "worker_step h (Inserting c p d (e # es) tx) s =
     (case snd (insert_loop (h_px h) (sv_db s) (dc_clientID d) [e] tx 0) of
        Inr tx' \<Rightarrow> Inr (Some (Inserting c p d es tx'), s)
      | Inl f \<Rightarrow> end_transaction c p s (Inl f))"
| "worker_step h (Broken_off c p) s = Inl (Uncaught Broken_connection)"
| "worker_step h (Answering c p) s =
     (if NeedAccept p then
        bind_out (deref_client c s) (\<lambda>cl.
        bind_out (answer h c (AcceptLastEventPackage (cl_lid cl + 1) (sv_statics s)) s) (\<lambda>s'.
          Inr (None, s')))
      else Inr (None, s))"

text \<open>A connection that breaks takes the open transaction with it.\<close>

fun break_off :: "'db worker \<Rightarrow> 'db worker" where
  "break_off (Inserting c p d es tx) = Broken_off c p"
| "break_off w = w"

section \<open>The steps of the process\<close>

text \<open>
  The loop handles an event, a thread that is free takes the work item with a given number, or a
  thread goes on. The pool has \<open>n\<close> threads.
\<close>

datatype thread_event = Loop server_event | Take nat | Continue nat

fun is_work :: "server_event \<Rightarrow> bool" where
  "is_work (Work_runs i) = True"
| "is_work _ = False"

fun is_loss :: "server_event \<Rightarrow> bool" where
  "is_loss Database_lost = True"
| "is_loss _ = False"

fun thread_enabled :: "nat \<Rightarrow> thread_event \<Rightarrow> 'db threads \<Rightarrow> bool" where
  "thread_enabled n (Loop e) t \<longleftrightarrow> \<not> is_work e \<and> event_enabled e (ts_server t)"
| "thread_enabled n (Take i) t \<longleftrightarrow> i < length (sv_work (ts_server t)) \<and> length (ts_workers t) < n"
| "thread_enabled n (Continue k) t \<longleftrightarrow> k < length (ts_workers t)"

definition put_worker :: "nat \<Rightarrow> 'db worker option \<Rightarrow> 'db worker list \<Rightarrow> 'db worker list" where
  "put_worker k wo ws =
     (case wo of Some w \<Rightarrow> ws[k := w] | None \<Rightarrow> take k ws @ drop (Suc k) ws)"

fun run_thread :: "'db host \<Rightarrow> thread_event \<Rightarrow> 'db threads \<Rightarrow> 'db threads outcome" where
  "run_thread h (Loop e) t =
     bind_out (run_event h e (ts_server t)) (\<lambda>s.
       Inr \<lparr>ts_server = s,
            ts_workers = (if is_loss e then map break_off (ts_workers t) else ts_workers t)\<rparr>)"
| "run_thread h (Take i) t =
     (let s = ts_server t
      in bind_out (worker_begin h (sv_work s ! i)
                     (s\<lparr>sv_work := take i (sv_work s) @ drop (i + 1) (sv_work s)\<rparr>)) (\<lambda>(w, s').
           Inr \<lparr>ts_server = s', ts_workers = ts_workers t @ [w]\<rparr>))"
| "run_thread h (Continue k) t =
     bind_out (worker_step h (ts_workers t ! k) (ts_server t)) (\<lambda>(wo, s').
       Inr \<lparr>ts_server = s', ts_workers = put_worker k wo (ts_workers t)\<rparr>)"

inductive thread_reach :: "'db host \<Rightarrow> nat \<Rightarrow> 'db threads \<Rightarrow> 'db threads \<Rightarrow> bool" for h n t0 where
  start: "thread_reach h n t0 t0"
| more: "thread_reach h n t0 t \<Longrightarrow> thread_enabled n e t \<Longrightarrow> run_thread h e t = Inr t' \<Longrightarrow>
    thread_reach h n t0 t'"

end
