(* ===== verification/Thread_Properties.thy ===== *)
theory Thread_Properties
  imports Server_Threads Connection_Invariant
begin

text \<open>
  What the threads of the pool do to each other: at most one of them is in a transaction, a batch is
  stored as a whole whatever happens in between, a second transaction ends the process, and the
  server in which a work item is one step is contained in the one with threads.
\<close>

section \<open>The database during a transaction\<close>

lemma begin_work_busy: "db_conn s = Conn_busy \<Longrightarrow> begin_work s = Inl (Uncaught Usage_error)"
  by (simp add: begin_work_def deref_conn_def)

lemma begin_work_Inr: "begin_work s = Inr tx \<longleftrightarrow> db_conn s = Conn_live True \<and> tx = db_data s"
  by (auto simp: begin_work_def deref_conn_def bind_out_Inr_iff split: connection.splits if_splits)

lemma GetClient_busy:
  "db_conn s = Conn_busy \<Longrightarrow> GetClient px ndbg raw msg s = Inl (Uncaught Usage_error)"
  by (simp add: GetClient_def Let_def begin_work_busy split: option.split)

lemma GetLastEventRecordID_busy:
  "db_conn s = Conn_busy \<Longrightarrow> GetLastEventRecordID px d s = Inl (Uncaught Usage_error)"
  by (simp add: GetLastEventRecordID_def begin_work_busy)

lemma handle_message_busy:
  assumes "db_conn (sv_db s) = Conn_busy" and "handle_message h c cl ret s = Inr s'"
  shows "sv_db s' = sv_db s"
  using assms
  by (auto simp: handle_message_def bind_out_Inr_iff Let_def GetClient_busy GetLastEventRecordID_busy
      split: operation.splits option.splits if_splits)

lemma readFromNetwork_busy:
  assumes "db_conn (sv_db s) = Conn_busy" and "readFromNetwork h c buf s = Inr s'"
  shows "sv_db s' = sv_db s"
proof -
  from assms obtain cl x st d where cl: "deref_client c s = Inr cl"
      and rd: "decoder_read (h_env h) (sv_statics s) (cl_decoder cl) buf = Inr (x, st, d)"
    by (auto simp: readFromNetwork_def bind_out_Inr_iff)
  obtain mo d' where gm: "GetProtobufMessage d = (mo, d')" by (cases "GetProtobufMessage d")
  let ?s = "set_client c (cl\<lparr>cl_decoder := d'\<rparr>) (s\<lparr>sv_statics := st\<rparr>)"
  have busy: "db_conn (sv_db ?s) = Conn_busy" using assms(1) by simp
  show ?thesis
    using assms(2) handle_message_busy [OF busy]
    by (cases mo) (auto simp: readFromNetwork_def cl rd gm Let_def split: if_splits dest: answer_connection)
qed

lemma SIGPIPEHandler_busy:
  "db_conn (sv_db s) = Conn_busy \<Longrightarrow> SIGPIPEHandler h a s = Inr (s\<lparr>sv_dbConnected := True\<rparr>)"
  by (simp add: SIGPIPEHandler_def CheckConnectStatus_def deref_conn_def)

lemma run_event_busy:
  assumes "db_conn (sv_db s) = Conn_busy" and "run_event h e s = Inr s'" and "\<not> is_work e" and "\<not> is_loss e"
  shows "sv_db s' = sv_db s"
proof (cases e)
  case (New_connection st a)
  with assms show ?thesis
    by (auto simp: uvConnectCB_def AddClient_def Let_def bind_out_Inr_iff split: if_splits)
next
  case (Readable c r b)
  with assms show ?thesis
    by (auto simp: uvReadCB_def bind_out_Inr_iff Let_def split: read_result.splits if_splits
        dest: readFromNetwork_busy [rotated])
next
  case (Close_due c)
  with assms show ?thesis
    by (auto simp: uvCloseCB_def ClientDisconnect_def bind_out_Inr_iff split: if_splits)
next
  case (Pipe_signal a)
  with assms show ?thesis by (auto simp: SIGPIPEHandler_busy)
qed (use assms in \<open>auto simp: async_WriteToNetwork_def SIGTERMHandler_def StopLoop_def
      dest: write_loop_connection async_Stop_connection\<close>)

lemma run_event_not_busy:
  assumes "run_event h e s = Inr s'" and "db_conn (sv_db s) \<noteq> Conn_busy"
  shows "db_conn (sv_db s') \<noteq> Conn_busy"
  using run_event_connection [OF assms(1)] assms(2) by (auto simp: has_connection_def)

text \<open>A statement does not look at the state of the connection.\<close>

lemma insert_event_conn [simp]:
  "insert_event px (s\<lparr>db_conn := k\<rparr>) = insert_event px s"
  by (intro ext) (simp add: insert_event_def exec_prepared_def)

lemma insert_event_data [simp]: "insert_event px (s\<lparr>db_data := d\<rparr>) = insert_event px s"
  by (intro ext) (simp add: insert_event_def exec_prepared_def)

lemma set_conn_fields [simp]:
  "sv_db (set_conn k s) = (sv_db s)\<lparr>db_conn := k\<rparr>" "sv_heap (set_conn k s) = sv_heap s"
  "sv_work (set_conn k s) = sv_work s" "sv_statics (set_conn k s) = sv_statics s"
  by (simp_all add: set_conn_def)

section \<open>The invariant\<close>

fun inserting :: "'db worker \<Rightarrow> bool" where
  "inserting (Inserting c p d es tx) = True"
| "inserting w = False"

lemma inserting_break_off [simp]: "\<not> inserting (break_off w)"
  by (cases w) simp_all

text \<open>What an open transaction has done is the first part of its batch.\<close>

fun part_done :: "'db pqxx \<Rightarrow> 'db database \<Rightarrow> 'db worker \<Rightarrow> bool" where
  "part_done px db (Inserting c p d es tx) \<longleftrightarrow>
     (\<exists>first. GetEvents p = first @ es
       \<and> fold_out (insert_event px db (dc_clientID d)) (db_data db) first = Inr tx)"
| "part_done px db w \<longleftrightarrow> True"

definition tx_inv :: "'db host \<Rightarrow> 'db threads \<Rightarrow> bool" where
  "tx_inv h t \<longleftrightarrow>
     length (filter inserting (ts_workers t)) =
       (if db_conn (sv_db (ts_server t)) = Conn_busy then 1 else 0)
     \<and> (\<forall>w \<in> set (ts_workers t). part_done (h_px h) (sv_db (ts_server t)) w)"

lemma part_done_conn [simp]: "part_done px (s\<lparr>db_conn := k\<rparr>) w = part_done px s w"
  by (cases w) simp_all

lemma part_done_other: "\<not> inserting w \<Longrightarrow> part_done px s w"
  by (cases w) simp_all

lemma split_workers:
  assumes "k < length ws"
  obtains a b where "ws = a @ ws ! k # b" and "put_worker k wo ws = a @ (case wo of Some w \<Rightarrow> [w] | None \<Rightarrow> []) @ b"
proof
  show "ws = take k ws @ ws ! k # drop (Suc k) ws" using assms by (rule id_take_nth_drop)
  show "put_worker k wo ws = take k ws @ (case wo of Some w \<Rightarrow> [w] | None \<Rightarrow> []) @ drop (Suc k) ws"
    using assms by (simp add: put_worker_def upd_conv_take_nth_drop split: option.split)
qed

lemma none_inserting: "length (filter inserting ws) = 0 \<longleftrightarrow> (\<forall>w \<in> set ws. \<not> inserting w)"
  by (simp add: filter_empty_conv)

lemma tx_inv_idle: "db_conn (sv_db s) \<noteq> Conn_busy \<Longrightarrow> tx_inv h (idle_threads s)"
  by (simp add: tx_inv_def idle_threads_def)

text \<open>The events of the loop.\<close>

lemma tx_inv_loop:
  assumes "tx_inv h t" and "\<not> is_work e" and "run_thread h (Loop e) t = Inr t'"
  shows "tx_inv h t'"
proof -
  obtain s where s: "run_event h e (ts_server t) = Inr s"
    and t': "t' = \<lparr>ts_server = s, ts_workers = (if is_loss e then map break_off (ts_workers t) else ts_workers t)\<rparr>"
    using assms(3) by (auto simp: bind_out_Inr_iff)
  show ?thesis
  proof (cases "is_loss e")
    case True
    then have "e = Database_lost" by (cases e) simp_all
    with s have "db_conn (sv_db s) \<noteq> Conn_busy" by auto
    moreover have "filter inserting (map break_off (ts_workers t)) = []"
      by (simp add: filter_empty_conv)
    ultimately show ?thesis
      using True by (auto simp: tx_inv_def t' intro: part_done_other)
  next
    case False
    show ?thesis
    proof (cases "db_conn (sv_db (ts_server t)) = Conn_busy")
      case True
      with run_event_busy [OF True s assms(2) False] assms(1) False show ?thesis
        by (simp add: tx_inv_def t')
    next
      case notbusy: False
      with assms(1) have none: "\<forall>w \<in> set (ts_workers t). \<not> inserting w"
        by (simp add: tx_inv_def filter_empty_conv)
      with False run_event_not_busy [OF s notbusy] show ?thesis
        by (auto simp: tx_inv_def t' filter_empty_conv intro: part_done_other)
    qed
  qed
qed


text \<open>A thread begins.\<close>

lemma tx_inv_take:
  assumes "tx_inv h t" and "run_thread h (Take i) t = Inr t'"
  shows "tx_inv h t'"
proof -
  obtain c p where w: "sv_work (ts_server t) ! i = (c, p)" by (cases "sv_work (ts_server t) ! i")
  let ?s = "(ts_server t)\<lparr>sv_work := take i (sv_work (ts_server t)) @ drop (i + 1) (sv_work (ts_server t))\<rparr>"
  obtain d tx where tx: "begin_work (sv_db ?s) = Inr tx"
    and t': "t' = \<lparr>ts_server = set_conn Conn_busy ?s, ts_workers = ts_workers t @ [Inserting c p d (GetEvents p) tx]\<rparr>"
    using assms(2) by (auto simp: worker_begin_def w Let_def bind_out_Inr_iff)
  have "db_conn (sv_db (ts_server t)) = Conn_live True" "tx = db_data (sv_db (ts_server t))"
    using tx by (simp_all add: begin_work_Inr)
  with assms(1) show ?thesis
    by (auto simp: tx_inv_def t')
qed

text \<open>A thread goes on.\<close>

lemma end_transaction_cases:
  assumes "end_transaction c p s (commit_work px (sv_db s) tx) = Inr (wo, s')"
  shows "wo = Some (Answering c p) \<and> db_conn (sv_db s') = Conn_live True
    \<and> (db_data (sv_db s') = db_data (sv_db s) \<or> db_data (sv_db s') = tx)"
  using assms
  by (auto simp: end_transaction_def commit_work_def set_conn_def split: option.splits if_splits sum.splits)

lemma insert_one:
  "snd (insert_loop px db cid [e] tx 0) = insert_event px db cid tx e"
  by (simp only: insert_loop_eq) (simp add: bind_out_def split: sum.split)

declare worker_step.simps(2) [simp del]

lemma worker_step_statement [simp]:
  "worker_step h (Inserting c p d (e # es) tx) s =
     (case insert_event (h_px h) (sv_db s) (dc_clientID d) tx e of
        Inr tx' \<Rightarrow> Inr (Some (Inserting c p d es tx'), s)
      | Inl f \<Rightarrow> end_transaction c p s (Inl f))"
  by (simp only: worker_step.simps insert_one)

lemma worker_step_effect:
  assumes "worker_step h w s = Inr (wo, s')"
  shows "(\<not> inserting w \<and> sv_db s' = sv_db s \<and> wo = None)
    \<or> (inserting w \<and> (\<exists>w'. wo = Some w' \<and> (
          (inserting w' \<and> s' = s \<and> (part_done (h_px h) (sv_db s) w \<longrightarrow> part_done (h_px h) (sv_db s) w'))
        \<or> (\<not> inserting w' \<and> db_conn (sv_db s') = Conn_live True
            \<and> (db_data (sv_db s') = db_data (sv_db s)
               \<or> (\<exists>c p d tx. w = Inserting c p d [] tx \<and> db_data (sv_db s') = tx))))))"
proof (cases "(h, w, s)" rule: worker_step.cases)
  case (1 h' c p d tx s1)
  with assms end_transaction_cases [of c p s "h_px h" tx wo s'] show ?thesis by auto
next
  case (2 h' c p d e es tx s1)
  then have w: "w = Inserting c p d (e # es) tx" by simp
  show ?thesis
  proof (cases "insert_event (h_px h) (sv_db s) (dc_clientID d) tx e")
    case (Inl f)
    with assms show ?thesis
      by (auto simp: w end_transaction_def split: if_splits)
  next
    case (Inr tx')
    with assms have r: "wo = Some (Inserting c p d es tx')" "s' = s" by (simp_all add: w)
    have "part_done (h_px h) (sv_db s) (Inserting c p d es tx')" if "part_done (h_px h) (sv_db s) w"
    proof -
      from that obtain first where "GetEvents p = first @ e # es"
        and "fold_out (insert_event (h_px h) (sv_db s) (dc_clientID d)) (db_data (sv_db s)) first = Inr tx"
        by (auto simp: w)
      with Inr show ?thesis by (auto simp: fold_out_append intro!: exI [of _ "first @ [e]"])
    qed
    with r show ?thesis by (simp add: w)
  qed
next
  case (3 h' c p s1)
  with assms show ?thesis by simp
next
  case (4 h' c p s1)
  with assms show ?thesis by (auto simp: bind_out_Inr_iff split: if_splits dest: answer_connection)
qed

lemma tx_inv_continue:
  assumes inv: "tx_inv h t" and k: "k < length (ts_workers t)" and run: "run_thread h (Continue k) t = Inr t'"
  shows "tx_inv h t'"
proof -
  let ?w = "ts_workers t ! k" and ?s = "ts_server t"
  obtain wo s' where st: "worker_step h ?w ?s = Inr (wo, s')"
    and t': "t' = \<lparr>ts_server = s', ts_workers = put_worker k wo (ts_workers t)\<rparr>"
    using run by (auto simp: bind_out_Inr_iff)
  obtain a b where ab: "ts_workers t = a @ ?w # b"
      "put_worker k wo (ts_workers t) = a @ (case wo of Some w \<Rightarrow> [w] | None \<Rightarrow> []) @ b"
    using split_workers [OF k] by blast
  have eqs: "ts_server t' = s'" "ts_workers t' = a @ (case wo of Some w \<Rightarrow> [w] | None \<Rightarrow> []) @ b"
    using ab(2) by (simp_all add: t')
  have len: "length (filter inserting (a @ ?w # b)) = (if db_conn (sv_db ?s) = Conn_busy then 1 else 0)"
    and parts: "\<forall>w \<in> set (a @ ?w # b). part_done (h_px h) (sv_db ?s) w"
    using inv unfolding tx_inv_def ab(1) [symmetric] by simp_all
  consider (other) "\<not> inserting ?w" "sv_db s' = sv_db ?s" "wo = None"
    | (statement) w' where "inserting ?w" "wo = Some w'" "inserting w'" "s' = ?s"
        "part_done (h_px h) (sv_db ?s) ?w \<longrightarrow> part_done (h_px h) (sv_db ?s) w'"
    | (ending) w' where "inserting ?w" "wo = Some w'" "\<not> inserting w'" "db_conn (sv_db s') = Conn_live True"
    using worker_step_effect [OF st] by blast
  then show ?thesis
  proof cases
    case other
    with len parts show ?thesis by (simp add: tx_inv_def eqs)
  next
    case statement
    with len parts show ?thesis by (simp add: tx_inv_def eqs)
  next
    case ending
    then have "\<forall>w \<in> set (a @ b). \<not> inserting w"
      using len by (auto simp: filter_empty_conv split: if_splits)
    with ending show ?thesis
      by (auto simp: tx_inv_def eqs filter_empty_conv intro: part_done_other)
  qed
qed

lemma thread_reach_tx_inv:
  "thread_reach h n t0 t \<Longrightarrow> tx_inv h t0 \<Longrightarrow> tx_inv h t"
proof (induction rule: thread_reach.induct)
  case (more t e t')
  then show ?case
    by (cases e) (auto intro: tx_inv_loop tx_inv_take tx_inv_continue simp del: run_thread.simps)
qed


section \<open>A work item without interruption\<close>

text \<open>
  From the first statement on, with no other thread about: the statements run to the end of the
  batch or to an SQL error.
\<close>

lemma reach_trans:
  "thread_reach h n t u \<Longrightarrow> thread_reach h n t0 t \<Longrightarrow> thread_reach h n t0 u"
  by (induction rule: thread_reach.induct) (auto intro: thread_reach.more)

lemma only_worker_step:
  assumes "worker_step h w s = Inr (wo, s')"
  shows "thread_reach h n \<lparr>ts_server = s, ts_workers = [w]\<rparr>
    \<lparr>ts_server = s', ts_workers = (case wo of Some w' \<Rightarrow> [w'] | None \<Rightarrow> [])\<rparr>"
  using assms
  by (intro thread_reach.more [OF thread_reach.start, where e = "Continue 0"])
    (auto simp: put_worker_def split: option.split)

lemma statements_run:
  assumes "fold_out (insert_event (h_px h) (sv_db s) (dc_clientID d)) tx es = Inr tx'"
  shows "thread_reach h n \<lparr>ts_server = s, ts_workers = [Inserting c p d es tx]\<rparr>
    \<lparr>ts_server = s, ts_workers = [Inserting c p d [] tx']\<rparr>"
  using assms
proof (induction es arbitrary: tx)
  case Nil
  then show ?case by (simp add: thread_reach.start)
next
  case (Cons e es)
  then obtain tx1 where "insert_event (h_px h) (sv_db s) (dc_clientID d) tx e = Inr tx1"
    and rest: "fold_out (insert_event (h_px h) (sv_db s) (dc_clientID d)) tx1 es = Inr tx'"
    by (auto simp: bind_out_Inr_iff)
  then have "worker_step h (Inserting c p d (e # es) tx) s = Inr (Some (Inserting c p d es tx1), s)" by simp
  from only_worker_step [OF this, of n] Cons.IH [OF rest] show ?case by (simp add: reach_trans)
qed

lemma statements_fail:
  assumes "fold_out (insert_event (h_px h) (sv_db s) (dc_clientID d)) tx es = Inl (Uncaught Sql_error)"
  shows "thread_reach h n \<lparr>ts_server = s, ts_workers = [Inserting c p d es tx]\<rparr>
    \<lparr>ts_server = set_conn (Conn_live True) s, ts_workers = [Answering c p]\<rparr>"
  using assms
proof (induction es arbitrary: tx)
  case (Cons e es)
  show ?case
  proof (cases "insert_event (h_px h) (sv_db s) (dc_clientID d) tx e")
    case (Inl f)
    with Cons.prems have "worker_step h (Inserting c p d (e # es) tx) s =
        Inr (Some (Answering c p), set_conn (Conn_live True) s)"
      by (simp add: end_transaction_def)
    from only_worker_step [OF this, of n] show ?thesis by simp
  next
    case (Inr tx1)
    then have "worker_step h (Inserting c p d (e # es) tx) s = Inr (Some (Inserting c p d es tx1), s)" by simp
    from only_worker_step [OF this, of n] Cons.IH [of tx1] Cons.prems Inr show ?thesis
      by (simp add: reach_trans)
  qed
qed simp

text \<open>The transaction of a batch ends with the database of the one-step model.\<close>

lemma transaction_runs:
  assumes "DB_InsertWindowsEvents (h_px h) d (GetEvents p) (sv_db s) = Inr (k, db)"
    and live: "db_conn (sv_db s) = Conn_live True"
  shows "thread_reach h n \<lparr>ts_server = set_conn Conn_busy s,
      ts_workers = [Inserting c p d (GetEvents p) (db_data (sv_db s))]\<rparr>
    \<lparr>ts_server = s\<lparr>sv_db := db\<rparr>, ts_workers = [Answering c p]\<rparr>"
proof -
  let ?s = "set_conn Conn_busy s" and ?tx = "db_data (sv_db s)"
  let ?fold = "fold_out (insert_event (h_px h) (sv_db s) (dc_clientID d)) ?tx (GetEvents p)"
  have same: "set_conn (Conn_live True) ?s = s"
    using live by (simp add: set_conn_def)
  have "begin_work (sv_db s) = Inr ?tx" by (simp add: begin_work_Inr live)
  note eq = InsertWindowsEvents_eq [OF this, of "h_px h" d "GetEvents p"]
  show ?thesis
  proof (cases ?fold)
    case (Inl f)
    with eq assms(1) have "f = Uncaught Sql_error" "db = sv_db s" by (simp_all split: if_splits)
    with statements_fail [of h ?s d ?tx "GetEvents p" n c p] Inl show ?thesis by (simp add: same)
  next
    case (Inr tx)
    have "worker_step h (Inserting c p d [] tx) ?s = Inr (Some (Answering c p), s\<lparr>sv_db := db\<rparr>)"
      using eq assms(1) Inr live
      by (auto simp: end_transaction_def commit_work_def set_conn_def split: option.splits if_splits)
    from only_worker_step [OF this, of n] statements_run [of h ?s d ?tx "GetEvents p" tx n c p] Inr
    show ?thesis by (simp add: reach_trans)
  qed
qed

lemma work_item_runs:
  assumes "event_enabled (Work_runs i) s" and "run_event h (Work_runs i) s = Inr s'" and "0 < n"
  shows "thread_reach h n (idle_threads s) (idle_threads s')"
proof -
  obtain c p where w: "sv_work s ! i = (c, p)" by (cases "sv_work s ! i")
  let ?s = "s\<lparr>sv_work := take i (sv_work s) @ drop (Suc i) (sv_work s)\<rparr>"
  obtain cl d where cl: "deref_client c ?s = Inr cl" and d: "deref_dbclient h cl = Inr d"
    using assms(2) by (auto simp: run_work_def w bind_out_Inr_iff)
  have "\<exists>r. DB_InsertWindowsEvents (h_px h) d (GetEvents p) (sv_db s) = Inr r"
  proof (cases "begin_work (sv_db s)")
    case (Inl f)
    then have "DB_InsertWindowsEvents (h_px h) d (GetEvents p) (sv_db s) = Inl f"
      by (simp add: DB_InsertWindowsEvents_def)
    with Inl assms(2) begin_work_no_sql_error [of "sv_db s"] show ?thesis
      by (auto simp: run_work_def w cl d split: if_splits)
  next
    case (Inr tx)
    from InsertWindowsEvents_eq [OF this, of "h_px h" d "GetEvents p"] assms(2) show ?thesis
      by (cases "DB_InsertWindowsEvents (h_px h) d (GetEvents p) (sv_db s)")
        (auto simp: run_work_def w cl d split: sum.splits if_splits)
  qed
  then obtain k db where db: "DB_InsertWindowsEvents (h_px h) d (GetEvents p) (sv_db s) = Inr (k, db)" by auto
  then obtain tx where "begin_work (sv_db s) = Inr tx"
    by (cases "begin_work (sv_db s)") (simp_all add: DB_InsertWindowsEvents_def)
  then have live: "db_conn (sv_db s) = Conn_live True" and tx: "begin_work (sv_db s) = Inr (db_data (sv_db s))"
    by (simp_all add: begin_work_Inr)
  have "thread_reach h n (idle_threads s) \<lparr>ts_server = set_conn Conn_busy ?s,
      ts_workers = [Inserting c p d (GetEvents p) (db_data (sv_db s))]\<rparr>"
    using assms(1,3) cl d tx
    by (intro thread_reach.more [OF thread_reach.start, where e = "Take i"])
      (simp_all add: idle_threads_def worker_begin_def w)
  moreover have "thread_reach h n \<lparr>ts_server = set_conn Conn_busy ?s,
      ts_workers = [Inserting c p d (GetEvents p) (db_data (sv_db s))]\<rparr>
    \<lparr>ts_server = ?s\<lparr>sv_db := db\<rparr>, ts_workers = [Answering c p]\<rparr>"
    using transaction_runs [of h d p ?s k db n c] db live by simp
  moreover have "worker_step h (Answering c p) (?s\<lparr>sv_db := db\<rparr>) = Inr (None, s')"
    using assms(2) db cl by (auto simp: run_work_def w cl d deref_client_def Let_def split: if_splits)
  from only_worker_step [OF this, of n] have "thread_reach h n \<lparr>ts_server = ?s\<lparr>sv_db := db\<rparr>, ts_workers = [Answering c p]\<rparr>
      (idle_threads s')"
    by (simp add: idle_threads_def)
  ultimately show ?thesis by (blast intro: reach_trans)
qed


section \<open>Properties\<close>

text \<open>C13. The server in which a work item is one step is contained in the server with threads: every
  state the first one reaches is reached by the second with any pool, its threads idle.\<close>

theorem steps_are_thread_runs:
  assumes "server_reach h s0 s" and "0 < n"
  shows "thread_reach h n (idle_threads s0) (idle_threads s)"
  using assms(1)
proof (induction rule: server_reach.induct)
  case start
  show ?case by (rule thread_reach.start)
next
  case (more s s')
  then obtain e where e: "event_enabled e s" "run_event h e s = Inr s'" by (auto elim: server_stepE)
  have "thread_reach h n (idle_threads s) (idle_threads s')"
  proof (cases "is_work e")
    case True
    with e assms(2) show ?thesis by (cases e) (auto intro: work_item_runs simp del: run_event.simps)
  next
    case False
    with e show ?thesis
      by (intro thread_reach.more [OF thread_reach.start, where e = "Loop e"]) (simp_all add: idle_threads_def)
  qed
  from reach_trans [OF this more.IH] show ?case .
qed

text \<open>C9. Whatever the loop and the threads do in between, batches stay whole: at most one thread is in
  a transaction, and a step changes the stored data only when it commits all statements of one batch,
  run on the data as they are at that moment, or is an event of the loop while no thread is in a
  transaction.\<close>

theorem batches_stay_whole:
  assumes "thread_reach h n (idle_threads s0) t" and "db_conn (sv_db s0) \<noteq> Conn_busy"
    and "thread_enabled n e t" and "run_thread h e t = Inr t'"
  defines "db \<equiv> sv_db (ts_server t)" and "db' \<equiv> sv_db (ts_server t')"
  shows "length (filter inserting (ts_workers t)) \<le> 1
    \<and> (db_data db' = db_data db
      \<or> (\<exists>k c p d. e = Continue k \<and> ts_workers t ! k = Inserting c p d [] (db_data db')
           \<and> fold_out (insert_event (h_px h) db (dc_clientID d)) (db_data db) (GetEvents p) = Inr (db_data db'))
      \<or> (\<exists>x. e = Loop x \<and> filter inserting (ts_workers t) = []))"
proof -
  have inv: "tx_inv h t" by (rule thread_reach_tx_inv [OF assms(1) tx_inv_idle [OF assms(2)]])
  show ?thesis
  proof (cases e)
    case (Loop x)
    obtain s where s: "run_event h x (ts_server t) = Inr s" "ts_server t' = s"
      using assms(4) by (auto simp: Loop bind_out_Inr_iff)
    have "db_data db' = db_data db" if "filter inserting (ts_workers t) \<noteq> []"
    proof -
      from that inv have busy: "db_conn (sv_db (ts_server t)) = Conn_busy"
        by (auto simp: tx_inv_def split: if_splits)
      show ?thesis
      proof (cases "is_loss x")
        case True
        then have "x = Database_lost" by (cases x) simp_all
        with s show ?thesis by (auto simp: db_def db'_def)
      next
        case False
        with run_event_busy [OF busy s(1)] assms(3) s(2) show ?thesis by (simp add: db_def db'_def Loop)
      qed
    qed
    with inv Loop show ?thesis by (auto simp: tx_inv_def split: if_splits)
  next
    case (Take i)
    with assms(4) inv show ?thesis
      by (auto simp: worker_begin_def Let_def bind_out_Inr_iff db_def db'_def tx_inv_def split: prod.splits if_splits)
  next
    case (Continue k)
    obtain wo s' where st: "worker_step h (ts_workers t ! k) (ts_server t) = Inr (wo, s')" "ts_server t' = s'"
      using assms(4) by (auto simp: Continue bind_out_Inr_iff)
    have "part_done (h_px h) (sv_db (ts_server t)) (ts_workers t ! k)"
      using inv assms(3) by (simp add: tx_inv_def Continue)
    with worker_step_effect [OF st(1)] have "db_data db' = db_data db
      \<or> (\<exists>c p d. ts_workers t ! k = Inserting c p d [] (db_data db')
           \<and> fold_out (insert_event (h_px h) db (dc_clientID d)) (db_data db) (GetEvents p) = Inr (db_data db'))"
      by (auto simp: db_def db'_def st(2))
    with inv Continue show ?thesis by (auto simp: tx_inv_def split: if_splits)
  qed
qed

text \<open>C14. While one thread is in a transaction, whatever else starts one ends the server, in every
  build: another thread that takes a batch, and the loop when it reads the introduction of a client
  or its question for the last record. The exception is none that the code catches.\<close>

theorem second_transaction_ends_server:
  assumes "thread_reach h n (idle_threads s0) t" and "db_conn (sv_db s0) \<noteq> Conn_busy"
    and "\<exists>w \<in> set (ts_workers t). inserting w"
  shows "(sv_work (ts_server t) ! i = (c, p) \<and> deref_client c (ts_server t) = Inr cl \<and> deref_dbclient h cl = Inr d
      \<longrightarrow> run_thread h (Take i) t = Inl (Uncaught Usage_error))
    \<and> (msg_op m = CONNECT \<or> (msg_op m = QUERY_LAST_EVENT \<and> deref_dbclient h cl = Inr d)
      \<longrightarrow> handle_message h c cl m (ts_server t) = Inl (Uncaught Usage_error))"
proof -
  have "tx_inv h t" by (rule thread_reach_tx_inv [OF assms(1) tx_inv_idle [OF assms(2)]])
  with assms(3) have busy: "db_conn (sv_db (ts_server t)) = Conn_busy"
    by (auto simp: tx_inv_def filter_empty_conv split: if_splits)
  then show ?thesis
    by (auto simp: worker_begin_def deref_client_def begin_work_busy Let_def handle_message_def
        GetClient_busy GetLastEventRecordID_busy split: option.splits)
qed

section \<open>A sample run\<close>

definition sample_package :: "event list \<Rightarrow> message" where
  "sample_package es = AddLogEvents es (fst (LogPackage True sample_statics))"

definition two_batches :: "sample_tables server" where
  "two_batches = one_client\<lparr>sv_work :=
     [(0, sample_package [Event_number ''<e/>'' ''f'' ''p'' ''t'' 3 9]), (0, sample_package [])]\<rparr>"

lemma two_batches_fields:
  "sv_work two_batches =
     [(0, sample_package [Event_number ''<e/>'' ''f'' ''p'' ''t'' 3 9]), (0, sample_package [])]"
  "sv_db two_batches = sample_database" "db_conn sample_database = Conn_live True"
  "deref_client 0 two_batches = Inr (new_client\<lparr>cl_client := Some sample_dbclient\<rparr>)"
  "GetEvents (sample_package es) = es" "NeedAccept (sample_package es)"
  by (simp_all add: two_batches_def one_client_def sample_server_def new_server_def deref_client_def
      map_find_def sample_package_def AddLogEvents_def GetEvents_def NeedAccept_def constructor_defs
      sample_database_def with_statements_def)

lemma begin_sample: "begin_work sample_database = Inr (db_data sample_database)"
  by (simp add: begin_work_Inr two_batches_fields)

lemma with_statements_data [simp]: "db_data (with_statements s) = db_data s"
  by (simp add: with_statements_def)

lemma sample_host_px: "h_px (sample_host nd raw) = sample_px"
  by (simp add: sample_host_def)

lemma deref_without_work [simp]: "deref_client c (s\<lparr>sv_work := w\<rparr>) = deref_client c s"
  by (simp add: deref_client_def)

lemma take_sample:
  assumes "i < 2"
  shows "run_thread (sample_host True None) (Take i) (idle_threads two_batches) =
    Inr \<lparr>ts_server = set_conn Conn_busy (two_batches\<lparr>sv_work := [sv_work two_batches ! (1 - i)]\<rparr>),
         ts_workers = [Inserting 0 (snd (sv_work two_batches ! i)) sample_dbclient
           (GetEvents (snd (sv_work two_batches ! i))) (db_data sample_database)]\<rparr>"
  using assms
  by (cases "i = 0")
    (auto simp: idle_threads_def worker_begin_def two_batches_fields deref_dbclient_def begin_sample
      nth_Cons' Let_def less_2_cases_iff)

theorem steps_are_thread_runs_witness:
  "\<exists>s'. run_event (sample_host True None) (Work_runs 1) two_batches = Inr s'
    \<and> thread_reach (sample_host True None) 4 (idle_threads two_batches) (idle_threads s')"
proof -
  let ?h = "sample_host True None"
  have "DB_InsertWindowsEvents sample_px sample_dbclient [] sample_database = Inr (0, sample_database)"
    by (simp add: DB_InsertWindowsEvents_def begin_work_def deref_conn_def two_batches_fields commit_work_def
        sample_px_def)
  moreover obtain s' where "answer ?h 0 (AcceptLastEventPackage (cl_lid new_client + 1) (sv_statics two_batches))
      (two_batches\<lparr>sv_work := [sv_work two_batches ! 0], sv_db := sample_database\<rparr>) = Inr s'"
    using sample_answer by blast
  ultimately have "run_event ?h (Work_runs 1) two_batches = Inr s'"
    by (simp add: run_work_def two_batches_fields deref_dbclient_def Let_def sample_host_px)
  moreover from this have "server_reach ?h two_batches s'"
    by (intro server_reach.more [OF server_reach.start] server_step.step [where e = "Work_runs 1"])
      (simp_all add: two_batches_fields)
  from steps_are_thread_runs [OF this, of 4] have "thread_reach ?h 4 (idle_threads two_batches) (idle_threads s')"
    by simp
  ultimately show ?thesis by blast
qed

theorem second_transaction_ends_server_witness:
  "\<exists>t. run_thread (sample_host True None) (Take 1) (idle_threads two_batches) = Inr t
    \<and> run_thread (sample_host True None) (Take 0) t = Inl (Uncaught Usage_error)"
proof -
  let ?h = "sample_host True None"
  let ?t = "\<lparr>ts_server = set_conn Conn_busy (two_batches\<lparr>sv_work := [sv_work two_batches ! 0]\<rparr>),
    ts_workers = [Inserting 0 (snd (sv_work two_batches ! 1)) sample_dbclient
      (GetEvents (snd (sv_work two_batches ! 1))) (db_data sample_database)]\<rparr>"
  have t: "run_thread ?h (Take 1) (idle_threads two_batches) = Inr ?t"
    using take_sample [of 1] by simp
  then have "thread_reach ?h 4 (idle_threads two_batches) ?t"
    by (intro thread_reach.more [OF thread_reach.start, where e = "Take 1"])
      (simp_all add: idle_threads_def two_batches_fields)
  from second_transaction_ends_server [OF this, of 0 0 "sample_package [Event_number ''<e/>'' ''f'' ''p'' ''t'' 3 9]"
      "new_client\<lparr>cl_client := Some sample_dbclient\<rparr>" sample_dbclient]
  have "run_thread ?h (Take 0) ?t = Inl (Uncaught Usage_error)"
    by (simp add: two_batches_fields deref_dbclient_def deref_client_def [of 0 "set_conn k s" for k s]
        deref_client_def [symmetric] del: run_thread.simps)
  with t show ?thesis by blast
qed


theorem batches_stay_whole_witness:
  "\<exists>t t1 t2. run_thread (sample_host True None) (Take 0) (idle_threads two_batches) = Inr t
    \<and> run_thread (sample_host True None) (Continue 0) t = Inr t1
    \<and> run_thread (sample_host True None) (Continue 0) t1 = Inr t2
    \<and> length (filter inserting (ts_workers t1)) \<le> 1
    \<and> db_data (sv_db (ts_server t1)) = db_data (sv_db two_batches)
    \<and> tab_events (db_data (sv_db (ts_server t2))) = [[''1'', ''1'', ''warning'', ''t'', ''p'', ''f'', ''9'']]"
proof -
  let ?h = "sample_host True None"
  let ?e = "Event_number ''<e/>'' ''f'' ''p'' ''t'' 3 9"
  let ?s = "set_conn Conn_busy (two_batches\<lparr>sv_work := [sv_work two_batches ! 1]\<rparr>)"
  let ?w = "\<lambda>es tx. Inserting 0 (sample_package [?e]) sample_dbclient es tx"
  let ?tx = "\<lparr>tab_clients = [], tab_events = [[''1'', ''1'', ''warning'', ''t'', ''p'', ''f'', ''9'']]\<rparr>"
  let ?t = "\<lparr>ts_server = ?s, ts_workers = [?w [?e] (db_data sample_database)]\<rparr>"
  let ?t1 = "\<lparr>ts_server = ?s, ts_workers = [?w [] ?tx]\<rparr>"
  have t: "run_thread ?h (Take 0) (idle_threads two_batches) = Inr ?t"
    using take_sample [of 0] by (simp add: two_batches_fields)
  have "insert_event sample_px sample_database (dc_clientID sample_dbclient) (db_data sample_database) ?e = Inr ?tx"
    by (simp add: insert_event_def exec_prepared_def sample_database_def prepared_statements sample_px_def
        Event_number_def sample_dbclient_def InitDatabase_def dispatchEventSeverity_def log_severities_def
        dec_int_def dec_nat.simps digit_char_def)
  then have t1: "run_thread ?h (Continue 0) ?t = Inr ?t1"
    by (simp add: sample_host_px two_batches_fields put_worker_def)
  obtain t2 where t2: "run_thread ?h (Continue 0) ?t1 = Inr t2"
      "tab_events (db_data (sv_db (ts_server t2))) = tab_events ?tx"
    by (simp add: sample_host_px two_batches_fields put_worker_def end_transaction_def commit_work_def sample_px_def)
  have "thread_reach ?h 4 (idle_threads two_batches) ?t"
    using t by (intro thread_reach.more [OF thread_reach.start, where e = "Take 0"])
      (simp_all add: idle_threads_def two_batches_fields)
  then have "thread_reach ?h 4 (idle_threads two_batches) ?t1"
    by (rule thread_reach.more [OF _ _ t1]) simp
  moreover have "db_conn (sv_db two_batches) \<noteq> Conn_busy" "thread_enabled 4 (Continue 0) ?t1"
    by (simp_all add: two_batches_fields)
  ultimately have one: "length (filter inserting (ts_workers ?t1)) \<le> 1"
    using batches_stay_whole [OF _ _ _ t2(1)] by blast
  show ?thesis
    by (intro exI [of _ ?t] exI [of _ ?t1] exI [of _ t2] conjI)
      (rule t, rule t1, rule t2(1), rule one, simp add: two_batches_fields, simp add: t2(2))
qed

end
