(* ===== verification/Client_Process.thy ===== *)
theory Client_Process
  imports Client_Network Machine_Id
begin

text \<open>
  The process of the client service: \<open>start\<close> in \<open>clientService.cpp\<close> and the console program that
  calls it (\<open>ClientServerRunner.cpp\<close>), with what happens afterwards as a step relation. The steps
  are the callbacks of the loop, the signal of the subscription, and the forwarding thread in two
  pieces per pass of its loop: from the wait to the packet sent, and \<open>ResetEvent\<close>.
\<close>

section \<open>Starting\<close>

text \<open>
  The state of the connection, whether the callback of \<open>uv_tcp_connect\<close> has run and with what
  success, the dispatcher with its only service, what \<open>EvtSubscribe\<close> gave that service's thread, and
  the handle which that thread is about to reset.
\<close>

record client_process =
  cp_net :: connecting
  cp_connected :: "bool option"
  cp_disp :: dispatcher
  cp_subscribed :: "bool option"
  cp_reset :: "wake option"

definition client_start ::
    "'x client_host \<Rightarrow> machine_api \<Rightarrow> winsock \<Rightarrow> u32 \<Rightarrow> statics \<Rightarrow> client_process outcome" where
  "client_start ch machine ws err st0 =
     bind_out (initProtobufLibrary (ch_env ch) machine st0) (\<lambda>st.
     bind_out (GetHandlerDispatcher_for (\<lambda>addr port. (new_connecting addr port False, HandlerDispatcher st))
                 ''10.70.20.60'' 53222 None) (\<lambda>(_, net, d).
     let d' = AddServiceHandler EventForwardHandler d in
     bind_out (Connect (ndebug (ch_env ch)) ws err net) (\<lambda>(_, net').
       Inr \<lparr>cp_net = net', cp_connected = None, cp_disp = d', cp_subscribed = None,
            cp_reset = None\<rparr>)))"

section \<open>Running\<close>

text \<open>
  The callback of the connection attempt, a read (of no bytes when it failed), the signal that
  Windows gives the subscription when events are logged, and of the forwarding thread: its call of
  \<open>EvtSubscribe\<close>, a pass of its loop (whether the wait fails and what \<open>EvtNext\<close> gives) up to the packet
  sent, and the \<open>ResetEvent\<close> that ends the pass. An acceptance or a signal can so arrive in between.
\<close>

datatype client_event =
    Connected int
  | Received "byte list"
  | Logged
  | Subscribes bool
  | Reads bool next_result
  | Resets

abbreviation the_service :: "client_process \<Rightarrow> forwarder" where
  "the_service p \<equiv> ds_services (cp_disp p) ! 0"

text \<open>\<open>EvtNext\<close> gives at most as many events as the array holds that it is given.\<close>

fun next_fits :: "next_result \<Rightarrow> bool" where
  "next_fits (Next_events ehs) \<longleftrightarrow> length ehs \<le> eventsPerSend"
| "next_fits (Next_failed _) \<longleftrightarrow> True"

fun client_enabled :: "client_event \<Rightarrow> client_process \<Rightarrow> bool" where
  "client_enabled (Connected _) p \<longleftrightarrow> cp_connected p = None"
| "client_enabled (Received _) p \<longleftrightarrow> cp_connected p = Some True"
| "client_enabled Logged p \<longleftrightarrow> cp_subscribed p = Some True"
| "client_enabled (Subscribes _) p \<longleftrightarrow> fw_thread (the_service p) = Running \<and> cp_subscribed p = None"
| "client_enabled (Reads _ nr) p \<longleftrightarrow>
     fw_thread (the_service p) = Running \<and> cp_subscribed p = Some True \<and> cp_reset p = None \<and> next_fits nr"
| "client_enabled Resets p \<longleftrightarrow> cp_reset p \<noteq> None"

definition put_dispatcher :: "client_process \<Rightarrow> dispatcher \<Rightarrow> client_process" where
  "put_dispatcher p d = p\<lparr>cp_disp := d\<rparr>"

fun run_client :: "'x client_host \<Rightarrow> client_event \<Rightarrow> client_process \<Rightarrow> client_process outcome" where
  "run_client ch (Connected status) p =
     bind_out (uvNetworkConnectCB (ch_env ch) status (cp_disp p)) (\<lambda>d.
       Inr (put_dispatcher (p\<lparr>cp_connected := Some (status = 0)\<rparr>) d))"
| "run_client ch (Received buf) p =
     bind_out (uvNetworkReadCB (ch_env ch) buf (cp_disp p)) (\<lambda>d. Inr (put_dispatcher p d))"
| "run_client ch Logged p = Inr (put_dispatcher p (signal_subscription 0 (cp_disp p)))"
| "run_client ch (Subscribes ok) p =
     bind_out (Start ch ok 0 [] (cp_disp p)) (\<lambda>(_, d, _).
       Inr (put_dispatcher (p\<lparr>cp_subscribed := Some ok\<rparr>) d))"
| "run_client ch (Reads failed nr) p =
     bind_out (forward_read ch failed nr 0 (cp_disp p)) (\<lambda>(wo, d). Inr (put_dispatcher (p\<lparr>cp_reset := wo\<rparr>) d))"
| "run_client ch Resets p =
     Inr (put_dispatcher (p\<lparr>cp_reset := None\<rparr>) (forward_reset (cp_reset p) 0 (cp_disp p)))"

inductive client_step :: "'x client_host \<Rightarrow> client_process \<Rightarrow> client_process \<Rightarrow> bool" for ch where
  step: "client_enabled e p \<Longrightarrow> run_client ch e p = Inr p' \<Longrightarrow> client_step ch p p'"

inductive_cases client_stepE: "client_step ch p p'"

inductive client_reach :: "'x client_host \<Rightarrow> client_process \<Rightarrow> client_process \<Rightarrow> bool" for ch and p0 where
  start: "client_reach ch p0 p0"
| more: "client_reach ch p0 p \<Longrightarrow> client_step ch p p' \<Longrightarrow> client_reach ch p0 p'"

text \<open>
  \<open>uv_run\<close> as the list of what happens while it runs; what cannot happen is passed over. The timer of
  \<open>StartDefaultLoop\<close> is repeated, so the loop never runs out of handles and \<open>start\<close> does not return:
  the result is the process as it is after those events.
\<close>

primrec StartDefaultLoop ::
    "'x client_host \<Rightarrow> client_event list \<Rightarrow> client_process \<Rightarrow> client_process outcome" where
  "StartDefaultLoop ch [] p = Inr p"
| "StartDefaultLoop ch (e # es) p =
     (if client_enabled e p then bind_out (run_client ch e p) (StartDefaultLoop ch es)
      else StartDefaultLoop ch es p)"

text \<open>\<open>main\<close> of the console program: the text it writes and the client it has become.\<close>

definition runner_main ::
    "'x client_host \<Rightarrow> machine_api \<Rightarrow> winsock \<Rightarrow> u32 \<Rightarrow> statics \<Rightarrow> client_event list
       \<Rightarrow> (string \<times> client_process) outcome" where
  "runner_main ch machine ws err st0 events =
     bind_out (client_start ch machine ws err st0) (\<lambda>p.
     bind_out (StartDefaultLoop ch events p) (\<lambda>p'. Inr (''Hello World!'' @ [CHR 0x0A], p')))"

text \<open>What the loop does is a run of the step relation.\<close>

lemma StartDefaultLoop_reach:
  "client_reach ch p0 p \<Longrightarrow> StartDefaultLoop ch es p = Inr p' \<Longrightarrow> client_reach ch p0 p'"
proof (induction es arbitrary: p)
  case (Cons e es)
  show ?case
  proof (cases "client_enabled e p")
    case True
    with Cons.prems(2) obtain q where "run_client ch e p = Inr q" and rest: "StartDefaultLoop ch es q = Inr p'"
      by (auto simp: bind_out_Inr_iff)
    with True Cons.prems(1) have "client_reach ch p0 q" by (blast intro: client_reach.more client_step.step)
    from this rest show ?thesis by (rule Cons.IH)
  next
    case False
    with Cons show ?thesis by simp
  qed
qed simp

text \<open>Nor does the thread on its own do anything that the step relation does not.\<close>

fun input_fits :: "thread_input \<Rightarrow> bool" where
  "input_fits Signalled \<longleftrightarrow> True"
| "input_fits (Pass _ nr) \<longleftrightarrow> next_fits nr"

lemma forward_pass_reach:
  assumes "client_reach ch p0 p" and "client_enabled (Reads failed nr) p"
    and "forward_pass ch failed nr 0 (cp_disp p) = Inr d"
  shows "client_reach ch p0 (put_dispatcher p d)"
proof -
  from assms(3) obtain wo d1 where d1: "forward_read ch failed nr 0 (cp_disp p) = Inr (wo, d1)"
      "d = forward_reset wo 0 d1" by (auto simp: forward_pass_def bind_out_Inr_iff)
  let ?p = "put_dispatcher (p\<lparr>cp_reset := wo\<rparr>) d1"
  have "client_step ch p ?p"
    by (rule client_step.step [OF assms(2)]) (simp add: d1)
  with assms(1) have reach: "client_reach ch p0 ?p" by (rule client_reach.more)
  show ?thesis
  proof (cases wo)
    case None
    moreover have "put_dispatcher (p\<lparr>cp_reset := None\<rparr>) d1 = put_dispatcher p d1"
      using assms(2) by (cases p) (simp add: put_dispatcher_def)
    ultimately show ?thesis using reach d1 by (simp add: forward_reset_def)
  next
    case (Some w)
    then have "client_step ch ?p (put_dispatcher (?p\<lparr>cp_reset := None\<rparr>) d)"
      by (intro client_step.step [where e = Resets]) (simp_all add: put_dispatcher_def d1)
    with reach have "client_reach ch p0 (put_dispatcher (?p\<lparr>cp_reset := None\<rparr>) d)"
      by (rule client_reach.more)
    moreover have "put_dispatcher (?p\<lparr>cp_reset := None\<rparr>) d = put_dispatcher p d"
      using assms(2) by (cases p) (simp add: put_dispatcher_def)
    ultimately show ?thesis by simp
  qed
qed

lemma put_same_dispatcher: "put_dispatcher p (cp_disp p) = p"
  by (simp add: put_dispatcher_def)

lemma start_rounds_reach:
  assumes "client_reach ch p0 p" and "cp_subscribed p = Some True" and "cp_reset p = None"
    and "\<forall>x \<in> set xs. input_fits x" and "start_rounds ch 0 xs (cp_disp p) = Inr d"
  shows "client_reach ch p0 (put_dispatcher p d)"
  using assms
proof (induction xs arbitrary: p)
  case Nil
  then show ?case using put_same_dispatcher [of p] by simp
next
  case (Cons x xs)
  have again: "put_dispatcher (put_dispatcher p d1) d = put_dispatcher p d" for d1
    by (simp add: put_dispatcher_def)
  show ?case
  proof (cases x)
    case Signalled
    let ?p = "put_dispatcher p (signal_subscription 0 (cp_disp p))"
    have "client_step ch p ?p"
      by (rule client_step.step [where e = Logged]) (simp_all add: Cons.prems)
    with Cons.prems(1) have "client_reach ch p0 ?p" by (rule client_reach.more)
    from Cons.IH [OF this] Cons.prems Signalled show ?thesis by (simp add: again) (simp add: put_dispatcher_def)
  next
    case (Pass failed nr)
    show ?thesis
    proof (cases "fw_thread (the_service p) = Running")
      case True
      with Cons.prems(5) Pass obtain d1 where d1: "forward_pass ch failed nr 0 (cp_disp p) = Inr d1"
          "start_rounds ch 0 xs d1 = Inr d" by (auto simp: bind_out_Inr_iff)
      have "client_reach ch p0 (put_dispatcher p d1)"
        by (rule forward_pass_reach [OF Cons.prems(1) _ d1(1)]) (use True Cons.prems Pass in simp)
      from Cons.IH [OF this] Cons.prems d1(2) show ?thesis by (simp add: again) (simp add: put_dispatcher_def)
    next
      case False
      with Cons.prems Pass show ?thesis using put_same_dispatcher [of p] by simp
    qed
  qed
qed

end
