(* ===== verification/Event_Delivery.thy ===== *)
theory Event_Delivery
  imports End_To_End
begin

text \<open>
  The way of an event from the event log of a client into the database of the server: read and
  filtered by the forwarding thread, packed, sent, received in whatever pieces the network makes of
  it, handed to a work item and inserted.
\<close>

section \<open>A package that arrives in pieces\<close>

definition receive_chunks ::
    "'db host \<Rightarrow> nat \<Rightarrow> bool \<Rightarrow> 'db server \<Rightarrow> byte list list \<Rightarrow> 'db server outcome" where
  "receive_chunks h c hb s chunks =
     fold_out (\<lambda>s bs. run_event h (Readable c (Read_bytes bs) hb) s) s chunks"

text \<open>One read of the decoder, by what the stream makes of the bytes.\<close>

lemma decoder_read_consumes:
  assumes "decoder_inv d" and "bs \<noteq> []" and "consume en st (vec d) (pending d @ bs) = Inr (st', q, r)"
  obtains x d' where "decoder_read en st d bs = Inr (x, st', d')"
    and "vec d' = q" and "pending d' = r" and "decoder_inv d'"
proof -
  have "simulates (feed_decoder en (st, d) bs) (Inr (st', q, r))"
    using feed_decoder_simulates [of "(st, d)" bs en] assms by (simp add: stream_feed_def stream_of_def)
  then obtain d' where "feed_decoder en (st, d) bs = Inr (st', d')" "vec d' = q" "pending d' = r" "decoder_inv d'"
    by (cases "feed_decoder en (st, d) bs") auto
  with that show thesis
    by (cases "decoder_read en st d bs") (auto simp: feed_decoder_def)
qed

text \<open>What does not change while a client's bytes are only collected.\<close>

definition unmoved :: "nat \<Rightarrow> client \<Rightarrow> 'db server \<Rightarrow> client \<Rightarrow> 'db server \<Rightarrow> bool" where
  "unmoved c cl s cl' s' \<longleftrightarrow>
     map_find c (sv_heap s') = Some cl' \<and> cl_client cl' = cl_client cl
     \<and> sv_db s' = sv_db s \<and> sv_work s' = sv_work s \<and> sv_sending s' = sv_sending s
     \<and> sv_dbConnected s' = sv_dbConnected s \<and> same_identity (sv_statics s) (sv_statics s')"

lemma read_collects:
  assumes "map_find c (sv_heap s) = Some cl" and "cl_client cl = Some dc" and "bs \<noteq> []"
    and "decoder_inv (cl_decoder cl)" and "vec (cl_decoder cl) = []"
    and "consume (h_env h) (sv_statics s) [] (pending (cl_decoder cl) @ bs) = Inr (sv_statics s, [], r)"
  shows "\<exists>cl' s'. run_event h (Readable c (Read_bytes bs) hb) s = Inr s' \<and> unmoved c cl s cl' s'
    \<and> decoder_inv (cl_decoder cl') \<and> vec (cl_decoder cl') = [] \<and> pending (cl_decoder cl') = r
    \<and> sv_statics s' = sv_statics s"
proof -
  obtain x d where d: "decoder_read (h_env h) (sv_statics s) (cl_decoder cl) bs = Inr (x, sv_statics s, d)"
      "vec d = []" "pending d = r" "decoder_inv d"
    using decoder_read_consumes [OF assms(4,3), of "h_env h" "sv_statics s" "sv_statics s" "[]" r] assms(5,6)
    by auto
  let ?cl = "cl\<lparr>cl_decoder := d\<rparr>"
  have "run_event h (Readable c (Read_bytes bs) hb) s = Inr (set_client c ?cl s)"
    using assms(1-3) d(1,2)
    by (simp add: uvReadCB_def deref_client_def deref_dbclient_def readFromNetwork_def
        GetProtobufMessage_simps)
  then show ?thesis
    using d(2-4) by (intro exI [of _ ?cl] exI [of _ "set_client c ?cl s"]) (simp add: unmoved_def)
qed

lemma bind_out_Inr_right [simp]: "bind_out r Inr = r"
  by (cases r) simp_all

lemma read_completes:
  assumes "map_find c (sv_heap s) = Some cl" and "cl_client cl = Some dc" and "bs \<noteq> []"
    and "decoder_inv (cl_decoder cl)" and "vec (cl_decoder cl) = []" and "\<not> sv_dbConnected s"
    and "consume (h_env h) (sv_statics s) [] (pending (cl_decoder cl) @ bs) = Inr (st', [Some m'], [])"
  shows "\<exists>cl' s'. run_event h (Readable c (Read_bytes bs) hb) s = handle_message h c cl' m' s'
    \<and> unmoved c cl s cl' s' \<and> idle (cl_decoder cl')"
proof -
  obtain x d where d: "decoder_read (h_env h) (sv_statics s) (cl_decoder cl) bs = Inr (x, st', d)"
      "vec d = [Some m']" "pending d = []" "decoder_inv d"
    using decoder_read_consumes [OF assms(4,3), of "h_env h" "sv_statics s" st' "[Some m']" "[]"] assms(5,7)
    by auto
  let ?cl = "cl\<lparr>cl_decoder := d\<lparr>vec := []\<rparr>\<rparr>"
  let ?s = "set_client c ?cl (s\<lparr>sv_statics := st'\<rparr>)"
  have "run_event h (Readable c (Read_bytes bs) hb) s = handle_message h c ?cl m' ?s"
    using assms(1-3,6) d(1,2)
    by (simp add: uvReadCB_def deref_client_def deref_dbclient_def readFromNetwork_def
        GetProtobufMessage_simps Let_def)
  moreover have "same_identity (sv_statics s) st'" by (rule consume_identity [OF assms(7)])
  ultimately show ?thesis
    using idle_pop [OF d(4,3)] by (intro exI [of _ ?cl] exI [of _ ?s]) (simp add: unmoved_def)
qed

lemma unmoved_trans: "unmoved c cl s cl1 s1 \<Longrightarrow> unmoved c cl1 s1 cl2 s2 \<Longrightarrow> unmoved c cl s cl2 s2"
  by (auto simp: unmoved_def intro: same_identity_trans)

lemma receive_pending:
  assumes "sendable (h_env h) (stm, m)" and "[] \<notin> set chunks" and "chunks \<noteq> []"
    and "map_find c (sv_heap s) = Some cl" and "cl_client cl = Some dc" and "\<not> sv_dbConnected s"
    and "decoder_inv (cl_decoder cl)" and "vec (cl_decoder cl) = []"
    and "pending (cl_decoder cl) @ concat chunks = sent_bytes (h_env h) stm m"
  shows "\<exists>cl' s' m'. receive_chunks h c hb s chunks = handle_message h c cl' m' s'
    \<and> unmoved c cl s cl' s' \<and> idle (cl_decoder cl') \<and> delivered stm m m'"
  using assms(2-)
proof (induction chunks arbitrary: s cl)
  case (Cons bs chunks)
  let ?en = "h_env h" and ?b = "sent_bytes (h_env h) stm m"
  have bs: "bs \<noteq> []" using Cons.prems(1) by auto
  show ?case
  proof (cases "chunks = []")
    case True
    obtain st' m' where "delivered stm m m'"
        "\<And>r. consume ?en (sv_statics s) [] (?b @ r) = consume ?en st' ([] @ [Some m']) r"
      using consume_sent [OF assms(1)] by metis
    note m' = this(1) and step = this(2) [of "[]"]
    have "consume ?en (sv_statics s) [] (pending (cl_decoder cl) @ bs) = Inr (st', [Some m'], [])"
      using step True Cons.prems(8) by (simp add: consume_wait)
    from read_completes [OF Cons.prems(3,4) bs Cons.prems(6,7,5) this, of hb] m' True show ?thesis
      by (auto simp: receive_chunks_def)
  next
    case False
    with Cons.prems(1) have "concat chunks \<noteq> []" by (cases chunks) auto
    define k where "k = length (pending (cl_decoder cl) @ bs)"
    have full: "(pending (cl_decoder cl) @ bs) @ concat chunks = ?b" using Cons.prems(8) by simp
    have "?b = (pending (cl_decoder cl) @ bs) @ concat chunks" using full by simp
    then have k: "k < length ?b" "take k ?b = pending (cl_decoder cl) @ bs"
      using \<open>concat chunks \<noteq> []\<close> by (simp_all add: k_def)
    from consume_sent_prefix [OF assms(1) k(1), of "sv_statics s" "[]"]
    have "consume ?en (sv_statics s) [] (pending (cl_decoder cl) @ bs) =
        Inr (sv_statics s, [], pending (cl_decoder cl) @ bs)" by (simp only: k(2))
    from read_collects [OF Cons.prems(3,4) bs Cons.prems(6,7) this, of hb] obtain cl1 s1 where
      s1: "run_event h (Readable c (Read_bytes bs) hb) s = Inr s1" "unmoved c cl s cl1 s1"
        "decoder_inv (cl_decoder cl1)" "vec (cl_decoder cl1) = []"
        "pending (cl_decoder cl1) = pending (cl_decoder cl) @ bs" by blast
    have "\<exists>cl' s' m'. receive_chunks h c hb s1 chunks = handle_message h c cl' m' s'
        \<and> unmoved c cl1 s1 cl' s' \<and> idle (cl_decoder cl') \<and> delivered stm m m'"
      using Cons.prems s1 False full by (intro Cons.IH) (auto simp: unmoved_def)
    then show ?thesis
      using s1(1,2) unmoved_trans by (fastforce simp: receive_chunks_def)
  qed
qed simp

lemma receive_package:
  assumes "sendable (h_env h) (stm, m)" and "[] \<notin> set chunks"
    and "concat chunks = sent_bytes (h_env h) stm m"
    and "map_find c (sv_heap s) = Some cl" and "cl_client cl = Some dc" and "\<not> sv_dbConnected s"
    and "idle (cl_decoder cl)"
  obtains cl' s' m' where "receive_chunks h c hb s chunks = handle_message h c cl' m' s'"
    and "unmoved c cl s cl' s'" and "idle (cl_decoder cl')" and "delivered stm m m'"
proof -
  have "chunks \<noteq> []" using assms(3) sent_bytes_nonempty [OF assms(1)] by auto
  with receive_pending [OF assms(1,2) this assms(4-6), of hb] assms(3,7) that show thesis
    by (auto simp: idle_def)
qed

section \<open>From the event log into the database\<close>

text \<open>
  Written without the code: the severity under which an event is stored, the parameters of the
  statement for it, and the database after one such statement per event.
\<close>

primrec severity_text :: "logLevel \<Rightarrow> string" where
  "severity_text fatal = ''others''"
| "severity_text error = ''fatal''"
| "severity_text warning = ''error''"
| "severity_text info = ''warning''"
| "severity_text verbose = ''info''"

definition row_of_event :: "'x client_host \<Rightarrow> int \<Rightarrow> event \<Rightarrow> string list" where
  "row_of_event ch cid p =
     [dec_int cid, severity_text (ev_llevel p), ev_timeStamp p, ev_provider p,
      if ch_open_metadata ch (c_str (ev_provider p)) = None then [] else ev_xml p,
      dec_nat (unat (ev_rid p))]"

definition insert_rows :: "'db pqxx \<Rightarrow> 'db \<Rightarrow> string list list \<Rightarrow> 'db outcome" where
  "insert_rows px d rows =
     fold_out (\<lambda>d ps. bind_out (raise_exn (px_exec_params px insertEvent_sql ps d)) (\<lambda>r. Inr (snd r)))
       d rows"

lemma severity_text_received:
  "dispatchEventSeverity (sint (ev_level (received_event e))) = severity_text (ev_llevel e)"
  by (cases "ev_llevel e") (simp_all add: received_event_def dispatchEventSeverity_def)

lemma insert_event_row:
  assumes "map_find ''insertEvent'' (db_prepared s) = Some insertEvent_sql"
  shows "insert_event px s cid d (received_event (formatted ch p)) =
    bind_out (raise_exn (px_exec_params px insertEvent_sql (row_of_event ch cid p) d)) (\<lambda>r. Inr (snd r))"
proof -
  have "insert_event px s cid d (received_event (formatted ch p)) =
      bind_out (raise_exn (px_exec_params px insertEvent_sql
        [dec_int cid, severity_text (ev_llevel (formatted ch p)), ev_timeStamp p, ev_provider p,
         ev_format (formatted ch p), dec_nat (unat (ev_rid p))] d)) (\<lambda>(_, tx'). Inr tx')"
    unfolding insert_event_def exec_prepared_def assms severity_text_received
    by (simp add: received_event_def formatted_def)
  then show ?thesis by (simp add: row_of_event_def formatted_def split_def)
qed

lemma insert_rows_events:
  assumes "map_find ''insertEvent'' (db_prepared s) = Some insertEvent_sql"
  shows "fold_out (insert_event px s cid) d (map (\<lambda>p. received_event (formatted ch p)) ps) =
    insert_rows px d (map (row_of_event ch cid) ps)"
  by (induction ps arbitrary: d) (simp_all add: insert_rows_def insert_event_row [OF assms])

lemma queued_batch_stored:
  assumes "map_find c (sv_heap s) = Some cl" and "cl_client cl = Some dc" and "sv_work s = [(c, m)]"
    and "DB_InsertWindowsEvents (h_px h) dc (GetEvents m) (sv_db s) = Inr (n, db)"
    and "session_ok (h_env h) (sv_statics s)"
  shows "\<exists>s'. run_event h (Work_runs 0) s = Inr s' \<and> sv_db s' = db
    \<and> length (sv_sending s') = length (sv_sending s) + (if NeedAccept m then 1 else 0)"
proof -
  let ?a = "AcceptLastEventPackage (cl_lid cl + 1) (sv_statics s)"
  have "answer h c ?a (s\<lparr>sv_work := [], sv_db := db\<rparr>) = Inr (s\<lparr>sv_work := [], sv_db := db,
      sv_statics := snd ?a,
      sv_sending := sv_sending s @ [\<lparr>so_buf = sent_bytes (h_env h) (snd ?a) (fst ?a), so_sock = c\<rparr>],
      sv_writeAsync := True\<rparr>)"
    using answer_sendable [OF session_okD(4) [OF assms(5) same_identity_refl], where c = c
        and s = "s\<lparr>sv_work := [], sv_db := db\<rparr>"] by simp
  with assms(1-4) show ?thesis
    by (simp add: run_work_def deref_client_def deref_dbclient_def Let_def)
qed

lemma log_package_queued:
  assumes "idle (cl_decoder cl')" and "delivered stm (AddLogEvents es (fst (LogPackage ac st))) m'"
    and "es \<noteq> []" and "h_past_end h = Some rid" and "unmoved c cl s cl' s'" and "sv_work s = []"
  obtains cl2 s2 where "handle_message h c cl' m' s' = Inr s2" and "unmoved c cl s cl2 (s2\<lparr>sv_work := []\<rparr>)"
    and "sv_work s2 = [(c, m')]" and "GetEvents m' = map received_event es" and "NeedAccept m' = ac"
proof -
  have m': "msg_op m' = UPDATE_LOG" "GetEvents m' = map received_event es" "NeedAccept m' = ac"
    using assms(2) by (simp_all add: delivered_def AddLogEvents_def GetEvents_def NeedAccept_def constructor_defs)
  let ?cl = "cl'\<lparr>cl_lid := rid\<rparr>"
  let ?s = "set_client c ?cl (s'\<lparr>sv_work := sv_work s' @ [(c, m')]\<rparr>)"
  show thesis
    using m' assms(3-6) by (intro that [of ?s ?cl]) (simp_all add: handle_message_def unmoved_def)
qed

text \<open>C2. An event log that is read completely reaches the database: the events of a batch from the
  id to resume at on are sent in one package, and however the network cuts its bytes, the server
  queues one work item whose run executes exactly one insert statement per event, in order, with
  the fields the event had in the log, and commits. Two fields differ: the severity is stored one step
  more severe than it was logged, and the text is the XML of the event, or nothing when the metadata
  of its provider cannot be opened. A full batch is also acknowledged.\<close>

theorem logged_events_stored:
  defines "wanted f ps \<equiv> filter (\<lambda>p. fw_lastEventIDUploaded f \<le> ev_rid p) ps"
    and "lp d ehs \<equiv> LogPackage (length ehs = eventsPerSend) (ds_statics d)"
  assumes "woken (ds_services d ! i)" and "ch_env ch = h_env h"
    and "list_all2 (reads_as ch) ehs ps" and "cache_ok ch (fw_metadata (ds_services d ! i))"
    and "wanted (ds_services d ! i) ps \<noteq> []"
    and "sendable (h_env h) (snd (lp d ehs),
      AddLogEvents (map (formatted ch) (wanted (ds_services d ! i) ps)) (fst (lp d ehs)))"
    and "map_find c (sv_heap s) = Some cl" and "idle (cl_decoder cl)" and "cl_client cl = Some dc"
    and "\<not> sv_dbConnected s" and "sv_work s = []" and "session_ok (h_env h) (sv_statics s)"
    and "h_past_end h = Some rid" and "db_conn (sv_db s) = Conn_live True"
    and "map_find ''insertEvent'' (db_prepared (sv_db s)) = Some insertEvent_sql"
    and "insert_rows (h_px h) (db_data (sv_db s))
      (map (row_of_event ch (dc_clientID dc)) (wanted (ds_services d ! i) ps)) = Inr tx"
    and "px_commit (h_px h) tx = None"
  shows "\<exists>d' b. forward_round ch (Next_events ehs) i d = Inr d' \<and> ds_out d' = ds_out d @ [b]
    \<and> (\<forall>chunks. [] \<notin> set chunks \<and> concat chunks = b \<longrightarrow>
        (\<exists>s1 s2. receive_chunks h c hb s chunks = Inr s1 \<and> sv_db s1 = sv_db s
           \<and> run_event h (Work_runs 0) s1 = Inr s2 \<and> sv_db s2 = (sv_db s)\<lparr>db_data := tx\<rparr>
           \<and> length (sv_sending s2) = length (sv_sending s) + (if length ehs = eventsPerSend then 1 else 0)))"
proof -
  let ?f = "ds_services d ! i" and ?ps = "wanted (ds_services d ! i) ps"
  let ?es = "map (formatted ch) ?ps"
  let ?m = "AddLogEvents ?es (fst (lp d ehs))"
  let ?b = "sent_bytes (h_env h) (snd (lp d ehs)) ?m"
  obtain md where enum: "EnumerateResults ch (Next_events ehs) (fw_lastEventIDUploaded ?f) [] (fw_metadata ?f)
      = Inr (int (length ehs), ?es, md)"
    using enumerate_loop_complete [OF assms(5,6), of "fw_lastEventIDUploaded ?f" "ch_raw_event ch" "[]"]
      list_all2_lengthD [OF assms(5)] by (auto simp: EnumerateResults_def wanted_def)
  obtain d' where d': "forward_round ch (Next_events ehs) i d = Inr d'" "ds_out d' = ds_out d @ [?b]"
    using forward_round_sends [OF assms(3) enum] assms(4,8) by (auto simp: lp_def)
  have "\<exists>s1 s2. receive_chunks h c hb s chunks = Inr s1 \<and> sv_db s1 = sv_db s
           \<and> run_event h (Work_runs 0) s1 = Inr s2 \<and> sv_db s2 = (sv_db s)\<lparr>db_data := tx\<rparr>
           \<and> length (sv_sending s2) = length (sv_sending s) + (if length ehs = eventsPerSend then 1 else 0)"
    if chunks: "[] \<notin> set chunks" "concat chunks = ?b" for chunks
  proof -
    obtain cl1 s0 m' where r: "receive_chunks h c hb s chunks = handle_message h c cl1 m' s0"
        "unmoved c cl s cl1 s0" "idle (cl_decoder cl1)" "delivered (snd (lp d ehs)) ?m m'"
      using receive_package [OF assms(8) chunks assms(9,11,12,10), of hb] by blast
    from assms(7) have "?es \<noteq> []" by simp
    from log_package_queued [OF r(3) r(4) [unfolded lp_def] this assms(15) r(2) assms(13)] obtain cl2 s1 where
      q: "handle_message h c cl1 m' s0 = Inr s1" "unmoved c cl s cl2 (s1\<lparr>sv_work := []\<rparr>)"
        "sv_work s1 = [(c, m')]" "GetEvents m' = map received_event ?es"
        "NeedAccept m' = (length ehs = eventsPerSend)" by blast
    then have s1: "map_find c (sv_heap s1) = Some cl2" "cl_client cl2 = Some dc" "sv_db s1 = sv_db s"
        "session_ok (h_env h) (sv_statics s1)" "sv_sending s1 = sv_sending s"
      using assms(11,14) by (auto simp: unmoved_def intro: session_ok_later)
    have "DB_InsertWindowsEvents (h_px h) dc (GetEvents m') (sv_db s1) = Inr (0, (sv_db s)\<lparr>db_data := tx\<rparr>)"
      using insert_rows_events [OF assms(17), of "h_px h" "dc_clientID dc" "db_data (sv_db s)" ch ?ps]
        assms(18,19) InsertWindowsEvents_eq [OF begin_work_live [OF assms(16)]]
      by (simp add: q(4) s1(3) comp_def commit_work_def)
    from queued_batch_stored [OF s1(1,2) q(3) this s1(4)] show ?thesis
      using r(1) q(1,5) s1(3,5) by auto
  qed
  with d' show ?thesis by blast
qed

text \<open>A log with two events of level 7, which is no severity of its own.\<close>

definition two_pieces :: "byte list \<Rightarrow> byte list list" where
  "two_pieces b = filter (\<lambda>x. x \<noteq> []) [take 5 b, drop 5 b]"

lemma two_pieces: "[] \<notin> set (two_pieces b)" "concat (two_pieces b) = b"
  by (auto simp: two_pieces_def)

theorem logged_events_stored_witness:
  "\<exists>d' b s1 s2. forward_round sample_client_host (Next_events [sample_handle ''7'', sample_handle ''9'']) 0
        sample_dispatcher = Inr d' \<and> ds_out d' = [b]
    \<and> receive_chunks (sample_host False None\<lparr>h_env := sample_env False Windows\<rparr>) 0 False one_client
        (two_pieces b) = Inr s1
    \<and> run_event (sample_host False None\<lparr>h_env := sample_env False Windows\<rparr>) (Work_runs 0) s1 = Inr s2
    \<and> tab_events (db_data (sv_db s2)) =
        [[''1'', ''1'', ''info'', ''7'', ''7'', ''7'', ''7''], [''2'', ''1'', ''info'', ''9'', ''9'', ''9'', ''9'']]"
proof -
  let ?h = "sample_host False None\<lparr>h_env := sample_env False Windows\<rparr>"
  let ?e = "\<lambda>x n. Event_number x [] x x n n"
  let ?ps = "[?e ''7'' 7, ?e ''9'' 9]"
  let ?ehs = "[sample_handle ''7'', sample_handle ''9'']"
  let ?db = "\<lparr>tab_clients = [], tab_events =
    [[''1'', ''1'', ''info'', ''7'', ''7'', ''7'', ''7''], [''2'', ''1'', ''info'', ''9'', ''9'', ''9'', ''9'']]\<rparr>"
  have v: "atoi_value ''7'' = 7" "atoi_value ''9'' = 9"
    by (simp_all add: atoi_value_def is_digit_def)
  have reads: "list_all2 (reads_as sample_client_host) ?ehs ?ps"
    using sample_reads_as [of "''7''"] sample_reads_as [of "''9''"] by (simp add: v)
  have f: "ds_services sample_dispatcher ! 0 = EventForwardHandler" by (simp add: sample_client_fields)
  have n: "(length ?ehs = eventsPerSend) = False" by (simp add: eventsPerSend_def)
  have from_start: "fw_lastEventIDUploaded EventForwardHandler \<le> ev_rid e" for e
    by (simp add: EventForwardHandler_def)
  have db: "db_data sample_database = \<lparr>tab_clients = [], tab_events = []\<rparr>"
    "db_conn sample_database = Conn_live True"
    "map_find ''insertEvent'' (db_prepared sample_database) = Some insertEvent_sql"
    by (simp_all add: sample_database_def prepared_statements) (simp_all add: with_statements_def InitDatabase_def)
  have rows: "insert_rows (h_px ?h) (db_data sample_database)
      (map (row_of_event sample_client_host (dc_clientID sample_dbclient)) ?ps) = Inr ?db"
    by (simp add: db insert_rows_def sample_host_fields sample_px_def row_of_event_def sample_dbclient_def
        sample_client_host_def Event_number_def event_dispatch_number_def log_severities_def
        dec_nat.simps dec_int_def digit_char_def Let_def)
  have send: "sendable (sample_env False Windows) (snd (LogPackage False sample_statics),
      AddLogEvents (map (formatted sample_client_host) ?ps) (fst (LogPackage False sample_statics)))"
    by (rule sample_log_sendable) (auto simp: formatted_def Event_number_def)
  have more: "woken EventForwardHandler" "ch_env sample_client_host = h_env ?h" "cache_ok sample_client_host (fw_metadata EventForwardHandler)"
      "session_ok (h_env ?h) sample_statics" "px_commit (h_px ?h) ?db = None" "h_past_end ?h = Some 0"
    by (simp_all add: woken_def EventForwardHandler_def sample_client_host_def cache_ok_def map_find_def
        sample_session_ok sample_host_fields sample_px_def)
  have "\<exists>d' b. forward_round sample_client_host (Next_events ?ehs) 0 sample_dispatcher = Inr d'
    \<and> ds_out d' = [b]
    \<and> (\<forall>chunks. [] \<notin> set chunks \<and> concat chunks = b \<longrightarrow>
        (\<exists>s1 s2. receive_chunks ?h 0 False one_client chunks = Inr s1 \<and> sv_db s1 = sv_db one_client
           \<and> run_event ?h (Work_runs 0) s1 = Inr s2 \<and> sv_db s2 = (sv_db one_client)\<lparr>db_data := ?db\<rparr>
           \<and> length (sv_sending s2) = length (sv_sending one_client)
               + (if length ?ehs = eventsPerSend then 1 else 0)))"
    using logged_events_stored [of sample_dispatcher 0 sample_client_host ?h ?ehs ?ps 0 one_client
        "new_client\<lparr>cl_client := Some sample_dbclient\<rparr>" sample_dbclient 0 ?db False]
      reads rows send more db
    unfolding f n sample_client_fields one_client_fields
    by (simp add: one_client_idle new_client_def from_start)
  then obtain d' b where b: "forward_round sample_client_host (Next_events ?ehs) 0 sample_dispatcher = Inr d'"
      "ds_out d' = [b]"
    and all: "\<forall>chunks. [] \<notin> set chunks \<and> concat chunks = b \<longrightarrow>
        (\<exists>s1 s2. receive_chunks ?h 0 False one_client chunks = Inr s1 \<and> sv_db s1 = sv_db one_client
           \<and> run_event ?h (Work_runs 0) s1 = Inr s2 \<and> sv_db s2 = (sv_db one_client)\<lparr>db_data := ?db\<rparr>
           \<and> length (sv_sending s2) = length (sv_sending one_client)
               + (if length ?ehs = eventsPerSend then 1 else 0))" by blast
  from all two_pieces [of b] obtain s1 s2 where
    run: "receive_chunks ?h 0 False one_client (two_pieces b) = Inr s1" "run_event ?h (Work_runs 0) s1 = Inr s2"
    and "sv_db s2 = (sv_db one_client)\<lparr>db_data := ?db\<rparr>" by blast
  from arg_cong [OF this(3), of "\<lambda>x. tab_events (db_data x)"]
  have "tab_events (db_data (sv_db s2)) = tab_events ?db" by simp
  then have "tab_events (db_data (sv_db s2)) =
      [[''1'', ''1'', ''info'', ''7'', ''7'', ''7'', ''7''], [''2'', ''1'', ''info'', ''9'', ''9'', ''9'', ''9'']]"
    by (simp only: sample_tables.select_convs)
  with b run show ?thesis by blast
qed

end
