(* ===== verification/Client_Properties.thy ===== *)
theory Client_Properties
  imports Client_Process Event_Delivery Machine_Properties
begin

text \<open>
  What a client sends, in every state its process can reach: an invariant over the packages behind
  the bytes it has given to \<open>Send\<close>.
\<close>

section \<open>Packages and bytes\<close>

definition packed_as :: "env \<Rightarrow> byte list \<Rightarrow> statics \<times> message \<Rightarrow> bool" where
  "packed_as en b sm \<longleftrightarrow> (\<exists>ok m'. toBytes en (fst sm) (snd sm) = Inr (ok, b, m'))"

lemma send_package_packed:
  assumes "send_package en mst d = Inr d'"
  obtains b where "ds_out d' = ds_out d @ [b]" and "packed_as en b (snd mst, fst mst)"
    and "ds_services d' = ds_services d" and "ds_statics d' = snd mst" and "ds_decoder d' = ds_decoder d"
  using assms by (auto simp: send_package_def Send_def bind_out_Inr_iff packed_as_def)

text \<open>A batch is at most as long as what \<open>EvtNext\<close> gave.\<close>

lemma enumerate_loop_length:
  "enumerate_loop h ig ehs e sent m = Inr (ok, sent', m') \<Longrightarrow> length sent' \<le> length sent + length ehs"
proof (induction ehs arbitrary: e sent m)
  case (Cons eh ehs)
  show ?case
  proof (cases "PrintEvent (eh_render eh)")
    case (Some xml)
    with Cons.prems obtain e1 where "ParseEventXml h xml e = Inr e1"
      by (cases "ParseEventXml h xml e") auto
    with Some Cons.prems show ?thesis
      by (auto simp: split_def Let_def split: if_splits dest!: Cons.IH)
  qed (use Cons.prems in auto)
qed simp

lemma EnumerateResults_length:
  assumes "EnumerateResults h nr ig [] m = Inr (n, es, m')" and "next_fits nr"
  shows "length es \<le> eventsPerSend"
proof (cases nr)
  case (Next_events ehs)
  with assms(1) obtain ok where "enumerate_loop h ig ehs (ch_raw_event h) [] m = Inr (ok, es, m')"
    by (auto simp: EnumerateResults_def bind_out_Inr_iff)
  with enumerate_loop_length [OF this] assms(2) Next_events show ?thesis by simp
qed (use assms(1) in \<open>simp add: EnumerateResults_def\<close>)

section \<open>The steps of the parts\<close>

text \<open>Everything but the state of the thread and the numbers stays, or one package is sent.\<close>

lemma resumed_or_kept: "fw_thread (GetProtobufPackage msg f) \<in> {fw_thread f, resume_thread (fw_thread f)}"
  by (auto simp: GetProtobufPackage_def split: body.split)

lemma decoder_read_identity:
  assumes "decoder_read en st d buf = Inr (x, st', d')" and "decoder_inv d" and "buf \<noteq> []"
  shows "same_identity st st' \<and> decoder_inv d'"
proof -
  have "simulates (feed_decoder en (st, d) buf) (consume en st (vec d) (pending d @ buf))"
    using feed_decoder_simulates [of "(st, d)" buf en] assms(2,3) by (simp add: stream_feed_def stream_of_def)
  with assms(1) show ?thesis by (auto simp: feed_decoder_def dest: consume_identity)
qed

text \<open>What a read keeps of the dispatcher.\<close>

definition same_process :: "dispatcher \<Rightarrow> dispatcher \<Rightarrow> bool" where
  "same_process d d' \<longleftrightarrow> same_identity (ds_statics d) (ds_statics d') \<and> decoder_inv (ds_decoder d')"

lemma client_reads:
  assumes "uvNetworkReadCB en buf d = Inr d'" and "ds_services d = [f]" and "decoder_inv (ds_decoder d)"
  obtains (quiet) f' where "ds_out d' = ds_out d" and "ds_services d' = [f']" and "same_process d d'"
      and "fw_thread f' \<in> {fw_thread f, resume_thread (fw_thread f)}"
  | (queries) b st where "ds_out d' = ds_out d @ [b]" and "ds_services d' = [f]" and "same_process d d'"
      and "packed_as en b (snd (QueryLastEventPackage st), fst (QueryLastEventPackage st))"
      and "same_identity (ds_statics d) st"
proof (cases "buf = []")
  case True
  with assms that(1) [of f] show thesis by (simp add: uvNetworkReadCB_def same_process_def)
next
  case False
  with assms(1) obtain x st dec where r: "decoder_read en (ds_statics d) (ds_decoder d) buf = Inr (x, st, dec)"
    by (auto simp: uvNetworkReadCB_def bind_out_Inr_iff)
  note read = False r
  note same = decoder_read_identity [OF r assms(3) False]
  obtain mo dec' where mo: "GetProtobufMessage dec = (mo, dec')" by (cases "GetProtobufMessage dec")
  with same have inv: "decoder_inv dec'"
    by (auto simp: GetProtobufMessage_def vec_pop_def decoder_inv_def pending_def split: if_splits)
  let ?d = "d\<lparr>ds_decoder := dec', ds_statics := st\<rparr>"
  consider "mo = None" | msg where "mo = Some msg" "msg_op msg = CONNECT"
    | msg where "mo = Some msg" "msg_op msg \<noteq> CONNECT" by (cases mo) blast+
  then show thesis
  proof cases
    case 1
    with assms read mo same inv that(1) [of f] show thesis by (auto simp: uvNetworkReadCB_def same_process_def)
  next
    case 2
    with assms(1) read mo have "NetworkStartFinished en ?d = Inr d'" by (simp add: uvNetworkReadCB_def)
    then have "send_package en (QueryLastEventPackage st) ?d = Inr d'"
      using assms(2) by (simp add: NetworkStartFinished_def service_NetworkStartFinished_def bind_out_Inr_iff)
    from send_package_packed [OF this] obtain b where b: "ds_out d' = ds_out d @ [b]" "ds_services d' = [f]"
        "packed_as en b (snd (QueryLastEventPackage st), fst (QueryLastEventPackage st))"
        "ds_statics d' = snd (QueryLastEventPackage st)" "ds_decoder d' = dec'"
      using assms(2) by auto
    moreover from same have "same_identity (ds_statics d) (snd (QueryLastEventPackage st))"
      by (blast intro: same_identity_trans constructors_identity)
    ultimately show thesis using same inv by (intro that(2) [of b st]) (simp_all add: same_process_def)
  next
    case 3
    with assms read mo have "d' = SubmitProtobufPackage (the mo) ?d" by (simp add: uvNetworkReadCB_def)
    with assms(2) same inv resumed_or_kept [of "the mo" f] that(1) [of "GetProtobufPackage (the mo) f"]
    show thesis by (simp add: SubmitProtobufPackage_def same_process_def)
  qed
qed

lemma forward_read_cases:
  assumes "forward_read ch failed nr 0 d = Inr (wo, d')" and "ds_services d = [f]" and "next_fits nr"
  obtains (quiet) f' where "ds_out d' = ds_out d" and "ds_services d' = [f']"
      and "fw_thread f' \<in> {fw_thread f, Returned}" and "ds_statics d' = ds_statics d"
      and "ds_decoder d' = ds_decoder d"
  | (sends) b f' ac es where "ds_out d' = ds_out d @ [b]" and "ds_services d' = [f']"
      and "fw_thread f' = fw_thread f" and "length es \<le> eventsPerSend"
      and "packed_as (ch_env ch) b
        (snd (LogPackage ac (ds_statics d)), AddLogEvents es (fst (LogPackage ac (ds_statics d))))"
      and "ds_statics d' = snd (LogPackage ac (ds_statics d))" and "ds_decoder d' = ds_decoder d"
proof -
  consider "wait_for_objects failed f = None"
    | w where "wait_for_objects failed f = Some w" "w = Wake_stop \<or> w = Wait_failed"
    | w where "wait_for_objects failed f = Some w" "\<not> (w = Wake_stop \<or> w = Wait_failed)"
    by (cases "wait_for_objects failed f") blast+
  then show thesis
  proof cases
    case 1
    with assms(1,2) that(1) [of f] show thesis by (simp add: forward_read_def Let_def)
  next
    case 2
    with assms(1,2) that(1) [of "f\<lparr>fw_thread := Returned\<rparr>"] show thesis
      by (auto simp: forward_read_def Let_def)
  next
    case 3
    let ?E = "EnumerateResults ch nr (fw_lastEventIDUploaded f) [] (fw_metadata f)"
    from 3 assms(1,2) obtain n es m where E: "?E = Inr (n, es, m)"
      by (cases ?E) (auto simp: forward_read_def Let_def)
    let ?f = "f\<lparr>fw_eventsToSend := es, fw_metadata := m\<rparr>"
    show thesis
    proof (cases "n < 0")
      case True
      with 3 E assms(1,2) that(1) [of "?f\<lparr>fw_thread := Returned\<rparr>"] show thesis
        by (auto simp: forward_read_def Let_def)
    next
      case False
      let ?lp = "LogPackage (n = int eventsPerSend) (ds_statics d)"
      from 3 E False assms(1,2) obtain d1 where
        send: "send_package (ch_env ch) (AddLogEvents es (fst ?lp), snd ?lp) d = Inr d1"
        and d': "d' = d1\<lparr>ds_services := (ds_services d1)[0 := ?f]\<rparr>"
        by (auto simp: forward_read_def Let_def split_def bind_out_Inr_iff)
      from send_package_packed [OF send] obtain b where b: "ds_out d1 = ds_out d @ [b]"
          "packed_as (ch_env ch) b (snd ?lp, AddLogEvents es (fst ?lp))" "ds_services d1 = [f]"
          "ds_statics d1 = snd ?lp" "ds_decoder d1 = ds_decoder d"
        using assms(2) by auto
      show thesis
        using b d' EnumerateResults_length [OF E assms(3)]
        by (intro that(2) [of b ?f es "n = int eventsPerSend"]) simp_all
    qed
  qed
qed

section \<open>The order of the packages\<close>

text \<open>
  The packages of a client with the identity of \<open>st0\<close>: a \<open>ConnectPackage\<close> first and never again,
  then queries, and once \<open>logs\<close> holds also batches.
\<close>

definition is_connect :: "statics \<Rightarrow> statics \<times> message \<Rightarrow> bool" where
  "is_connect st0 sm \<longleftrightarrow> (\<exists>st. same_identity st0 st \<and> sm = (snd (ConnectPackage st), fst (ConnectPackage st)))"

definition is_query :: "statics \<Rightarrow> statics \<times> message \<Rightarrow> bool" where
  "is_query st0 sm \<longleftrightarrow>
     (\<exists>st. same_identity st0 st \<and> sm = (snd (QueryLastEventPackage st), fst (QueryLastEventPackage st)))"

definition is_batch :: "statics \<Rightarrow> statics \<times> message \<Rightarrow> bool" where
  "is_batch st0 sm \<longleftrightarrow> (\<exists>ac st es. same_identity st0 st \<and> length es \<le> eventsPerSend
     \<and> sm = (snd (LogPackage ac st), AddLogEvents es (fst (LogPackage ac st))))"

definition client_protocol :: "statics \<Rightarrow> bool \<Rightarrow> (statics \<times> message) list \<Rightarrow> bool" where
  "client_protocol st0 logs sms \<longleftrightarrow>
     (case sms of [] \<Rightarrow> True
      | sm # rest \<Rightarrow> is_connect st0 sm \<and> (\<forall>sm \<in> set rest. is_query st0 sm \<or> logs \<and> is_batch st0 sm))"

lemma client_protocol_more:
  "client_protocol st0 logs sms \<Longrightarrow> sms \<noteq> [] \<Longrightarrow> is_query st0 sm \<or> logs \<and> is_batch st0 sm \<Longrightarrow>
     client_protocol st0 logs (sms @ [sm])"
  "client_protocol st0 logs sms \<Longrightarrow> client_protocol st0 True sms"
  by (cases sms; auto simp: client_protocol_def)+

lemma protocol_receivable:
  assumes "client_protocol st0 logs sms" and "sm \<in> set sms"
  shows "wf_message (snd sm) \<and> receivable (msg_op (snd sm))"
proof -
  from assms consider "is_connect st0 sm" | "is_query st0 sm" | "is_batch st0 sm"
    by (cases sms) (auto simp: client_protocol_def)
  then show ?thesis
  proof cases
    case 3
    then show ?thesis
      by (auto simp: is_batch_def receivable_def wf_message_def AddLogEvents_def constructor_defs)
  qed (auto simp: is_connect_def is_query_def receivable_def wf_message_def constructor_defs)
qed

definition client_inv :: "env \<Rightarrow> statics \<Rightarrow> client_process \<Rightarrow> bool" where
  "client_inv en st0 p \<longleftrightarrow>
     (\<exists>f. ds_services (cp_disp p) = [f]
       \<and> (cp_subscribed p \<noteq> None \<longrightarrow> fw_thread f \<noteq> Suspended)
       \<and> (fw_thread f \<noteq> Suspended \<longrightarrow> cp_connected p = Some True))
     \<and> same_identity st0 (ds_statics (cp_disp p)) \<and> decoder_inv (ds_decoder (cp_disp p))
     \<and> (cp_connected p \<noteq> Some True \<longleftrightarrow> ds_out (cp_disp p) = [])
     \<and> (\<exists>sms. list_all2 (packed_as en) (ds_out (cp_disp p)) sms
          \<and> client_protocol st0 (cp_subscribed p = Some True) sms)"

lemma client_invI:
  assumes "ds_services (cp_disp p) = [f]" and "cp_subscribed p \<noteq> None \<longrightarrow> fw_thread f \<noteq> Suspended"
    and "fw_thread f \<noteq> Suspended \<longrightarrow> cp_connected p = Some True"
    and "same_identity st0 (ds_statics (cp_disp p))" and "decoder_inv (ds_decoder (cp_disp p))"
    and "cp_connected p \<noteq> Some True \<longleftrightarrow> ds_out (cp_disp p) = []"
    and "list_all2 (packed_as en) (ds_out (cp_disp p)) sms"
    and "client_protocol st0 (cp_subscribed p = Some True) sms"
  shows "client_inv en st0 p"
  using assms unfolding client_inv_def by blast

lemma client_invE:
  assumes "client_inv en st0 p"
  obtains f sms where "ds_services (cp_disp p) = [f]" and "cp_subscribed p \<noteq> None \<longrightarrow> fw_thread f \<noteq> Suspended"
    and "fw_thread f \<noteq> Suspended \<longrightarrow> cp_connected p = Some True"
    and "same_identity st0 (ds_statics (cp_disp p))" and "decoder_inv (ds_decoder (cp_disp p))"
    and "cp_connected p \<noteq> Some True \<longleftrightarrow> ds_out (cp_disp p) = []"
    and "list_all2 (packed_as en) (ds_out (cp_disp p)) sms"
    and "client_protocol st0 (cp_subscribed p = Some True) sms"
  using assms unfolding client_inv_def by blast

lemma client_start_inv:
  "client_start ch machine ws err st0 = Inr p \<Longrightarrow> client_inv en (ds_statics (cp_disp p)) p"
  by (auto simp: client_start_def bind_out_Inr_iff GetHandlerDispatcher_for_def GetHandlerDispatcher_def
      AddServiceHandler_def HandlerDispatcher_def EventForwardHandler_def client_protocol_def Let_def split_def
      decoder_inv_new intro!: client_invI [where sms = "[]"])

text \<open>One more package behind those there are.\<close>

lemma sent_one_more:
  assumes "list_all2 (packed_as en) out sms" and "client_protocol st0 logs sms" and "out \<noteq> []"
    and "packed_as en b sm" and "is_query st0 sm \<or> logs \<and> is_batch st0 sm"
  shows "list_all2 (packed_as en) (out @ [b]) (sms @ [sm]) \<and> client_protocol st0 logs (sms @ [sm])"
  using assms client_protocol_more(1) [of st0 logs sms sm] by (auto simp: list_all2_appendI)

lemma Connected_inv:
  assumes "client_inv (ch_env ch) st0 p" and "client_enabled (Connected status) p"
    and "run_client ch (Connected status) p = Inr p'"
  shows "client_inv (ch_env ch) st0 p'"
proof (rule client_invE [OF assms(1)])
  fix f sms
  let ?c = "ConnectPackage (ds_statics (cp_disp p))"
  assume f: "ds_services (cp_disp p) = [f]" "cp_subscribed p \<noteq> None \<longrightarrow> fw_thread f \<noteq> Suspended"
      "fw_thread f \<noteq> Suspended \<longrightarrow> cp_connected p = Some True"
    and id: "same_identity st0 (ds_statics (cp_disp p))" "decoder_inv (ds_decoder (cp_disp p))"
    and out: "cp_connected p \<noteq> Some True \<longleftrightarrow> ds_out (cp_disp p) = []"
    and sms: "list_all2 (packed_as (ch_env ch)) (ds_out (cp_disp p)) sms"
      "client_protocol st0 (cp_subscribed p = Some True) sms"
  with assms(2) have none: "cp_connected p = None" "ds_out (cp_disp p) = []" "cp_subscribed p = None"
    by auto
  from assms(3) obtain d where d: "uvNetworkConnectCB (ch_env ch) status (cp_disp p) = Inr d"
      "p' = put_dispatcher (p\<lparr>cp_connected := Some (status = 0)\<rparr>) d" by (auto simp: bind_out_Inr_iff)
  show ?thesis
  proof (cases "status = 0")
    case True
    with d(1) have "send_package (ch_env ch) ?c (cp_disp p) = Inr d"
      by (simp add: uvNetworkConnectCB_def)
    from send_package_packed [OF this] obtain b where b: "ds_out d = [b]" "ds_services d = [f]"
        "packed_as (ch_env ch) b (snd ?c, fst ?c)" "ds_statics d = snd ?c" "ds_decoder d = ds_decoder (cp_disp p)"
      using none(2) f(1) by auto
    moreover have "is_connect st0 (snd ?c, fst ?c)" using id(1) by (auto simp: is_connect_def)
    moreover have "same_identity st0 (snd ?c)" using id(1) by (rule same_identity_trans) simp
    ultimately show ?thesis
      using none f d(2) True id(2)
      by (intro client_invI [of _ f _ _ "[(snd ?c, fst ?c)]"])
        (auto simp: put_dispatcher_def client_protocol_def)
  next
    case False
    with d none f sms id show ?thesis
      by (intro client_invI [of _ f _ _ sms]) (auto simp: put_dispatcher_def uvNetworkConnectCB_def)
  qed
qed

lemma Received_inv:
  assumes "client_inv (ch_env ch) st0 p" and "client_enabled (Received buf) p"
    and "run_client ch (Received buf) p = Inr p'"
  shows "client_inv (ch_env ch) st0 p'"
proof (rule client_invE [OF assms(1)])
  fix f sms
  assume f: "ds_services (cp_disp p) = [f]" "cp_subscribed p \<noteq> None \<longrightarrow> fw_thread f \<noteq> Suspended"
      "fw_thread f \<noteq> Suspended \<longrightarrow> cp_connected p = Some True"
    and id: "same_identity st0 (ds_statics (cp_disp p))" "decoder_inv (ds_decoder (cp_disp p))"
    and out: "cp_connected p \<noteq> Some True \<longleftrightarrow> ds_out (cp_disp p) = []"
    and sms: "list_all2 (packed_as (ch_env ch)) (ds_out (cp_disp p)) sms"
      "client_protocol st0 (cp_subscribed p = Some True) sms"
  from assms(2,3) obtain d where d: "uvNetworkReadCB (ch_env ch) buf (cp_disp p) = Inr d"
      "p' = put_dispatcher p d" and up: "cp_connected p = Some True" by (auto simp: bind_out_Inr_iff)
  from d(1) f(1) id(2) show ?thesis
  proof (cases rule: client_reads)
    case (quiet f')
    moreover from quiet(3) id(1) have "same_identity st0 (ds_statics d)" "decoder_inv (ds_decoder d)"
      by (auto simp: same_process_def intro: same_identity_trans)
    ultimately show ?thesis
      using d(2) up f(2,3) out sms
      by (intro client_invI [of _ f' _ _ sms]) (auto simp: put_dispatcher_def resume_thread_def split: if_splits)
  next
    case (queries b st)
    let ?q = "(snd (QueryLastEventPackage st), fst (QueryLastEventPackage st))"
    have "is_query st0 ?q" using queries(5) id(1) by (auto simp: is_query_def intro: same_identity_trans)
    with sent_one_more [OF sms _ queries(4)] up out have
      "list_all2 (packed_as (ch_env ch)) (ds_out (cp_disp p) @ [b]) (sms @ [?q])"
      "client_protocol st0 (cp_subscribed p = Some True) (sms @ [?q])" by auto
    moreover from queries(3) id(1) have "same_identity st0 (ds_statics d)" "decoder_inv (ds_decoder d)"
      by (auto simp: same_process_def intro: same_identity_trans)
    ultimately show ?thesis
      using d(2) up f(2,3) queries(1,2)
      by (intro client_invI [of _ f _ _ "sms @ [?q]"]) (auto simp: put_dispatcher_def)
  qed
qed

lemma Subscribes_inv:
  assumes "client_inv (ch_env ch) st0 p" and "client_enabled (Subscribes ok) p"
    and "run_client ch (Subscribes ok) p = Inr p'"
  shows "client_inv (ch_env ch) st0 p'"
proof (rule client_invE [OF assms(1)])
  fix f sms
  assume f: "ds_services (cp_disp p) = [f]" "fw_thread f \<noteq> Suspended \<longrightarrow> cp_connected p = Some True"
    and id: "same_identity st0 (ds_statics (cp_disp p))" "decoder_inv (ds_decoder (cp_disp p))"
    and out: "cp_connected p \<noteq> Some True \<longleftrightarrow> ds_out (cp_disp p) = []"
    and sms: "list_all2 (packed_as (ch_env ch)) (ds_out (cp_disp p)) sms"
      "client_protocol st0 (cp_subscribed p = Some True) sms"
  from assms(2,3) f(1) obtain l where d: "Start ch ok 0 [] (cp_disp p) = Inr l"
      "p' = put_dispatcher (p\<lparr>cp_subscribed := Some ok\<rparr>) (fst (snd l))"
      and th: "fw_thread f = Running" "cp_subscribed p = None"
    by (auto simp: bind_out_Inr_iff)
  then obtain f' where "ds_services (fst (snd l)) = [f']" "ds_out (fst (snd l)) = ds_out (cp_disp p)"
      "fw_thread f' \<noteq> Suspended" "ds_statics (fst (snd l)) = ds_statics (cp_disp p)"
      "ds_decoder (fst (snd l)) = ds_decoder (cp_disp p)"
    using f(1) by (cases ok) (auto simp: Start_def Let_def)
  moreover have "client_protocol st0 (Some ok = Some True) sms"
    using sms(2) client_protocol_more(2) [OF sms(2)] th(2) by (cases ok) simp_all
  ultimately show ?thesis
    using d(2) th f out sms(1) id
    by (intro client_invI [of _ f' _ _ sms]) (auto simp: put_dispatcher_def)
qed

lemma Reads_inv:
  assumes "client_inv (ch_env ch) st0 p" and "client_enabled (Reads failed nr) p"
    and "run_client ch (Reads failed nr) p = Inr p'"
  shows "client_inv (ch_env ch) st0 p'"
proof (rule client_invE [OF assms(1)])
  fix f sms
  assume f: "ds_services (cp_disp p) = [f]" "fw_thread f \<noteq> Suspended \<longrightarrow> cp_connected p = Some True"
    and id: "same_identity st0 (ds_statics (cp_disp p))" "decoder_inv (ds_decoder (cp_disp p))"
    and out: "cp_connected p \<noteq> Some True \<longleftrightarrow> ds_out (cp_disp p) = []"
    and sms: "list_all2 (packed_as (ch_env ch)) (ds_out (cp_disp p)) sms"
      "client_protocol st0 (cp_subscribed p = Some True) sms"
  from assms(2,3) f(1) obtain wo d where d: "forward_read ch failed nr 0 (cp_disp p) = Inr (wo, d)"
      "p' = put_dispatcher (p\<lparr>cp_reset := wo\<rparr>) d" and th: "fw_thread f = Running" "cp_subscribed p = Some True" "next_fits nr"
    by (auto simp: bind_out_Inr_iff)
  have up: "cp_connected p = Some True" "ds_out (cp_disp p) \<noteq> []" using f(2) th(1) out by auto
  from d(1) f(1) th(3) show ?thesis
  proof (cases rule: forward_read_cases)
    case (quiet f')
    then show ?thesis
      using d(2) up th sms id
      by (intro client_invI [of _ f' _ _ sms]) (auto simp: put_dispatcher_def)
  next
    case (sends b f' ac es)
    let ?st = "ds_statics (cp_disp p)"
    let ?l = "(snd (LogPackage ac ?st), AddLogEvents es (fst (LogPackage ac ?st)))"
    have "is_batch st0 ?l" using sends(4) id(1) by (auto simp: is_batch_def)
    with sent_one_more [OF sms up(2) sends(5)] th(2) have
      "list_all2 (packed_as (ch_env ch)) (ds_out (cp_disp p) @ [b]) (sms @ [?l])"
      "client_protocol st0 (cp_subscribed p = Some True) (sms @ [?l])" by auto
    moreover have "same_identity st0 (snd (LogPackage ac ?st))" using id(1) by (rule same_identity_trans) simp
    ultimately show ?thesis
      using d(2) up th id(2) sends(1,2,3,6,7)
      by (intro client_invI [of _ f' _ _ "sms @ [?l]"]) (auto simp: put_dispatcher_def)
  qed
qed

text \<open>The signal of the subscription and \<open>ResetEvent\<close> only touch the handles.\<close>

lemma handles_inv:
  assumes "client_inv en st0 p" and "fw_thread g = fw_thread (the_service p)"
    and "ds_services d = [g]" and "ds_out d = ds_out (cp_disp p)" and "ds_statics d = ds_statics (cp_disp p)"
    and "ds_decoder d = ds_decoder (cp_disp p)"
  shows "client_inv en st0 (put_dispatcher (p\<lparr>cp_reset := wo\<rparr>) d)"
  using assms by (auto simp: client_inv_def put_dispatcher_def)

lemma Logged_inv:
  assumes "client_inv (ch_env ch) st0 p" and "run_client ch Logged p = Inr p'"
  shows "client_inv (ch_env ch) st0 p'"
proof -
  from assms(1) obtain f where "ds_services (cp_disp p) = [f]" by (auto simp: client_inv_def)
  with handles_inv [OF assms(1), of "f\<lparr>fw_subscribe := True\<rparr>" "signal_subscription 0 (cp_disp p)" "cp_reset p"]
    assms(2) show ?thesis by (simp add: signal_subscription_def)
qed

lemma Resets_inv:
  assumes "client_inv (ch_env ch) st0 p" and "run_client ch Resets p = Inr p'"
  shows "client_inv (ch_env ch) st0 p'"
proof -
  from assms(1) obtain f where f: "ds_services (cp_disp p) = [f]" by (auto simp: client_inv_def)
  show ?thesis
  proof (cases "cp_reset p")
    case None
    with f handles_inv [OF assms(1), of f "cp_disp p" None] assms(2) show ?thesis
      by (simp add: forward_reset_def)
  next
    case (Some w)
    with f handles_inv [OF assms(1), of "reset_handle w f" "forward_reset (Some w) 0 (cp_disp p)" None] assms(2)
    show ?thesis by (simp add: forward_reset_def reset_handle_def split: if_splits)
  qed
qed

lemmas run_client_inv = Connected_inv Received_inv Subscribes_inv Reads_inv Logged_inv Resets_inv

lemma client_step_inv: "client_step ch p p' \<Longrightarrow> client_inv (ch_env ch) st0 p \<Longrightarrow> client_inv (ch_env ch) st0 p'"
proof (erule client_stepE)
  fix e
  assume "client_inv (ch_env ch) st0 p" "client_enabled e p" "run_client ch e p = Inr p'"
  then show ?thesis by (cases e) (blast intro: run_client_inv)+
qed

lemma client_reach_inv: "client_reach ch p0 p \<Longrightarrow> client_inv (ch_env ch) st0 p0 \<Longrightarrow> client_inv (ch_env ch) st0 p"
  by (induction rule: client_reach.induct) (auto dest: client_step_inv)

text \<open>C3. In every state a client process can reach, what it has given to \<open>Send\<close> are the bytes of a
  \<open>ConnectPackage\<close>, sent once the connection is there, and after it of queries and of batches of at
  most thirty events; batches only after the server's answer has resumed the forwarding thread and
  its subscription has succeeded. All of them carry the identity the process had at its start, and
  each is a package that a receiver knows.\<close>

theorem client_sends_in_order:
  assumes "client_start ch machine ws err st0 = Inr p0" and "client_reach ch p0 p"
  shows "\<exists>sms. list_all2 (packed_as (ch_env ch)) (ds_out (cp_disp p)) sms
    \<and> client_protocol (ds_statics (cp_disp p0)) (cp_subscribed p = Some True) sms
    \<and> (\<forall>sm \<in> set sms. wf_message (snd sm) \<and> receivable (msg_op (snd sm)))
    \<and> (cp_connected p = Some True) = (sms \<noteq> [])
    \<and> (cp_subscribed p \<noteq> None \<longrightarrow> fw_thread (the_service p) \<noteq> Suspended)"
proof (rule client_invE [OF client_reach_inv [OF assms(2) client_start_inv [OF assms(1)]]])
  fix f sms
  assume a: "ds_services (cp_disp p) = [f]" "cp_subscribed p \<noteq> None \<longrightarrow> fw_thread f \<noteq> Suspended"
    "cp_connected p \<noteq> Some True \<longleftrightarrow> ds_out (cp_disp p) = []"
    "list_all2 (packed_as (ch_env ch)) (ds_out (cp_disp p)) sms"
    "client_protocol (ds_statics (cp_disp p0)) (cp_subscribed p = Some True) sms"
  then have "(cp_connected p = Some True) = (sms \<noteq> [])" by auto
  with a protocol_receivable [OF a(5)] show ?thesis by (intro exI [of _ sms]) auto
qed

section \<open>What a server reads of it\<close>

lemma packed_sendable:
  assumes "packed_as en b sm" and "wf_message (snd sm)" and "receivable (msg_op (snd sm))"
    and "wire_ok en (snd (core_of_message en (fst sm) (snd sm)))"
  shows "sendable en sm" and "b = sent_bytes en (fst sm) (snd sm)"
  using assms by (cases sm; auto simp: sendable_def packed_as_def sent_bytes_def)+

lemma packed_bytes:
  assumes "list_all2 (packed_as en) out sms" and "client_protocol st0 logs sms" and "session_ok en st0"
    and "\<forall>sm \<in> set sms. is_batch st0 sm \<longrightarrow> wire_ok en (snd (core_of_message en (fst sm) (snd sm)))"
  shows "(\<forall>sm \<in> set sms. sendable en sm) \<and> out = map (\<lambda>(st, m). sent_bytes en st m) sms"
proof -
  have "wire_ok en (snd (core_of_message en (fst sm) (snd sm)))" if "sm \<in> set sms" for sm
  proof -
    from assms(2) that consider "is_connect st0 sm" | "is_query st0 sm" | "is_batch st0 sm"
      by (cases sms) (auto simp: client_protocol_def)
    then show ?thesis
      using session_okD(1,2) [OF assms(3)] assms(4) that
      by cases (auto simp: is_connect_def is_query_def sendable_def)
  qed
  with protocol_receivable [OF assms(2)] have "\<forall>sm \<in> set sms. wf_message (snd sm) \<and> receivable (msg_op (snd sm))
      \<and> wire_ok en (snd (core_of_message en (fst sm) (snd sm)))" by blast
  with assms(1) show ?thesis
  proof (induction rule: list_all2_induct)
    case (Cons b bs sm sms)
    with packed_sendable [OF Cons.hyps(1)] show ?case by (auto simp: split_def)
  qed simp
qed

lemma decodes_part:
  assumes "\<forall>sm \<in> set sms. sendable en sm" and "out = map (\<lambda>(st, m). sent_bytes en st m) sms"
    and "[] \<notin> set chunks" and "concat chunks = take k (concat out)"
  shows "\<exists>st' d ms j. fold_out (feed_decoder en) (st, new_decoder) chunks = Inr (st', d)
    \<and> vec d = map Some ms \<and> list_all2 (\<lambda>(st, m) m'. delivered st m m') (take j sms) ms
    \<and> complete_in k out j \<and> pending d = drop (length (concat (take j out))) (take k (concat out))"
proof -
  let ?r = "\<lambda>j. drop (length (concat (take j out))) (take k (concat out))"
  obtain j ms st' where c: "consume en st [] (concat chunks) = Inr (st', map Some ms, ?r j)"
      and l: "list_all2 (\<lambda>(st, m) m'. delivered st m m') (take j sms) ms" "complete_in k out j"
    using consume_some_sent [OF assms(1), of st "[]" k] assms(2,4) by auto
  have "map_sum id stream_of (fold_out (feed_decoder en) (st, new_decoder) chunks) = Inr (st', map Some ms, ?r j)"
  proof (cases "chunks = []")
    case True
    with c assms(4) show ?thesis
      by (simp add: consume_wait stream_of_def decoder_inv_new) (simp add: new_decoder_def)
  next
    case False
    with wire.feed_concat [of "(st, new_decoder)" chunks en] assms(3) c show ?thesis
      by (simp add: decoder_inv_new stream_feed_def stream_of_def) (simp add: new_decoder_def)
  qed
  with l show ?thesis
    by (cases "fold_out (feed_decoder en) (st, new_decoder) chunks") (auto simp: stream_of_def)
qed

text \<open>C4. A decoder that has read any part of what a client process has sent so far, cut in any way,
  has taken no fault. Its queue holds exactly the packages that are complete in that part, the
  connect first, then queries and batches in the order they were sent, and what it keeps back are
  the bytes of the next one. Each package has the class, the description, what its class adds and,
  unless it is -1, the id that it was sent with, and the names of its sender; the events of a batch
  keep their order, texts and record ids, but not their severity, which \<open>received_event\<close> makes another
  than the one sent. The compressor, the digest and
  the serialiser have to handle the packages as documented.\<close>

theorem client_stream_decodes:
  assumes "client_start ch machine ws err st0 = Inr p0" and "client_reach ch p0 p"
    and "session_ok (ch_env ch) (ds_statics (cp_disp p0))"
  shows "\<exists>sms. list_all2 (packed_as (ch_env ch)) (ds_out (cp_disp p)) sms
    \<and> client_protocol (ds_statics (cp_disp p0)) (cp_subscribed p = Some True) sms
    \<and> ((\<forall>sm \<in> set sms. is_batch (ds_statics (cp_disp p0)) sm \<longrightarrow>
          wire_ok (ch_env ch) (snd (core_of_message (ch_env ch) (fst sm) (snd sm)))) \<longrightarrow>
       (\<forall>chunks k. [] \<notin> set chunks \<and> concat chunks = take k (concat (ds_out (cp_disp p))) \<longrightarrow>
         (\<exists>st' d ms j. fold_out (feed_decoder (ch_env ch)) (st, new_decoder) chunks = Inr (st', d)
            \<and> vec d = map Some ms \<and> list_all2 (\<lambda>(st, m) m'. delivered st m m') (take j sms) ms
            \<and> complete_in k (ds_out (cp_disp p)) j
            \<and> pending d = drop (length (concat (take j (ds_out (cp_disp p))))) (take k (concat (ds_out (cp_disp p)))))))"
proof (rule client_invE [OF client_reach_inv [OF assms(2) client_start_inv [OF assms(1)]]])
  fix f sms
  assume sms: "list_all2 (packed_as (ch_env ch)) (ds_out (cp_disp p)) sms"
    "client_protocol (ds_statics (cp_disp p0)) (cp_subscribed p = Some True) sms"
  show ?thesis
  proof (intro exI [of _ sms] conjI sms impI allI)
    fix chunks k
    assume "\<forall>sm \<in> set sms. is_batch (ds_statics (cp_disp p0)) sm \<longrightarrow>
        wire_ok (ch_env ch) (snd (core_of_message (ch_env ch) (fst sm) (snd sm)))"
      and "[] \<notin> set chunks \<and> concat chunks = take k (concat (ds_out (cp_disp p)))"
    with packed_bytes [OF sms assms(3)] show "\<exists>st' d ms j.
        fold_out (feed_decoder (ch_env ch)) (st, new_decoder) chunks = Inr (st', d)
        \<and> vec d = map Some ms \<and> list_all2 (\<lambda>(st, m) m'. delivered st m m') (take j sms) ms
        \<and> complete_in k (ds_out (cp_disp p)) j
        \<and> pending d = drop (length (concat (take j (ds_out (cp_disp p))))) (take k (concat (ds_out (cp_disp p))))"
      using decodes_part [of sms "ch_env ch" "ds_out (cp_disp p)" chunks k st] by blast
  qed
qed

section \<open>A sample client process\<close>

text \<open>A client on a machine whose system calls all succeed, and an address in dotted form.\<close>

definition sample_winsock :: winsock where
  "sample_winsock = \<lparr>ws_system_message = (\<lambda>_. None), ws_module_message = (\<lambda>_. None),
     ws_to_multi = (\<lambda>_. Some []), ws_to_wide = (\<lambda>s. Some (map (\<lambda>c. of_nat (of_char c)) s)),
     ws_from_bytes = (\<lambda>s. Some (map (\<lambda>c. of_nat (of_char c)) s)), ws_startup = 0,
     ws_string_to_address = (\<lambda>_. (0, 0, no_address)), ws_dns_query = (\<lambda>_. Dns_null)\<rparr>"

definition unix_machine :: machine_api where
  "unix_machine = (sample_machine [] 2 8)\<lparr>uname_result := Some \<lparr>uts_nodename = ''srv'',
     uts_release = ''5.0'', uts_machine = ''x86_64'', uts_version = ''1''\<rparr>\<rparr>"

definition unix_client_host :: "(string \<times> string) client_host" where
  "unix_client_host = sample_client_host\<lparr>ch_env := sample_env False Unix\<rparr>"

lemma unix_client_starts:
  "\<exists>p0. client_start unix_client_host unix_machine sample_winsock 0 sample_statics = Inr p0
     \<and> ds_services (cp_disp p0) = [EventForwardHandler] \<and> ds_decoder (cp_disp p0) = new_decoder
     \<and> ds_out (cp_disp p0) = [] \<and> cp_connected p0 = None \<and> cp_subscribed p0 = None
     \<and> length (myClientName (ds_statics (cp_disp p0))) + length (myOsVersion (ds_statics (cp_disp p0)))
         + length (myMachineID (ds_statics (cp_disp p0))) + length (timeBias (ds_statics (cp_disp p0))) < 500"
  by (simp add: client_start_def initGetTimestamp_def sample_statics_def unix_client_host_def unix_machine_def initProtobufLibrary_def getComputerName_def
      getOsVersion_def MachineID_def sample_env_def GetHandlerDispatcher_for_def GetHandlerDispatcher_def
      Connect_def InitTCP_def initNetworkHandler_def sample_winsock_def new_connecting_def Convert_string_def
      AddServiceHandler_def HandlerDispatcher_def Let_def)

lemma unix_client_env [simp]: "ch_env unix_client_host = sample_env False Unix"
  by (simp add: unix_client_host_def)

text \<open>Its first two states: started, and connected.\<close>

lemma unix_client_connects:
  obtains p0 p1 b where "client_start unix_client_host unix_machine sample_winsock 0 sample_statics = Inr p0"
    and "client_step unix_client_host p0 p1" and "ds_out (cp_disp p1) = [b]"
    and "ds_services (cp_disp p1) = [EventForwardHandler]" and "ds_decoder (cp_disp p1) = new_decoder"
    and "cp_subscribed p1 = None" and "cp_connected p1 = Some True"
    and "session_ok (sample_env False Unix) (ds_statics (cp_disp p0))"
proof -
  obtain p0 where p0: "client_start unix_client_host unix_machine sample_winsock 0 sample_statics = Inr p0"
      "ds_services (cp_disp p0) = [EventForwardHandler]" "ds_decoder (cp_disp p0) = new_decoder"
      "ds_out (cp_disp p0) = []" "cp_connected p0 = None" "cp_subscribed p0 = None"
      "session_ok (sample_env False Unix) (ds_statics (cp_disp p0))"
    using unix_client_starts by (auto intro: short_session_ok)
  let ?c = "ConnectPackage (ds_statics (cp_disp p0))"
  obtain ok b m where "toBytes (sample_env False Unix) (snd ?c) (fst ?c) = Inr (ok, b, m)"
    using sample_toBytes [of False Unix "snd ?c" "fst ?c"] by auto
  then obtain p1 where p1: "run_client unix_client_host (Connected 0) p0 = Inr p1" "cp_connected p1 = Some True"
      "ds_services (cp_disp p1) = [EventForwardHandler]" "ds_decoder (cp_disp p1) = new_decoder"
      "cp_subscribed p1 = None" "ds_out (cp_disp p1) = [b]"
    using p0(2-) by (simp add: uvNetworkConnectCB_def send_package_def Send_def put_dispatcher_def)
  have "client_step unix_client_host p0 p1" by (rule client_step.step [OF _ p1(1)]) (simp add: p0)
  from that [OF p0(1) this p1(6,3,4,5,2) p0(7)] show thesis .
qed

theorem client_sends_in_order_witness:
  "\<exists>p0 p sms. client_start unix_client_host unix_machine sample_winsock 0 sample_statics = Inr p0
    \<and> client_reach unix_client_host p0 p
    \<and> cp_subscribed p = Some True \<and> fw_thread (the_service p) = Running
    \<and> list_all2 (packed_as (ch_env unix_client_host)) (ds_out (cp_disp p)) sms
    \<and> client_protocol (ds_statics (cp_disp p0)) True sms \<and> sms \<noteq> []"
proof -
  let ?ch = unix_client_host and ?en = "sample_env False Unix"
  obtain p0 p1 b where p1: "client_start ?ch unix_machine sample_winsock 0 sample_statics = Inr p0"
      "client_step ?ch p0 p1" "ds_services (cp_disp p1) = [EventForwardHandler]"
      "ds_decoder (cp_disp p1) = new_decoder" "cp_subscribed p1 = None" "cp_connected p1 = Some True"
    using unix_client_connects by blast
  let ?r = "ReturnLastEventPackage 5 sample_statics"
  have "sendable ?en (snd ?r, fst ?r)"
    by (rule session_okD(3) [OF sample_session_ok same_identity_refl])
  then obtain d2 where "uvNetworkReadCB ?en (sent_bytes ?en (snd ?r) (fst ?r)) (cp_disp p1) = Inr d2"
      "ds_services d2 = [EventForwardHandler\<lparr>fw_lastEventIDUploaded := 5, fw_thread := Running\<rparr>]"
    using client_resumes [of ?en "snd ?r" "fst ?r" 5 "cp_disp p1" EventForwardHandler] p1(3,4)
    by (auto simp: constructor_defs EventForwardHandler_def)
  then obtain p2 where p2: "run_client ?ch (Received (sent_bytes ?en (snd ?r) (fst ?r))) p1 = Inr p2"
      "fw_thread (the_service p2) = Running" "cp_subscribed p2 = None" "cp_connected p2 = Some True"
    using p1(5,6) by (simp add: put_dispatcher_def)
  then obtain p3 where p3: "run_client ?ch (Subscribes True) p2 = Inr p3" "cp_subscribed p3 = Some True"
      "fw_thread (the_service p3) = Running" "cp_connected p3 = Some True"
    by (simp add: Start_def put_dispatcher_def Let_def)
  have s2: "client_step ?ch p1 p2" by (rule client_step.step [OF _ p2(1)]) (simp add: p1)
  have s3: "client_step ?ch p2 p3" by (rule client_step.step [OF _ p3(1)]) (simp add: p2)
  have reach: "client_reach ?ch p0 p3"
    by (rule client_reach.more [OF client_reach.more [OF client_reach.more [OF client_reach.start p1(2)] s2] s3])
  from client_sends_in_order [OF p1(1) reach] p3 show ?thesis using p1(1) reach by auto
qed

theorem client_stream_decodes_witness:
  "\<exists>p0 p b st d m. client_start unix_client_host unix_machine sample_winsock 0 sample_statics = Inr p0
    \<and> client_reach unix_client_host p0 p \<and> ds_out (cp_disp p) = [b]
    \<and> fold_out (feed_decoder (ch_env unix_client_host)) (sample_statics, new_decoder) (two_pieces b) = Inr (st, d)
    \<and> vec d = [Some m]"
proof -
  let ?ch = unix_client_host and ?en = "sample_env False Unix"
  obtain p0 p1 b where p1: "client_start ?ch unix_machine sample_winsock 0 sample_statics = Inr p0"
      "client_step ?ch p0 p1" "ds_out (cp_disp p1) = [b]" "cp_subscribed p1 = None"
      "session_ok ?en (ds_statics (cp_disp p0))"
    using unix_client_connects by blast
  have reach: "client_reach ?ch p0 p1" by (rule client_reach.more [OF client_reach.start p1(2)])
  have ok: "session_ok (ch_env ?ch) (ds_statics (cp_disp p0))" using p1(5) by simp
  from client_stream_decodes [OF p1(1) reach ok, of sample_statics, unfolded p1(3) unix_client_env] obtain sms where
    sms: "list_all2 (packed_as ?en) [b] sms"
      "client_protocol (ds_statics (cp_disp p0)) (cp_subscribed p1 = Some True) sms"
    and run: "(\<forall>sm \<in> set sms. is_batch (ds_statics (cp_disp p0)) sm \<longrightarrow>
          wire_ok ?en (snd (core_of_message ?en (fst sm) (snd sm)))) \<longrightarrow>
       (\<forall>chunks k. [] \<notin> set chunks \<and> concat chunks = take k (concat [b]) \<longrightarrow>
         (\<exists>st' d ms j. fold_out (feed_decoder ?en) (sample_statics, new_decoder) chunks = Inr (st', d)
            \<and> vec d = map Some ms \<and> list_all2 (\<lambda>(st, m) m'. delivered st m m') (take j sms) ms
            \<and> complete_in k [b] j \<and> pending d = drop (length (concat (take j [b]))) (take k (concat [b]))))" by blast
  then obtain sm where sm: "sms = [sm]" "is_connect (ds_statics (cp_disp p0)) sm"
    by (auto simp: client_protocol_def list_all2_Cons1)
  then have "\<not> is_batch (ds_statics (cp_disp p0)) sm"
    by (auto simp: is_connect_def is_batch_def AddLogEvents_def constructor_defs)
  with run sm two_pieces [of b] have "\<exists>st' d ms j.
      fold_out (feed_decoder ?en) (sample_statics, new_decoder) (two_pieces b) = Inr (st', d)
      \<and> vec d = map Some ms \<and> list_all2 (\<lambda>(st, m) m'. delivered st m m') (take j sms) ms \<and> j = length sms"
    by (elim impE allE [of _ "two_pieces b"] allE [of _ "length b"]) (auto dest: complete_in_all)
  then obtain st d ms where "fold_out (feed_decoder ?en) (sample_statics, new_decoder) (two_pieces b) = Inr (st, d)"
      "vec d = map Some ms" "length ms = 1"
    using sm(1) by (fastforce dest: list_all2_lengthD)
  moreover from this obtain m where "ms = [m]" by (cases ms) auto
  ultimately show ?thesis using p1(1,3) reach by auto
qed

end
