(* ===== verification/Spec2Isabelle.thy ===== *)
theory Spec2Isabelle
  imports End_To_End Server_Config Machine_Properties Notify_Properties Client_Network Process_Properties
    Library_Tests Thread_Properties Client_Properties
begin

text \<open>
  A model of ClientService, which collects the Windows event log of many machines in one PostgreSQL
  database, with the theorems that say what its parts do.

  \<^bold>\<open>The program.\<close> A client service (\<open>src/WindowsClientService\<close>) runs on each Windows machine. It connects
  to the server over TCP, introduces itself, asks for the last record the server has of it, and
  forwards the events after it in batches of thirty; after a full batch it waits for the server to
  accept or for new events. The server (\<open>src/ClientServiceServer\<close>) keeps one object per connection, answers from a
  libuv loop, stores batches on the threads of libuv's pool, and talks to the database through
  libpqxx. Both are built on one library (\<open>src/WindowsProtobufLib\<close>): message classes, their
  protobuf form, packets (a header of forty bytes with sizes and digest, and a body compressed by
  zlib), an incremental decoder, clock text and machine identity. An older client
  (\<open>src/ProtobufSendingTest\<close>) waits for event log notifications instead of subscribing. The tests
  of the library are in \<open>src/ProtobufLibraryTest\<close>.

  \<^bold>\<open>How code is modelled.\<close> Pure functions are functions. An operation that can fail gives an
  \<open>outcome\<close> (theory Prelude), a fault or a value; the faults are a failed assertion, an exception
  nobody catches, a call of \<open>exit\<close>, an exhausted stack, and the kinds of undefined behaviour the
  code can run into (null, freed and uninitialised memory, double deletion, bounds). Objects are
  records, passed and returned; pointers to objects that can die are keys of an association list
  that stands for the heap. Machine integers are words of their width. Whether assertions are
  compiled in (\<open>ndebug\<close>) and the platform (\<open>target\<close>) are fields of the record \<open>env\<close>, so both kinds
  of build are covered. Log output and the release of memory that nothing reads afterwards are left
  out.

  \<^bold>\<open>Parameters.\<close> What is not in the repository is an argument: protobuf's generated serialiser,
  zlib, SHA-256 and the clock in \<open>env\<close>, libpqxx in \<open>pqxx\<close>, RapidJSON in \<open>json_library\<close>, the
  event log and XML interfaces in \<open>client_host\<close> and \<open>notify_api\<close>, firmware, registry and RPC in
  \<open>machine_api\<close>, BCrypt in \<open>bcrypt\<close>, Winsock, DNS and message tables in \<open>winsock\<close>. The laws a theorem
  needs of them are premises (\<open>wire_ok\<close>: a serialised message is not empty, fits 32 bits and parses
  back, decompression inverts compression, the digest has 32 bytes). Theory Sample_Env and the
  sample definitions of other theories give concrete instances, on which every property with
  premises has a witness. What a read of memory that was not written finds is an argument too
  (\<open>h_raw_client\<close>, \<open>h_raw_clientID\<close>, \<open>h_past_end\<close>, \<open>w_raw\<close>). The two sides of a connection are modelled
  with one \<open>env\<close>, that is, with the same libraries and the same kind of build.

  \<^bold>\<open>The theories.\<close>

    \<^item> Prelude: outcomes and their sequencing, assertions, big-endian words, decimal numbers, C
      strings, the interface of a queue (locale \<open>fifo\<close>); Containers: \<open>std::map\<close> and
      \<open>std::unordered_map\<close> as association lists behind the interface of a map.

    \<^item> Wire_Types: enumerations, \<open>Event\<close>, the generated message classes and all \<open>dispatch\<close> overloads
      of \<open>protobufLib.h\<close> and \<open>protobufLib.cpp\<close>. Timestamps: \<open>initGetTimestamp\<close> and \<open>getTimeStamp\<close> of
      \<open>WindowsProtobufLib/utils.cpp\<close>. Messages: \<open>CoreMessage\<close> and its derived classes as one record
      with a body, constructors, \<open>buildPBObj\<close>, \<open>BuildObj\<close>, \<open>parseFromArray\<close>; what a receiver holds
      of a message that was sent.

    \<^item> Packet_Codec: \<open>toBytes\<close> and \<open>ProtobufPacketDecoder\<close>. Decoder_Refinement: the abstract stream of
      received bytes, the invariant of the decoder, and the proof that the incremental decoder
      computes the abstract one, through the locales \<open>chunked_stream\<close> and \<open>stream_decoder\<close>.
      Packet_Properties: round trip under any chunking, nothing delivered early, damaged, hostile
      and refused packets, the depth of the recursion, what \<open>Reset\<close> leaves behind. Library_Tests:
      the three tests of \<open>test.cpp\<close> and that they hold for all random numbers.

    \<^item> Server_Config: \<open>ReadConfig\<close> of \<open>config.cpp\<close>. Database_Layer: the class \<open>Database\<close> of
      \<open>database.cpp\<close>. Database_Properties: batches, the cache of machines, registration, the last
      record id, connecting with retries.

    \<^item> Uv_Server: \<open>Client\<close> and \<open>UvHandler\<close> (\<open>clientServer.h\<close>, \<open>client.cpp\<close>, \<open>uv.cpp\<close>) and the signal
      handlers of \<open>ClientServiceServer.cpp\<close>; a callback is one step, and libuv chooses their order.
      Server_Properties: the step relation \<open>server_step\<close>, reachability, the invariant of the
      registry, order of sending, lifetime of clients, shutdown. Type_Invariant: every message that
      is queued is an object of the class its operation names, whatever bytes arrive.

    \<^item> Connection_Invariant: the connection object of the server outlives every step. Server_Threads:
      the work item of a batch cut into the steps between which other threads run, on the shared
      connection. Thread_Properties: batches stay whole, a second transaction ends the server, and
      the server of Uv_Server is contained in the one with threads.

    \<^item> Event_Forwarder: \<open>event.cpp\<close>, the callbacks of \<open>network.cpp\<close>, the dispatcher of \<open>service.h\<close> and
      \<open>start\<close> of \<open>clientService.cpp\<close>. A pass of the loop of \<open>EventForwardHandler::Start\<close> is
      \<open>forward_read\<close> (up to the packet sent) and \<open>forward_reset\<close> (its \<open>ResetEvent\<close>); the subscription's
      handle is set by \<open>signal_subscription\<close>, as Windows does whenever events are logged.
      Forwarder_Properties: which events of a batch are sent, what wakes the thread after a full
      batch. Client_Network: the address of the server, the single dispatcher, thread
      creation, the whole forwarding thread, error texts and conversions (\<open>network.cpp\<close>,
      \<open>service.cpp\<close>, \<open>WindowsClientService/utils.cpp\<close>).

    \<^item> End_To_End: client and server together, each reading the bytes the other one sent: the
      handshake, the acceptance of a batch, the package without events. Event_Delivery: the whole
      way of an event from the log of a client into the database of the server.

    \<^item> Client_Process: \<open>start\<close>, the console program \<open>ClientServerRunner\<close> that calls it, and the process
      of the client as a step relation \<open>client_step\<close> over the callbacks of its loop, the signals of the
      subscription and the two pieces of a pass of its forwarding thread, whose wait can fail. Every
      run of \<open>Start\<close> is one of \<open>client_step\<close> (\<open>start_rounds_reach\<close>). Client_Properties: the order of the packages a client sends in every
      state it can reach, and what a decoder makes of any part of their bytes.

    \<^item> Machine_Id: firmware UUID, product id, machine id, names and versions of
      \<open>WindowsProtobufLib/utils.cpp\<close>, with buffers as lists of cells that may be unwritten.
      Machine_Properties: the walk over well-formed firmware tables, version texts.

    \<^item> Notify: every function of \<open>notify.cpp\<close>. Notify_Properties: what one notification sends, and the
      substitution of parameters in message texts against a reference definition.

    \<^item> Processes: \<open>main\<close> of the server and of the notification client, the objects there is one of,
      printing of messages. Process_Properties: how the server ends without database, by a signal,
      and what holds whenever it returns.

  \<^bold>\<open>Interfaces.\<close> \<open>fifo\<close> (queues) is interpreted on the decoder's and the server's queues;
  \<open>dictionary\<close> and its extension \<open>emplacing\<close> (maps) on the association lists that stand for the registry of connections, the
  objects, the cache of machines and the prepared statements; \<open>chunked_stream\<close> and its extension
  \<open>stream_decoder\<close> on the abstract stream and on the decoder of the code.

  \<^bold>\<open>Recursion and loops.\<close> \<open>_read\<close> and \<open>parseHeader\<close> call each other; their depth is an argument, and
  \<open>decoder_read\<close> starts with twice the number of bytes plus three. Packet_Properties shows that
  every greater depth gives the same result, and that a run that exhausts this one exhausts every
  one (a header that announces an empty body). The walk over a firmware table is bounded by the
  length it compares with. Loops that need not end (\<open>find_params\<close>, \<open>dump_loop\<close>, \<open>begin_loop\<close>) are
  partial functions with \<open>None\<close> for a run without end; when \<open>find_params\<close> ends is shown
  in Notify_Properties. The loop of libuv and the forwarding thread run over the
  list of what happens to them.

  \<^bold>\<open>What the properties show.\<close> First, that the pieces do their work: messages survive encoding,
  chunking and decoding; the decoder refines the stream; the registry of the server and the types
  of queued messages are invariants of every interleaving of callbacks; packets leave in order; a
  handshake over the wire resumes the forwarding thread at the right record; the batch sent is the
  filter of the batch read; a logged event reaches the database in one committed statement; a client
  sends in the order of its protocol, and a receiver reads its packages and nothing else out of its bytes; the machine's UUID is found in any well-formed table; parameters are
  substituted as the reference says. Second, what the code does where it goes wrong: assertions
  that are inverted or carry the only check, memory read after its release, requests answered
  from uninitialised numbers, conditions that lack a negation, exceptions that end the process.
  Each of these is stated with the condition under which it happens.

  \<^bold>\<open>Not modelled.\<close> Races inside one step of a thread (a step of Server_Threads is one statement of the
  database, one commit or one answer; the counter of message ids, which is not atomic, is read and
  increased in one step), and those of the client, where each callback and each of the two pieces of
  a pass of the forwarding thread is one step of Client_Process. What arrives while a piece runs acts
  on the handles as if it came before the piece or after it: the first piece reads each handle and
  the record id once, and the second is one call. Also not modelled: \<open>UpdatePackage\<close>, which is never
  created; accessors of the classes, which are the selectors and updates of the records; the
  destructors that only free; \<open>printRemote\<close>, debug output and the loading of
  resource libraries, which only call the system; the DLL entry point, resources and build files.
\<close>

end
